(* ===== verification/Prelude.thy ===== *)
theory Prelude
  imports Main "HOL-Library.Word" "HOL-Library.Monad_Syntax"
begin

text \<open>
  Shared vocabulary of the development: machine integers, byte buffers read through
  bounds-checked accessors, the big-endian integer codecs that every wire format of the
  repository uses, and the "decode, append, advance" loop that the parsers share.

  A C++ operation whose behaviour can be undefined (a read past a buffer, a reversed
  iterator range, a dead iterator) is a value of type \<open>'a cxx\<close>: \<open>None\<close> is undefined
  behaviour, \<open>Some r\<close> is a run that ends with result \<open>r\<close>. Reads are never assumed to
  be in bounds; that they are is what the safety lemmas of the components prove.
\<close>

unbundle bit_operations_syntax

section \<open>Types\<close>

type_synonym byte = "8 word"
type_synonym u16 = "16 word"
type_synonym u32 = "32 word"
type_synonym u64 = "64 word"
type_synonym bytes = "byte list"
type_synonym 'a cxx = "'a option"

text \<open>Collections: unfolding of buffer reads, and facts about encoded lengths.\<close>

named_theorems rd_simps
named_theorems len_simps

section \<open>Reading a buffer\<close>

text \<open>\<open>rd8 data i\<close> is the C++ \<open>data[i]\<close> for a buffer of \<open>length data\<close> bytes.\<close>

definition rd8 :: "bytes \<Rightarrow> nat \<Rightarrow> byte cxx" where
  "rd8 data i = (if i < length data then Some (data ! i) else None)"

text \<open>\<open>(a << 8) | b\<close> and \<open>(a << 24) | (b << 16) | (c << 8) | d\<close>.\<close>

definition be16 :: "byte \<Rightarrow> byte \<Rightarrow> u16" where
  "be16 a b = push_bit 8 (ucast a) OR ucast b"

definition be32 :: "byte \<Rightarrow> byte \<Rightarrow> byte \<Rightarrow> byte \<Rightarrow> u32" where
  "be32 a b c d =
     push_bit 24 (ucast a) OR push_bit 16 (ucast b) OR push_bit 8 (ucast c) OR ucast d"

definition rd16 :: "bytes \<Rightarrow> nat \<Rightarrow> u16 cxx" where
  "rd16 data i = do { a \<leftarrow> rd8 data i; b \<leftarrow> rd8 data (i + 1); Some (be16 a b) }"

definition rd32 :: "bytes \<Rightarrow> nat \<Rightarrow> u32 cxx" where
  "rd32 data i = do {
     a \<leftarrow> rd8 data i; b \<leftarrow> rd8 data (i + 1); c \<leftarrow> rd8 data (i + 2); d \<leftarrow> rd8 data (i + 3);
     Some (be32 a b c d) }"

text \<open>
  The pointer range \<open>[data + i, data + j)\<close> handed to \<open>insert\<close>, \<open>assign\<close> or
  \<open>memcpy\<close>: defined only for \<open>i \<le> j \<le> size\<close>.
\<close>

definition rd_range :: "bytes \<Rightarrow> nat \<Rightarrow> nat \<Rightarrow> bytes cxx" where
  "rd_range data i j =
     (if i \<le> j \<and> j \<le> length data then Some (take (j - i) (drop i data)) else None)"

section \<open>Writing integers\<close>

definition b16 :: "u16 \<Rightarrow> bytes" where
  "b16 w = [ucast (drop_bit 8 w), ucast (w AND 0xFF)]"

definition b32 :: "u32 \<Rightarrow> bytes" where
  "b32 w = [ucast (drop_bit 24 w), ucast (drop_bit 16 w), ucast (drop_bit 8 w),
            ucast (w AND 0xFF)]"

text \<open>Bytes that pad a field of \<open>n\<close> bytes to a multiple of four.\<close>

definition pad4 :: "nat \<Rightarrow> nat" where
  "pad4 n = (let remainder = n mod 4 in if remainder \<noteq> 0 then 4 - remainder else 0)"

text \<open>\<open>%02x\<close> of every byte.\<close>

definition hex_digit :: "nat \<Rightarrow> char" where
  "hex_digit n = ''0123456789abcdef'' ! n"

definition hex_bytes :: "bytes \<Rightarrow> string" where
  "hex_bytes bs = concat (map (\<lambda>b. [hex_digit (unat b div 16), hex_digit (unat b mod 16)]) bs)"

section \<open>The decode loop\<close>

text \<open>
  \<open>for (pos = 0; pos < size;) { T t; len = t.deserialize(data + pos, size - pos);
  if (len == 0) return false; v.push_back(t); pos += len; } return true;\<close>
\<close>

function parse_loop ::
  "(bytes \<Rightarrow> (nat \<times> 'a) cxx) \<Rightarrow> bytes \<Rightarrow> 'a list \<Rightarrow> (bool \<times> 'a list) cxx" where
  "parse_loop dec data acc =
     (if data = [] then Some (True, acc)
      else case dec data of
        None \<Rightarrow> None
      | Some (len, t) \<Rightarrow>
          if len = 0 then Some (False, acc) else parse_loop dec (drop len data) (acc @ [t]))"
  by pat_completeness auto
termination
  by (relation "measure (\<lambda>(dec, data, acc). length data)") auto

declare parse_loop.simps [simp del]

section \<open>Writing a buffer\<close>

text \<open>\<open>memcpy\<close> or a sequence of stores into a buffer, defined inside its bounds.\<close>

definition wr_range :: "bytes \<Rightarrow> nat \<Rightarrow> bytes \<Rightarrow> bytes cxx" where
  "wr_range buf i bs =
     (if i + length bs \<le> length buf then Some (take i buf @ bs @ drop (i + length bs) buf) else None)"

definition arr_get :: "'a list option \<Rightarrow> nat \<Rightarrow> 'a cxx" where
  "arr_get a i = (case a of None \<Rightarrow> None | Some xs \<Rightarrow> if i < length xs then Some (xs ! i) else None)"

lemma wr_range_mid:
  "i = length pre \<Longrightarrow> length bs = length old \<Longrightarrow> wr_range (pre @ old @ post) i bs = Some (pre @ bs @ post)"
  by (simp add: wr_range_def)

lemma wr_range_0: "length bs \<le> length buf \<Longrightarrow> wr_range buf 0 bs = Some (bs @ drop (length bs) buf)"
  by (simp add: wr_range_def)

lemma wr_range_head: "wr_range (b # xs) 0 [c] = Some (c # xs)"
  by (simp add: wr_range_def)

lemma wr_range_at:
  "i = length pre \<Longrightarrow> length bs \<le> length old \<Longrightarrow> wr_range (pre @ old) i bs = Some (pre @ bs @ drop (length bs) old)"
  by (simp add: wr_range_def)

lemma wr_range_length: "wr_range buf i bs = Some buf' \<Longrightarrow> length buf' = length buf"
  by (auto simp: wr_range_def split: if_splits)

section \<open>Lemmas on reads\<close>

lemma rd8_Cons_0 [simp, rd_simps]: "rd8 (x # xs) 0 = Some x"
  by (simp add: rd8_def)

lemma rd8_Cons_Suc [simp, rd_simps]: "rd8 (x # xs) (Suc i) = rd8 xs i"
  by (simp add: rd8_def)

lemma rd8_Cons_numeral [simp, rd_simps]: "rd8 (x # xs) (numeral k) = rd8 xs (pred_numeral k)"
  by (simp add: numeral_eq_Suc)

lemma rd8_append [rd_simps]:
  "rd8 (xs @ ys) i = (if i < length xs then Some (xs ! i) else rd8 ys (i - length xs))"
  by (auto simp: rd8_def nth_append)

lemma rd8_eq_None_iff [simp]: "rd8 data i = None \<longleftrightarrow> length data \<le> i"
  by (simp add: rd8_def)

lemma rd8_in: "i < length data \<Longrightarrow> rd8 data i = Some (data ! i)"
  by (simp add: rd8_def)

lemma rd16_in: "i + 1 < length data \<Longrightarrow> rd16 data i = Some (be16 (data ! i) (data ! (i + 1)))"
  by (simp add: rd16_def rd8_def)

lemma rd32_in:
  "i + 3 < length data \<Longrightarrow>
   rd32 data i = Some (be32 (data ! i) (data ! (i + 1)) (data ! (i + 2)) (data ! (i + 3)))"
  by (simp add: rd32_def rd8_def)

lemma rd16_Cons_Suc [simp]: "rd16 (x # xs) (Suc i) = rd16 xs i"
  by (simp add: rd16_def)

lemma rd16_Cons_numeral [simp]: "rd16 (x # xs) (numeral k) = rd16 xs (pred_numeral k)"
  by (simp add: numeral_eq_Suc)

lemma rd32_Cons_Suc [simp]: "rd32 (x # xs) (Suc i) = rd32 xs i"
  by (simp add: rd32_def rd8_def add.commute)

lemma rd32_Cons_numeral [simp]: "rd32 (x # xs) (numeral k) = rd32 xs (pred_numeral k)"
  by (simp add: numeral_eq_Suc)

lemma rd16_drop: "rd16 (drop n xs) i = rd16 xs (n + i)"
  by (auto simp: rd16_def rd8_def)

lemma drop_ConsD: "drop i xs = y # ys \<Longrightarrow> i < length xs \<and> xs ! i = y \<and> drop (Suc i) xs = ys"
  by (cases "i < length xs") (simp_all add: Cons_nth_drop_Suc [symmetric])

lemma rd_range_in:
  "i \<le> j \<Longrightarrow> j \<le> length data \<Longrightarrow> rd_range data i j = Some (take (j - i) (drop i data))"
  by (simp add: rd_range_def)

lemma rd_range_eq_None_iff [simp]: "rd_range data i j = None \<longleftrightarrow> j < i \<or> length data < j"
  by (auto simp: rd_range_def)

lemma rd_range_mid:
  "i = length hs \<Longrightarrow> j = length hs + length vs \<Longrightarrow> rd_range (hs @ vs @ rest) i j = Some vs"
  by (simp add: rd_range_def)

lemma rd_range_mid2:
  "i = length hs + length ls \<Longrightarrow> j = length hs + length ls + length vs \<Longrightarrow>
   rd_range (hs @ ls @ vs @ rest) i j = Some vs"
  by (simp add: rd_range_def)

section \<open>Integer round trips\<close>

lemma and_FF: "w AND 0xFF = (take_bit 8 w :: 'a::len word)"
proof -
  have "(0xFF :: 'a word) = mask 8"
    by (simp add: mask_eq_exp_minus_1)
  then show ?thesis
    by (simp add: take_bit_eq_mask)
qed

lemma ucast_and_FF [simp]: "(ucast (w AND 0xFF) :: byte) = ucast w"
  by (rule bit_word_eqI) (auto simp: and_FF bit_simps)

lemma be16_hi_lo [simp]: "be16 (ucast (drop_bit 8 w)) (ucast w) = w"
proof (rule bit_word_eqI)
  fix n assume "n < LENGTH(16)"
  then show "bit (be16 (ucast (drop_bit 8 w)) (ucast w)) n = bit w n"
    by (cases "n < 8") (auto simp: be16_def bit_simps)
qed

lemma be32_bytes [simp]:
  "be32 (ucast (drop_bit 24 w)) (ucast (drop_bit 16 w)) (ucast (drop_bit 8 w)) (ucast w) = w"
proof (rule bit_word_eqI)
  fix n assume "n < LENGTH(32)"
  then consider "n < 8" | "8 \<le> n \<and> n < 16" | "16 \<le> n \<and> n < 24" | "24 \<le> n \<and> n < 32"
    by force
  then show "bit (be32 (ucast (drop_bit 24 w)) (ucast (drop_bit 16 w)) (ucast (drop_bit 8 w))
      (ucast w)) n = bit w n"
    by cases (auto simp: be32_def bit_simps)
qed

lemma b16_be16: "b16 (be16 h l) = [h, l]"
proof -
  have "ucast (drop_bit 8 (be16 h l)) = h"
    by (rule bit_word_eqI) (auto simp: be16_def bit_simps dest: bit_imp_le_length)
  moreover have "ucast (be16 h l) = l"
    by (rule bit_word_eqI) (auto simp: be16_def bit_simps)
  ultimately show ?thesis
    by (simp add: b16_def)
qed

lemma b32_be32: "b32 (be32 a b c d) = [a, b, c, d]"
proof -
  let ?w = "be32 a b c d"
  have "ucast (drop_bit 24 ?w) = a"
    by (rule bit_word_eqI) (auto simp: be32_def bit_simps dest: bit_imp_le_length)
  moreover have "ucast (drop_bit 16 ?w) = b"
    by (rule bit_word_eqI) (auto simp: be32_def bit_simps dest: bit_imp_le_length)
  moreover have "ucast (drop_bit 8 ?w) = c"
    by (rule bit_word_eqI) (auto simp: be32_def bit_simps dest: bit_imp_le_length)
  moreover have "ucast ?w = d"
    by (rule bit_word_eqI) (auto simp: be32_def bit_simps)
  ultimately show ?thesis
    by (simp add: b32_def)
qed

lemma length_b16 [simp, len_simps]: "length (b16 w) = 2"
  by (simp add: b16_def)

lemma length_b32 [simp, len_simps]: "length (b32 w) = 4"
  by (simp add: b32_def)

lemma rd16_b16 [simp]: "rd16 (b16 w @ xs) 0 = Some w"
  by (simp add: rd16_def b16_def)

lemma rd32_b32 [simp]: "rd32 (b32 w @ xs) 0 = Some w"
  by (simp add: rd32_def b32_def)

lemma rd16_append2 [simp]:
  "length hs \<le> i \<Longrightarrow> rd16 (hs @ xs) i = rd16 xs (i - length hs)"
  by (auto simp: rd16_def rd8_append Suc_diff_le)

lemma rd32_append2 [simp]:
  "length hs \<le> i \<Longrightarrow> rd32 (hs @ xs) i = rd32 xs (i - length hs)"
  by (auto simp: rd32_def rd8_append Suc_diff_le)

lemma length_hex_bytes [simp]: "length (hex_bytes bs) = 2 * length bs"
  by (induction bs) (simp_all add: hex_bytes_def)

section \<open>Bit fields of a byte\<close>

lemma byte_eqI:
  assumes "bit x 0 = bit y 0" "bit x 1 = bit y 1" "bit x 2 = bit y 2" "bit x 3 = bit y 3"
    "bit x 4 = bit y 4" "bit x 5 = bit y 5" "bit x 6 = bit y 6" "bit x 7 = bit y 7"
  shows "x = (y :: byte)"
proof (rule bit_word_eqI)
  fix n :: nat assume "n < LENGTH(8)"
  then have "n \<in> {0, 1, 2, 3, 4, 5, 6, 7}" by auto
  then show "bit x n = bit y n" using assms by auto
qed

lemma byte_double: "bit (x * 2 :: byte) n \<longleftrightarrow> 0 < n \<and> n < 8 \<and> bit x (n - 1)"
  using bit_push_bit_iff [of 1 x n] by (auto simp: mult.commute possible_bit_word)

lemma byte_take_bit:
  "x < (2 :: byte) \<Longrightarrow> take_bit 1 x = x" "x < (4 :: byte) \<Longrightarrow> take_bit 2 x = x"
  "x < (8 :: byte) \<Longrightarrow> take_bit 3 x = x" "x < (16 :: byte) \<Longrightarrow> take_bit 4 x = x"
  "x < (32 :: byte) \<Longrightarrow> take_bit 5 x = x" "x < (64 :: byte) \<Longrightarrow> take_bit 6 x = x"
  "x < (128 :: byte) \<Longrightarrow> take_bit 7 x = x"
  by (simp_all only: word_less_nat_alt word_unat_eq_iff unsigned_take_bit_eq)
    (simp_all add: take_bit_nat_eq_self)

lemma byte_and_mask:
  "x AND 0x1 = take_bit 1 (x :: byte)" "x AND 0x3 = take_bit 2 (x :: byte)"
  "x AND 0x7 = take_bit 3 (x :: byte)" "x AND 0xf = take_bit 4 (x :: byte)"
  "x AND 0x1f = take_bit 5 (x :: byte)" "x AND 0x3f = take_bit 6 (x :: byte)"
  "x AND 0x7f = take_bit 7 (x :: byte)"
  by (simp_all add: take_bit_eq_mask mask_eq_exp_minus_1)

lemma byte_and_small:
  "x < (2 :: byte) \<Longrightarrow> x AND 0x1 = x" "x < (4 :: byte) \<Longrightarrow> x AND 0x3 = x"
  "x < (8 :: byte) \<Longrightarrow> x AND 0x7 = x" "x < (16 :: byte) \<Longrightarrow> x AND 0xf = x"
  "x < (32 :: byte) \<Longrightarrow> x AND 0x1f = x" "x < (64 :: byte) \<Longrightarrow> x AND 0x3f = x"
  "x < (128 :: byte) \<Longrightarrow> x AND 0x7f = x"
  by (simp_all only: byte_and_mask byte_take_bit)

section \<open>The decode loop on encoded input\<close>

text \<open>
  The contract between an element codec and the loops that parse sequences of elements
  (TLV parameters, chunks, attributes): decoding a buffer that starts with the encoding of
  an admissible element consumes exactly that encoding, whatever follows, as long as the
  buffer is within the codec's size limit.
\<close>

locale framed_codec =
  fixes enc :: "'a \<Rightarrow> bytes"
    and dec :: "bytes \<Rightarrow> (nat \<times> 'b) cxx"
    and view :: "'a \<Rightarrow> 'b"
    and ok :: "'a \<Rightarrow> bool"
    and limit :: nat
  assumes dec_enc: "ok x \<Longrightarrow> length (enc x @ rest) \<le> limit \<Longrightarrow>
      dec (enc x @ rest) = Some (length (enc x), view x)"
    and enc_nonempty: "ok x \<Longrightarrow> enc x \<noteq> []"
begin

lemma parse_loop_concat:
  assumes "list_all ok xs" and "length (concat (map enc xs)) \<le> limit"
  shows "parse_loop dec (concat (map enc xs)) acc = Some (True, acc @ map view xs)"
  using assms
proof (induction xs arbitrary: acc)
  case Nil
  then show ?case by (simp add: parse_loop.simps)
next
  case (Cons x xs)
  let ?rest = "concat (map enc xs)"
  from Cons.prems have "dec (enc x @ ?rest) = Some (length (enc x), view x)"
    by (intro dec_enc) auto
  moreover have "enc x \<noteq> []"
    using Cons.prems by (simp add: enc_nonempty)
  moreover have "parse_loop dec ?rest (acc @ [view x]) = Some (True, (acc @ [view x]) @ map view xs)"
    using Cons.prems by (intro Cons.IH) auto
  ultimately show ?case
    by (simp add: parse_loop.simps [of dec "enc x @ ?rest"])
qed

end

text \<open>The loop is defined wherever every call of the decoder it makes is.\<close>

lemma parse_loop_defined:
  assumes "\<And>d. length d \<le> length data \<Longrightarrow> dec d \<noteq> None"
  shows "parse_loop dec data acc \<noteq> None"
  using assms
proof (induction dec data acc rule: parse_loop.induct)
  case (1 dec data acc)
  show ?case
  proof (cases "data = []")
    case True
    then show ?thesis by (simp add: parse_loop.simps)
  next
    case False
    from "1.prems" [of data] obtain len t where d: "dec data = Some (len, t)"
      by (cases "dec data") auto
    show ?thesis
    proof (cases "len = 0")
      case True
      with False d show ?thesis by (simp add: parse_loop.simps)
    next
      case len: False
      have "parse_loop dec (drop len data) (acc @ [t]) \<noteq> None"
        using False d len "1.prems" by (intro "1.IH") auto
      with False d len show ?thesis by (simp add: parse_loop.simps [of dec data])
    qed
  qed
qed

section \<open>Padding\<close>

lemma pad4_mod [simp]: "(n + pad4 n) mod 4 = 0"
  unfolding pad4_def Let_def by presburger

lemma pad4_less: "pad4 n < 4"
  by (simp add: pad4_def Let_def)

lemma pad4_add4 [simp]: "pad4 (4 + n) = pad4 n" "pad4 (n + 4) = pad4 n"
  by (simp_all add: pad4_def)

lemma pad4_0 [simp]: "pad4 0 = 0"
  by (simp add: pad4_def)

lemma unat_of_nat_small: "n < 2 ^ LENGTH('a::len) \<Longrightarrow> unat (word_of_nat n :: 'a word) = n"
  by (simp add: unat_of_nat)

lemma unat_4_plus: "4 + n < 65536 \<Longrightarrow> unat (4 + word_of_nat n :: u16) = 4 + n"
  using unat_of_nat_small [of "4 + n", where 'a = 16] by simp

lemma length_ge4E:
  assumes "4 \<le> length xs"
  obtains a b c d r where "xs = a # b # c # d # r"
  using assms by (auto simp: Suc_le_length_iff numeral_eq_Suc)

lemma take_4_plus: "take (4 + k) (a # b # c # d # r) = a # b # c # d # take k r"
  by (simp add: numeral_eq_Suc)

end
