(* ===== verification/Sctp_Chunk.thy ===== *)
theory Sctp_Chunk
  imports Prelude
begin

text \<open>
  The SCTP chunk codec: \<open>rtpx/sctp/sctp_chunk.h\<close> and \<open>sctp_chunk.cpp\<close>. Every class is a
  record with the fields of the source; \<open>deserialize\<close> takes the object it is called on and
  returns its result together with the object afterwards, also where it gives up halfway;
  \<open>serialize\<close> of a class with a \<open>mutable len\<close> returns the bytes and the object with the
  length it stored.

  A scoped enumeration over \<open>uint8_t\<close>, \<open>uint16_t\<close> or \<open>uint32_t\<close> holds every value of its
  underlying type (the parsers \<open>static_cast\<close> what arrives), so it is a word with named values.
\<close>

unbundle bit_operations_syntax

section \<open>Constants and enumerations\<close>

abbreviation (input) SCTP_MAX_CHUNK_SIZE :: nat where
  "SCTP_MAX_CHUNK_SIZE \<equiv> 4096"

type_synonym sctp_chunk_type = byte

abbreviation (input) ct_data :: sctp_chunk_type where "ct_data \<equiv> 0x00"
abbreviation (input) ct_init :: sctp_chunk_type where "ct_init \<equiv> 0x01"
abbreviation (input) ct_init_ack :: sctp_chunk_type where "ct_init_ack \<equiv> 0x02"
abbreviation (input) ct_sack :: sctp_chunk_type where "ct_sack \<equiv> 0x03"
abbreviation (input) ct_heartbeat :: sctp_chunk_type where "ct_heartbeat \<equiv> 0x04"
abbreviation (input) ct_heartbeat_ack :: sctp_chunk_type where "ct_heartbeat_ack \<equiv> 0x05"
abbreviation (input) ct_abort :: sctp_chunk_type where "ct_abort \<equiv> 0x06"
abbreviation (input) ct_shutdown :: sctp_chunk_type where "ct_shutdown \<equiv> 0x07"
abbreviation (input) ct_shutdown_ack :: sctp_chunk_type where "ct_shutdown_ack \<equiv> 0x08"
abbreviation (input) ct_operational_error :: sctp_chunk_type where "ct_operational_error \<equiv> 0x09"
abbreviation (input) ct_cookie_echo :: sctp_chunk_type where "ct_cookie_echo \<equiv> 0x0a"
abbreviation (input) ct_cookie_ack :: sctp_chunk_type where "ct_cookie_ack \<equiv> 0x0b"

type_synonym sctp_chunk_flags = byte

abbreviation (input) cf_none :: sctp_chunk_flags where "cf_none \<equiv> 0x00"
abbreviation (input) cf_end :: sctp_chunk_flags where "cf_end \<equiv> 0x01"
abbreviation (input) cf_begin :: sctp_chunk_flags where "cf_begin \<equiv> 0x02"
abbreviation (input) cf_unordered :: sctp_chunk_flags where "cf_unordered \<equiv> 0x04"

definition sctp_chunk_flags_or :: "sctp_chunk_flags \<Rightarrow> sctp_chunk_flags \<Rightarrow> sctp_chunk_flags" where
  "sctp_chunk_flags_or lhs rhs = lhs OR rhs"

abbreviation (input) ipt_state_cookie :: u16 where "ipt_state_cookie \<equiv> 0x0007"

abbreviation (input) ec_missing_mandatory_parameter :: u16 where
  "ec_missing_mandatory_parameter \<equiv> 0x0002"
abbreviation (input) ec_stale_cookie_error :: u16 where "ec_stale_cookie_error \<equiv> 0x0003"
abbreviation (input) ec_protocol_violation :: u16 where "ec_protocol_violation \<equiv> 0x000D"

type_synonym sctp_payload_protocol_id = u32

abbreviation (input) ppid_dcep :: sctp_payload_protocol_id where "ppid_dcep \<equiv> 50"
abbreviation (input) ppid_string :: sctp_payload_protocol_id where "ppid_string \<equiv> 51"
abbreviation (input) ppid_binary :: sctp_payload_protocol_id where "ppid_binary \<equiv> 53"
abbreviation (input) ppid_empty_string :: sctp_payload_protocol_id where "ppid_empty_string \<equiv> 56"
abbreviation (input) ppid_empty_binary :: sctp_payload_protocol_id where "ppid_empty_binary \<equiv> 57"

section \<open>Type-length-value parameters\<close>

record sctp_chunk_tlv =
  tlv_type :: u16
  tlv_len :: u16
  tlv_value :: bytes

definition sctp_chunk_tlv_new :: sctp_chunk_tlv where
  "sctp_chunk_tlv_new = \<lparr>tlv_type = 0, tlv_len = 0, tlv_value = []\<rparr>"

definition sctp_chunk_tlv_deserialize ::
  "sctp_chunk_tlv \<Rightarrow> bytes \<Rightarrow> (nat \<times> sctp_chunk_tlv) cxx" where
  "sctp_chunk_tlv_deserialize this data =
     (let size = length data in
      if size < 4 \<or> size > SCTP_MAX_CHUNK_SIZE then Some (0, this)
      else do {
        ty \<leftarrow> rd16 data 0;
        ln \<leftarrow> rd16 data 2;
        let this = this\<lparr>tlv_type := ty, tlv_len := ln\<rparr>;
        let padding = pad4 (unat ln);
        let padding_len = unat ln + padding;
        if size < unat ln then Some (0, this)
        else do {
          v \<leftarrow> rd_range data 4 (unat ln);
          Some (min size padding_len, this\<lparr>tlv_value := tlv_value this @ v\<rparr>) } })"

definition sctp_chunk_tlv_serialize :: "sctp_chunk_tlv \<Rightarrow> bytes \<times> sctp_chunk_tlv" where
  "sctp_chunk_tlv_serialize this =
     (let ln = word_of_nat (4 + length (tlv_value this)) :: u16;
          padding = pad4 (unat ln)
      in (b16 (tlv_type this) @ b16 ln @ tlv_value this @ replicate padding 0,
          this\<lparr>tlv_len := ln\<rparr>))"

section \<open>Chunks\<close>

record sctp_chunk =
  ck_type :: sctp_chunk_type
  ck_flags :: sctp_chunk_flags
  ck_len :: u16
  ck_payload :: bytes

definition sctp_chunk_default :: sctp_chunk where
  "sctp_chunk_default = \<lparr>ck_type = ct_data, ck_flags = cf_none, ck_len = 0, ck_payload = []\<rparr>"

definition sctp_chunk_new ::
  "sctp_chunk_type \<Rightarrow> sctp_chunk_flags \<Rightarrow> bytes \<Rightarrow> sctp_chunk" where
  "sctp_chunk_new ty fl pl =
     sctp_chunk_default\<lparr>ck_type := ty, ck_flags := fl, ck_payload := pl\<rparr>"

definition sctp_chunk_deserialize :: "sctp_chunk \<Rightarrow> bytes \<Rightarrow> (nat \<times> sctp_chunk) cxx" where
  "sctp_chunk_deserialize this data =
     (let size = length data in
      if size < 4 \<or> size > SCTP_MAX_CHUNK_SIZE then Some (0, this)
      else do {
        ty \<leftarrow> rd8 data 0;
        fl \<leftarrow> rd8 data 1;
        ln \<leftarrow> rd16 data 2;
        let this = this\<lparr>ck_type := ty, ck_flags := fl, ck_len := ln\<rparr>;
        let padding = pad4 (unat ln);
        let padding_len = unat ln + padding;
        if padding_len < 4 \<or> size < padding_len then Some (0, this)
        else do {
          v \<leftarrow> rd_range data 4 (unat ln);
          Some (padding_len, this\<lparr>ck_payload := ck_payload this @ v\<rparr>) } })"

definition sctp_chunk_serialize :: "sctp_chunk \<Rightarrow> bytes \<times> sctp_chunk" where
  "sctp_chunk_serialize this =
     (let ln = word_of_nat (4 + length (ck_payload this)) :: u16;
          padding = pad4 (unat ln)
      in ([ck_type this, ck_flags this] @ b16 ln @ ck_payload this @ replicate padding 0,
          this\<lparr>ck_len := ln\<rparr>))"

definition sctp_chunk_payload_length :: "sctp_chunk \<Rightarrow> u16" where
  "sctp_chunk_payload_length this = ck_len this - 4"

section \<open>DATA\<close>

record sctp_data_chunk =
  dc_tsn :: u32
  dc_stream_id :: u16
  dc_stream_sequence :: u16
  dc_ppid :: sctp_payload_protocol_id
  dc_payload :: bytes

definition sctp_data_chunk_new :: sctp_data_chunk where
  "sctp_data_chunk_new = \<lparr>dc_tsn = 0, dc_stream_id = 0, dc_stream_sequence = 0,
     dc_ppid = ppid_dcep, dc_payload = []\<rparr>"

definition sctp_data_chunk_deserialize ::
  "sctp_data_chunk \<Rightarrow> bytes \<Rightarrow> (bool \<times> sctp_data_chunk) cxx" where
  "sctp_data_chunk_deserialize this data =
     (let size = length data in
      if size < 12 \<or> size > SCTP_MAX_CHUNK_SIZE then Some (False, this)
      else do {
        tsn \<leftarrow> rd32 data 0;
        sid \<leftarrow> rd16 data 4;
        ssn \<leftarrow> rd16 data 6;
        ppid \<leftarrow> rd32 data 8;
        v \<leftarrow> rd_range data 12 size;
        Some (True, this\<lparr>dc_tsn := tsn, dc_stream_id := sid, dc_stream_sequence := ssn,
                         dc_ppid := ppid, dc_payload := dc_payload this @ v\<rparr>) })"

definition sctp_data_chunk_serialize :: "sctp_data_chunk \<Rightarrow> bytes" where
  "sctp_data_chunk_serialize this =
     b32 (dc_tsn this) @ b16 (dc_stream_id this) @ b16 (dc_stream_sequence this) @
     b32 (dc_ppid this) @ dc_payload this"

section \<open>SACK\<close>

record gap_item_t =
  gap_begin :: u32
  gap_end :: u32

record sctp_sack_chunk =
  sk_tsn :: u32
  sk_arwnd :: u32
  sk_gaps :: "gap_item_t list"
  sk_dups :: "u32 list"

definition sctp_sack_chunk_new :: sctp_sack_chunk where
  "sctp_sack_chunk_new = \<lparr>sk_tsn = 0, sk_arwnd = 0, sk_gaps = [], sk_dups = []\<rparr>"

text \<open>The two loops of \<open>deserialize\<close>, \<open>n\<close> rounds from offset \<open>pos\<close>.\<close>

fun sack_read_gaps :: "bytes \<Rightarrow> nat \<Rightarrow> nat \<Rightarrow> gap_item_t list \<Rightarrow> gap_item_t list cxx" where
  "sack_read_gaps data 0 pos gaps = Some gaps"
| "sack_read_gaps data (Suc n) pos gaps = do {
     b \<leftarrow> rd16 data pos;
     e \<leftarrow> rd16 data (pos + 2);
     sack_read_gaps data n (pos + 4) (gaps @ [\<lparr>gap_begin = ucast b, gap_end = ucast e\<rparr>]) }"

fun sack_read_dups :: "bytes \<Rightarrow> nat \<Rightarrow> nat \<Rightarrow> u32 list \<Rightarrow> u32 list cxx" where
  "sack_read_dups data 0 pos dups = Some dups"
| "sack_read_dups data (Suc n) pos dups = do {
     d \<leftarrow> rd32 data pos;
     sack_read_dups data n (pos + 4) (dups @ [d]) }"

definition sctp_sack_chunk_deserialize ::
  "sctp_sack_chunk \<Rightarrow> bytes \<Rightarrow> (bool \<times> sctp_sack_chunk) cxx" where
  "sctp_sack_chunk_deserialize this data =
     (let size = length data; offset = 12 in
      if size < offset \<or> size > SCTP_MAX_CHUNK_SIZE then Some (False, this)
      else do {
        tsn \<leftarrow> rd32 data 0;
        arwnd \<leftarrow> rd32 data 4;
        num_gap \<leftarrow> rd16 data 8;
        num_dup \<leftarrow> rd16 data 10;
        let this = this\<lparr>sk_tsn := tsn, sk_arwnd := arwnd\<rparr>;
        if size < unat num_gap * 8 + unat num_dup * 4 + offset then Some (False, this)
        else do {
          gaps \<leftarrow> sack_read_gaps data (unat num_gap) offset (sk_gaps this);
          dups \<leftarrow> sack_read_dups data (unat num_gap) (offset + 4 * unat num_gap) (sk_dups this);
          Some (True, this\<lparr>sk_gaps := gaps, sk_dups := dups\<rparr>) } })"

definition gap_bytes :: "gap_item_t \<Rightarrow> bytes" where
  "gap_bytes v = b16 (ucast (gap_begin v)) @ b16 (ucast (gap_end v))"

text \<open>Both loops of \<open>serialize\<close> count with a \<open>uint16_t\<close> up to the truncated sizes.\<close>

definition sctp_sack_chunk_serialize :: "sctp_sack_chunk \<Rightarrow> bytes" where
  "sctp_sack_chunk_serialize this =
     (let num_gap = word_of_nat (length (sk_gaps this)) :: u16;
          num_dup = word_of_nat (length (sk_dups this)) :: u16
      in b32 (sk_tsn this) @ b32 (sk_arwnd this) @ b16 num_gap @ b16 num_dup @
         concat (map gap_bytes (take (unat num_gap) (sk_gaps this))) @
         concat (map b32 (take (unat num_dup) (sk_dups this))))"

section \<open>Parameter lists: HEARTBEAT, INIT, ABORT, ERROR\<close>

text \<open>The loop that fills \<open>parameters\<close>, the one that prints it, and \<open>find_paramter\<close>.\<close>

abbreviation (input) tlv_parse :: "bytes \<Rightarrow> sctp_chunk_tlv list \<Rightarrow> (bool \<times> sctp_chunk_tlv list) cxx" where
  "tlv_parse \<equiv> parse_loop (sctp_chunk_tlv_deserialize sctp_chunk_tlv_new)"

definition tlv_print :: "sctp_chunk_tlv list \<Rightarrow> bytes \<times> sctp_chunk_tlv list" where
  "tlv_print ps = (concat (map (fst \<circ> sctp_chunk_tlv_serialize) ps),
                   map (snd \<circ> sctp_chunk_tlv_serialize) ps)"

fun tlv_find :: "sctp_chunk_tlv list \<Rightarrow> u16 \<Rightarrow> bytes option" where
  "tlv_find [] ty = None"
| "tlv_find (p # ps) ty = (if tlv_type p = ty then Some (tlv_value p) else tlv_find ps ty)"

record sctp_heartbeat_chunk =
  hb_parameters :: "sctp_chunk_tlv list"

definition sctp_heartbeat_chunk_deserialize ::
  "sctp_heartbeat_chunk \<Rightarrow> bytes \<Rightarrow> (bool \<times> sctp_heartbeat_chunk) cxx" where
  "sctp_heartbeat_chunk_deserialize this data =
     (let size = length data in
      if size \<le> 0 \<or> size > SCTP_MAX_CHUNK_SIZE then Some (False, this)
      else do {
        (r, ps) \<leftarrow> tlv_parse data (hb_parameters this);
        Some (r, this\<lparr>hb_parameters := ps\<rparr>) })"

definition sctp_heartbeat_chunk_serialize ::
  "sctp_heartbeat_chunk \<Rightarrow> bytes \<times> sctp_heartbeat_chunk" where
  "sctp_heartbeat_chunk_serialize this =
     (let (buf, ps) = tlv_print (hb_parameters this) in (buf, this\<lparr>hb_parameters := ps\<rparr>))"

definition sctp_heartbeat_chunk_find_paramter ::
  "sctp_heartbeat_chunk \<Rightarrow> u16 \<Rightarrow> bytes option" where
  "sctp_heartbeat_chunk_find_paramter this ty = tlv_find (hb_parameters this) ty"

record sctp_init_chunk =
  in_init_tag :: u32
  in_arwnd :: u32
  in_num_out_stream :: u16
  in_num_in_stream :: u16
  in_init_tsn :: u32
  in_parameters :: "sctp_chunk_tlv list"

definition sctp_init_chunk_new :: sctp_init_chunk where
  "sctp_init_chunk_new = \<lparr>in_init_tag = 0, in_arwnd = 0, in_num_out_stream = 0,
     in_num_in_stream = 0, in_init_tsn = 0, in_parameters = []\<rparr>"

definition sctp_init_chunk_deserialize ::
  "sctp_init_chunk \<Rightarrow> bytes \<Rightarrow> (bool \<times> sctp_init_chunk) cxx" where
  "sctp_init_chunk_deserialize this data =
     (let size = length data in
      if size < 16 \<or> size > SCTP_MAX_CHUNK_SIZE then Some (False, this)
      else do {
        tag \<leftarrow> rd32 data 0;
        arwnd \<leftarrow> rd32 data 4;
        nout \<leftarrow> rd16 data 8;
        nin \<leftarrow> rd16 data 10;
        tsn \<leftarrow> rd32 data 12;
        (r, ps) \<leftarrow> tlv_parse (drop 16 data) (in_parameters this);
        Some (r, this\<lparr>in_init_tag := tag, in_arwnd := arwnd, in_num_out_stream := nout,
                      in_num_in_stream := nin, in_init_tsn := tsn, in_parameters := ps\<rparr>) })"

definition sctp_init_chunk_serialize :: "sctp_init_chunk \<Rightarrow> bytes \<times> sctp_init_chunk" where
  "sctp_init_chunk_serialize this =
     (let (tlvs, ps) = tlv_print (in_parameters this)
      in (b32 (in_init_tag this) @ b32 (in_arwnd this) @ b16 (in_num_out_stream this) @
          b16 (in_num_in_stream this) @ b32 (in_init_tsn this) @ tlvs,
          this\<lparr>in_parameters := ps\<rparr>))"

definition sctp_init_chunk_find_paramter :: "sctp_init_chunk \<Rightarrow> u16 \<Rightarrow> bytes option" where
  "sctp_init_chunk_find_paramter this ty = tlv_find (in_parameters this) ty"

record sctp_shutdown_chunk =
  sd_tsn :: u32

definition sctp_shutdown_chunk_deserialize ::
  "sctp_shutdown_chunk \<Rightarrow> bytes \<Rightarrow> (bool \<times> sctp_shutdown_chunk) cxx" where
  "sctp_shutdown_chunk_deserialize this data =
     (let size = length data in
      if size < 4 \<or> size > SCTP_MAX_CHUNK_SIZE then Some (False, this)
      else do { tsn \<leftarrow> rd32 data 0; Some (True, this\<lparr>sd_tsn := tsn\<rparr>) })"

definition sctp_shutdown_chunk_serialize :: "sctp_shutdown_chunk \<Rightarrow> bytes" where
  "sctp_shutdown_chunk_serialize this = b32 (sd_tsn this)"

record sctp_abort_chunk =
  ab_parameters :: "sctp_chunk_tlv list"

definition sctp_abort_chunk_deserialize ::
  "sctp_abort_chunk \<Rightarrow> bytes \<Rightarrow> (bool \<times> sctp_abort_chunk) cxx" where
  "sctp_abort_chunk_deserialize this data =
     (let size = length data in
      if size > SCTP_MAX_CHUNK_SIZE then Some (False, this)
      else do {
        (r, ps) \<leftarrow> tlv_parse data (ab_parameters this);
        Some (r, this\<lparr>ab_parameters := ps\<rparr>) })"

definition sctp_abort_chunk_serialize :: "sctp_abort_chunk \<Rightarrow> bytes \<times> sctp_abort_chunk" where
  "sctp_abort_chunk_serialize this =
     (let (buf, ps) = tlv_print (ab_parameters this) in (buf, this\<lparr>ab_parameters := ps\<rparr>))"

record sctp_error_chunk =
  er_parameters :: "sctp_chunk_tlv list"

definition sctp_error_chunk_deserialize ::
  "sctp_error_chunk \<Rightarrow> bytes \<Rightarrow> (bool \<times> sctp_error_chunk) cxx" where
  "sctp_error_chunk_deserialize this data =
     (let size = length data in
      if size > SCTP_MAX_CHUNK_SIZE then Some (False, this)
      else do {
        (r, ps) \<leftarrow> tlv_parse data (er_parameters this);
        Some (r, this\<lparr>er_parameters := ps\<rparr>) })"

definition sctp_error_chunk_serialize :: "sctp_error_chunk \<Rightarrow> bytes \<times> sctp_error_chunk" where
  "sctp_error_chunk_serialize this =
     (let (buf, ps) = tlv_print (er_parameters this) in (buf, this\<lparr>er_parameters := ps\<rparr>))"

section \<open>COOKIE ECHO\<close>

record sctp_cookie_echo_chunk =
  ce_cookie :: bytes

definition sctp_cookie_echo_chunk_deserialize ::
  "sctp_cookie_echo_chunk \<Rightarrow> bytes \<Rightarrow> u16 \<Rightarrow> (bool \<times> sctp_cookie_echo_chunk) cxx" where
  "sctp_cookie_echo_chunk_deserialize this data len =
     (let size = length data in
      if size < unat len \<or> size > SCTP_MAX_CHUNK_SIZE then Some (False, this)
      else do {
        v \<leftarrow> rd_range data 0 (unat len);
        Some (True, this\<lparr>ce_cookie := ce_cookie this @ v\<rparr>) })"

definition sctp_cookie_echo_chunk_serialize :: "sctp_cookie_echo_chunk \<Rightarrow> bytes" where
  "sctp_cookie_echo_chunk_serialize this = ce_cookie this"

section \<open>Parameters: bounds and round trip\<close>

lemma length_tlv_serialize [len_simps]:
  "4 + length (tlv_value t) < 65536 \<Longrightarrow>
   length (fst (sctp_chunk_tlv_serialize t)) = 4 + length (tlv_value t) + pad4 (length (tlv_value t))"
  by (simp add: sctp_chunk_tlv_serialize_def Let_def unat_4_plus)

lemma tlv_fits:
  assumes "length (fst (sctp_chunk_tlv_serialize t)) \<le> 4096"
  shows "4 + length (tlv_value t) < 65536"
  using assms by (simp add: sctp_chunk_tlv_serialize_def Let_def)

lemma tlv_deserialize_serialize:
  assumes "length (fst (sctp_chunk_tlv_serialize t) @ rest) \<le> 4096"
  shows "sctp_chunk_tlv_deserialize sctp_chunk_tlv_new (fst (sctp_chunk_tlv_serialize t) @ rest) =
     Some (length (fst (sctp_chunk_tlv_serialize t)), snd (sctp_chunk_tlv_serialize t))"
proof -
  have fits: "4 + length (tlv_value t) < 65536"
    using assms by (intro tlv_fits) simp
  then have u: "unat (4 + word_of_nat (length (tlv_value t)) :: u16) = 4 + length (tlv_value t)"
    by (rule unat_4_plus)
  show ?thesis
    using assms
    by (simp add: sctp_chunk_tlv_deserialize_def sctp_chunk_tlv_serialize_def
        sctp_chunk_tlv_new_def Let_def u rd_range_def)
qed

lemma tlv_serialize_nonempty: "fst (sctp_chunk_tlv_serialize t) \<noteq> []"
  by (simp add: sctp_chunk_tlv_serialize_def Let_def b16_def)

interpretation tlvs: framed_codec "fst \<circ> sctp_chunk_tlv_serialize"
  "sctp_chunk_tlv_deserialize sctp_chunk_tlv_new" "snd \<circ> sctp_chunk_tlv_serialize"
  "\<lambda>_. True" SCTP_MAX_CHUNK_SIZE
  by unfold_locales
    (simp_all add: tlv_deserialize_serialize [simplified] tlv_serialize_nonempty)

lemma tlv_parse_print:
  assumes "length (fst (tlv_print ps)) \<le> SCTP_MAX_CHUNK_SIZE"
  shows "tlv_parse (fst (tlv_print ps)) acc = Some (True, acc @ snd (tlv_print ps))"
  using assms tlvs.parse_loop_concat [of ps acc] by (simp add: tlv_print_def list_all_iff)

text \<open>When reading a parameter is undefined: exactly when its length field is below four.\<close>

lemma tlv_deserialize_None_iff:
  "sctp_chunk_tlv_deserialize this data = None \<longleftrightarrow>
     4 \<le> length data \<and> length data \<le> SCTP_MAX_CHUNK_SIZE \<and> unat (be16 (data ! 2) (data ! 3)) < 4"
  by (auto simp: sctp_chunk_tlv_deserialize_def Let_def rd16_in rd_range_def)

lemma tlv_deserialize_len:
  assumes "sctp_chunk_tlv_deserialize this data = Some (n, t)"
  shows "n \<le> length data"
  using assms
  by (auto simp: sctp_chunk_tlv_deserialize_def Let_def rd16_in rd_range_def split: if_splits)

section \<open>Chunks: bounds and round trip\<close>

lemma chunk_fits:
  assumes "length (fst (sctp_chunk_serialize c)) \<le> 4096"
  shows "4 + length (ck_payload c) < 65536"
  using assms by (simp add: sctp_chunk_serialize_def Let_def)

lemma chunk_deserialize_serialize:
  assumes "length (fst (sctp_chunk_serialize c) @ rest) \<le> 4096"
  shows "sctp_chunk_deserialize sctp_chunk_default (fst (sctp_chunk_serialize c) @ rest) =
     Some (length (fst (sctp_chunk_serialize c)), snd (sctp_chunk_serialize c))"
proof -
  have fits: "4 + length (ck_payload c) < 65536"
    using assms by (intro chunk_fits) simp
  then have u: "unat (4 + word_of_nat (length (ck_payload c)) :: u16) = 4 + length (ck_payload c)"
    by (rule unat_4_plus)
  show ?thesis
    using assms
    by (simp add: sctp_chunk_deserialize_def sctp_chunk_serialize_def
        sctp_chunk_default_def Let_def u rd_range_def)
qed

lemma chunk_serialize_nonempty: "fst (sctp_chunk_serialize c) \<noteq> []"
  by (simp add: sctp_chunk_serialize_def Let_def)

interpretation chunks: framed_codec "fst \<circ> sctp_chunk_serialize"
  "sctp_chunk_deserialize sctp_chunk_default" "snd \<circ> sctp_chunk_serialize"
  "\<lambda>_. True" SCTP_MAX_CHUNK_SIZE
  by unfold_locales
    (simp_all add: chunk_deserialize_serialize [simplified] chunk_serialize_nonempty)

text \<open>When reading a chunk is undefined: exactly when its length field is 1, 2 or 3.\<close>

text \<open>
  C18: parsing a chunk reads outside its buffer (undefined behaviour) exactly when the buffer
  holds 4 to 4096 bytes and the length field is 1, 2 or 3.
\<close>

theorem chunk_deserialize_None_iff:
  "sctp_chunk_deserialize this data = None \<longleftrightarrow>
     4 \<le> length data \<and> length data \<le> SCTP_MAX_CHUNK_SIZE \<and>
     unat (be16 (data ! 2) (data ! 3)) \<in> {1, 2, 3}"
proof -
  let ?l = "unat (be16 (data ! 2) (data ! 3))"
  have "\<not> ?l + pad4 ?l < 4 \<and> ?l < 4 \<longleftrightarrow> ?l \<in> {1, 2, 3}"
    by (auto simp: pad4_def Let_def)
  moreover have "?l < 4 \<Longrightarrow> ?l + pad4 ?l \<le> 4"
    by (auto simp: pad4_def Let_def)
  ultimately show ?thesis
    by (auto simp: sctp_chunk_deserialize_def Let_def rd16_in rd8_def rd_range_def)
qed

text \<open>
  An accepted chunk consumes a multiple of four bytes inside the buffer, its length field agrees
  with its payload, and its serialization reproduces the accepted bytes up to the padding.
\<close>

lemma chunk_deserialize_accepts:
  assumes "sctp_chunk_deserialize sctp_chunk_default data = Some (n, c)" and "n \<noteq> 0"
  shows "n \<le> length data \<and> n mod 4 = 0 \<and> n = unat (ck_len c) + pad4 (unat (ck_len c)) \<and>
         4 + length (ck_payload c) = unat (ck_len c) \<and>
         take (unat (ck_len c)) data = take (unat (ck_len c)) (fst (sctp_chunk_serialize c))"
proof -
  have sz: "4 \<le> length data" "length data \<le> 4096"
    using assms by (auto simp: sctp_chunk_deserialize_def Let_def split: if_splits)
  obtain t f h l r where data: "data = t # f # h # l # r"
    using sz(1) by (rule length_ge4E)
  let ?l = "unat (be16 h l)"
  have rd: "rd16 data 2 = Some (be16 h l)" "rd8 data 1 = Some f"
    by (simp_all add: data rd16_def)
  have l4: "4 \<le> ?l" and n: "n = ?l + pad4 ?l" "n \<le> length data"
    and c: "c = \<lparr>ck_type = t, ck_flags = f, ck_len = be16 h l, ck_payload = take (?l - 4) r\<rparr>"
    using assms sz rd
    by (auto simp: sctp_chunk_deserialize_def sctp_chunk_default_def Let_def data
        rd_range_def split: if_splits)
  have len: "4 + length (ck_payload c) = ?l"
    using l4 n by (simp add: c data)
  have w: "(4 + word_of_nat (length (ck_payload c)) :: u16) = be16 h l"
    using arg_cong [OF len, of "word_of_nat :: nat \<Rightarrow> u16"] by simp
  have b: "b16 (be16 h l) = [h, l]"
    by (rule b16_be16)
  obtain k where k: "?l = 4 + k"
    using l4 by (metis le_Suc_ex)
  moreover have "n mod 4 = 0"
    using n by simp
  ultimately show ?thesis
    using n len w b by (simp add: c data sctp_chunk_serialize_def Let_def take_4_plus)
qed

section \<open>Bodies: round trips\<close>

lemma data_chunk_roundtrip:
  assumes "length (sctp_data_chunk_serialize d) \<le> SCTP_MAX_CHUNK_SIZE"
  shows "sctp_data_chunk_deserialize sctp_data_chunk_new (sctp_data_chunk_serialize d) =
         Some (True, d)"
  using assms
  by (simp add: sctp_data_chunk_deserialize_def sctp_data_chunk_serialize_def
      sctp_data_chunk_new_def Let_def rd_range_def)

lemma init_chunk_roundtrip:
  assumes "length (fst (sctp_init_chunk_serialize i)) \<le> SCTP_MAX_CHUNK_SIZE"
  shows "sctp_init_chunk_deserialize sctp_init_chunk_new (fst (sctp_init_chunk_serialize i)) =
         Some (True, snd (sctp_init_chunk_serialize i))"
proof -
  obtain buf ps where p: "tlv_print (in_parameters i) = (buf, ps)"
    by (cases "tlv_print (in_parameters i)")
  have "tlv_parse buf [] = Some (True, ps)"
    using assms tlv_parse_print [of "in_parameters i" "[]"]
    by (simp add: sctp_init_chunk_serialize_def p)
  then show ?thesis
    using assms
    by (simp add: sctp_init_chunk_deserialize_def sctp_init_chunk_serialize_def
        sctp_init_chunk_new_def Let_def p)
qed

lemma heartbeat_chunk_roundtrip:
  assumes "fst (sctp_heartbeat_chunk_serialize h) \<noteq> []"
    and "length (fst (sctp_heartbeat_chunk_serialize h)) \<le> SCTP_MAX_CHUNK_SIZE"
  shows "sctp_heartbeat_chunk_deserialize \<lparr>hb_parameters = []\<rparr>
           (fst (sctp_heartbeat_chunk_serialize h)) =
         Some (True, snd (sctp_heartbeat_chunk_serialize h))"
  using assms tlv_parse_print [of "hb_parameters h" "[]"]
  by (simp add: sctp_heartbeat_chunk_deserialize_def sctp_heartbeat_chunk_serialize_def Let_def
      split_beta)

lemma abort_chunk_roundtrip:
  assumes "length (fst (sctp_abort_chunk_serialize h)) \<le> SCTP_MAX_CHUNK_SIZE"
  shows "sctp_abort_chunk_deserialize \<lparr>ab_parameters = []\<rparr> (fst (sctp_abort_chunk_serialize h)) =
         Some (True, snd (sctp_abort_chunk_serialize h))"
  using assms tlv_parse_print [of "ab_parameters h" "[]"]
  by (simp add: sctp_abort_chunk_deserialize_def sctp_abort_chunk_serialize_def Let_def split_beta)

lemma error_chunk_roundtrip:
  assumes "length (fst (sctp_error_chunk_serialize h)) \<le> SCTP_MAX_CHUNK_SIZE"
  shows "sctp_error_chunk_deserialize \<lparr>er_parameters = []\<rparr> (fst (sctp_error_chunk_serialize h)) =
         Some (True, snd (sctp_error_chunk_serialize h))"
  using assms tlv_parse_print [of "er_parameters h" "[]"]
  by (simp add: sctp_error_chunk_deserialize_def sctp_error_chunk_serialize_def Let_def split_beta)

lemma shutdown_chunk_roundtrip:
  "sctp_shutdown_chunk_deserialize \<lparr>sd_tsn = 0\<rparr> (sctp_shutdown_chunk_serialize s) = Some (True, s)"
  using rd32_b32 [of "sd_tsn s" "[]"]
  by (simp add: sctp_shutdown_chunk_deserialize_def sctp_shutdown_chunk_serialize_def Let_def)

lemma cookie_echo_roundtrip:
  assumes "length (ce_cookie c) \<le> SCTP_MAX_CHUNK_SIZE"
  shows "sctp_cookie_echo_chunk_deserialize \<lparr>ce_cookie = []\<rparr> (sctp_cookie_echo_chunk_serialize c)
           (word_of_nat (length (ce_cookie c))) = Some (True, c)"
proof -
  have "unat (word_of_nat (length (ce_cookie c)) :: u16) = length (ce_cookie c)"
    using assms by (intro unat_of_nat_small) simp
  then show ?thesis
    using assms
    by (simp add: sctp_cookie_echo_chunk_deserialize_def sctp_cookie_echo_chunk_serialize_def
        Let_def rd_range_def)
qed

section \<open>SACK: reads stay in bounds, and what survives the wire\<close>

lemma sack_read_gaps_defined:
  "pos + 4 * n \<le> length data \<Longrightarrow> \<exists>gs. sack_read_gaps data n pos acc = Some gs"
  by (induction n arbitrary: pos acc) (simp_all add: rd16_in)

lemma sack_read_dups_defined:
  "pos + 4 * n \<le> length data \<Longrightarrow> \<exists>ds. sack_read_dups data n pos acc = Some ds"
  by (induction n arbitrary: pos acc) (simp_all add: rd32_in)

lemma sack_deserialize_defined: "sctp_sack_chunk_deserialize this data \<noteq> None"
proof (cases "length data < 12 \<or> 4096 < length data")
  case True
  then show ?thesis by (simp add: sctp_sack_chunk_deserialize_def Let_def)
next
  case False
  let ?g = "unat (be16 (data ! 8) (data ! 9))" and ?d = "unat (be16 (data ! 10) (data ! 11))"
  show ?thesis
  proof (cases "length data < ?g * 8 + ?d * 4 + 12")
    case True
    with False show ?thesis
      by (simp add: sctp_sack_chunk_deserialize_def Let_def rd16_in rd32_in)
  next
    case fits: False
    from fits obtain gs where "sack_read_gaps data ?g 12 (sk_gaps this) = Some gs"
      using sack_read_gaps_defined [of 12 ?g data] by (auto)
    moreover from fits obtain ds where
      "sack_read_dups data ?g (12 + 4 * ?g) (sk_dups this) = Some ds"
      using sack_read_dups_defined [of "12 + 4 * ?g" ?g data] by (auto)
    ultimately show ?thesis
      using False fits by (simp add: sctp_sack_chunk_deserialize_def Let_def rd16_in rd32_in)
  qed
qed

lemma length_concat_gap_bytes [simp]: "length (concat (map gap_bytes gs)) = 4 * length gs"
  by (induction gs) (simp_all add: gap_bytes_def)

lemma length_concat_b32 [simp]: "length (concat (map b32 ds)) = 4 * length ds"
  by (induction ds) simp_all

text \<open>
  C17: a SACK chunk does not survive its own codec: without gap blocks the duplicate TSNs are
  lost, and with gap blocks the chunk is rejected, because the size check and the loop over
  duplicates use the number of gaps.
\<close>

theorem sack_self_roundtrip:
  assumes "length (sctp_sack_chunk_serialize s) \<le> SCTP_MAX_CHUNK_SIZE"
    and "length (sk_gaps s) < 65536" and "length (sk_dups s) < 65536"
  shows "sctp_sack_chunk_deserialize sctp_sack_chunk_new (sctp_sack_chunk_serialize s) =
     (if sk_gaps s = [] then Some (True, s\<lparr>sk_dups := []\<rparr>)
      else Some (False, s\<lparr>sk_gaps := [], sk_dups := []\<rparr>))"
proof -
  have u: "unat (word_of_nat (length (sk_gaps s)) :: u16) = length (sk_gaps s)"
    "unat (word_of_nat (length (sk_dups s)) :: u16) = length (sk_dups s)"
    using assms by (simp_all add: unat_of_nat_small)
  show ?thesis
    using assms
    by (auto simp: sctp_sack_chunk_deserialize_def sctp_sack_chunk_serialize_def
        sctp_sack_chunk_new_def Let_def u)
qed

section \<open>Properties of the chunks\<close>

text \<open>
  C16: the bodies of DATA, INIT, ABORT, ERROR, SHUTDOWN and COOKIE ECHO chunks of at most 4096
  bytes, and of HEARTBEAT chunks of 1 to 4096 bytes (an empty one is rejected), are read back
  from their serialization, parameters included, with the length fields serialization filled in.
\<close>

theorem chunk_bodies_roundtrip:
  "(length (sctp_data_chunk_serialize d) \<le> SCTP_MAX_CHUNK_SIZE \<longrightarrow>
      sctp_data_chunk_deserialize sctp_data_chunk_new (sctp_data_chunk_serialize d) = Some (True, d)) \<and>
   (length (fst (sctp_init_chunk_serialize i)) \<le> SCTP_MAX_CHUNK_SIZE \<longrightarrow>
      sctp_init_chunk_deserialize sctp_init_chunk_new (fst (sctp_init_chunk_serialize i)) =
        Some (True, snd (sctp_init_chunk_serialize i))) \<and>
   (fst (sctp_heartbeat_chunk_serialize h) \<noteq> [] \<and>
    length (fst (sctp_heartbeat_chunk_serialize h)) \<le> SCTP_MAX_CHUNK_SIZE \<longrightarrow>
      sctp_heartbeat_chunk_deserialize \<lparr>hb_parameters = []\<rparr> (fst (sctp_heartbeat_chunk_serialize h)) =
        Some (True, snd (sctp_heartbeat_chunk_serialize h))) \<and>
   (length (fst (sctp_abort_chunk_serialize b)) \<le> SCTP_MAX_CHUNK_SIZE \<longrightarrow>
      sctp_abort_chunk_deserialize \<lparr>ab_parameters = []\<rparr> (fst (sctp_abort_chunk_serialize b)) =
        Some (True, snd (sctp_abort_chunk_serialize b))) \<and>
   (length (fst (sctp_error_chunk_serialize e)) \<le> SCTP_MAX_CHUNK_SIZE \<longrightarrow>
      sctp_error_chunk_deserialize \<lparr>er_parameters = []\<rparr> (fst (sctp_error_chunk_serialize e)) =
        Some (True, snd (sctp_error_chunk_serialize e))) \<and>
   sctp_shutdown_chunk_deserialize \<lparr>sd_tsn = 0\<rparr> (sctp_shutdown_chunk_serialize s) = Some (True, s) \<and>
   (length (ce_cookie c) \<le> SCTP_MAX_CHUNK_SIZE \<longrightarrow>
      sctp_cookie_echo_chunk_deserialize \<lparr>ce_cookie = []\<rparr> (sctp_cookie_echo_chunk_serialize c)
        (word_of_nat (length (ce_cookie c))) = Some (True, c))"
  using data_chunk_roundtrip init_chunk_roundtrip heartbeat_chunk_roundtrip abort_chunk_roundtrip
    error_chunk_roundtrip shutdown_chunk_roundtrip cookie_echo_roundtrip by blast

theorem chunk_bodies_roundtrip_witness:
  "let d = \<lparr>dc_tsn = 7, dc_stream_id = 1, dc_stream_sequence = 2, dc_ppid = ppid_string,
            dc_payload = [104, 105]\<rparr>;
       t = sctp_chunk_tlv_new\<lparr>tlv_type := 1, tlv_value := [9, 8, 7]\<rparr>;
       i = sctp_init_chunk_new\<lparr>in_init_tag := 5, in_parameters := [t]\<rparr>;
       h = \<lparr>hb_parameters = [t]\<rparr>; b = \<lparr>ab_parameters = [t]\<rparr>; e = \<lparr>er_parameters = [t]\<rparr>;
       c = \<lparr>ce_cookie = [1, 2, 3]\<rparr>
   in sctp_data_chunk_deserialize sctp_data_chunk_new (sctp_data_chunk_serialize d) = Some (True, d) \<and>
      sctp_init_chunk_deserialize sctp_init_chunk_new (fst (sctp_init_chunk_serialize i)) =
        Some (True, snd (sctp_init_chunk_serialize i)) \<and>
      sctp_heartbeat_chunk_deserialize \<lparr>hb_parameters = []\<rparr> (fst (sctp_heartbeat_chunk_serialize h)) =
        Some (True, snd (sctp_heartbeat_chunk_serialize h)) \<and>
      sctp_abort_chunk_deserialize \<lparr>ab_parameters = []\<rparr> (fst (sctp_abort_chunk_serialize b)) =
        Some (True, snd (sctp_abort_chunk_serialize b)) \<and>
      sctp_error_chunk_deserialize \<lparr>er_parameters = []\<rparr> (fst (sctp_error_chunk_serialize e)) =
        Some (True, snd (sctp_error_chunk_serialize e)) \<and>
      sctp_cookie_echo_chunk_deserialize \<lparr>ce_cookie = []\<rparr> (sctp_cookie_echo_chunk_serialize c) 3 = Some (True, c)"
proof -
  let ?d = "\<lparr>dc_tsn = 7, dc_stream_id = 1, dc_stream_sequence = 2, dc_ppid = ppid_string,
            dc_payload = [104, 105]\<rparr>"
  let ?t = "sctp_chunk_tlv_new\<lparr>tlv_type := 1, tlv_value := [9, 8, 7]\<rparr>"
  let ?i = "sctp_init_chunk_new\<lparr>in_init_tag := 5, in_parameters := [?t]\<rparr>"
  have "length (sctp_data_chunk_serialize ?d) \<le> SCTP_MAX_CHUNK_SIZE"
    "length (fst (sctp_init_chunk_serialize ?i)) \<le> SCTP_MAX_CHUNK_SIZE"
    "fst (sctp_heartbeat_chunk_serialize \<lparr>hb_parameters = [?t]\<rparr>) \<noteq> []"
    "length (fst (sctp_heartbeat_chunk_serialize \<lparr>hb_parameters = [?t]\<rparr>)) \<le> SCTP_MAX_CHUNK_SIZE"
    "length (fst (sctp_abort_chunk_serialize \<lparr>ab_parameters = [?t]\<rparr>)) \<le> SCTP_MAX_CHUNK_SIZE"
    "length (fst (sctp_error_chunk_serialize \<lparr>er_parameters = [?t]\<rparr>)) \<le> SCTP_MAX_CHUNK_SIZE"
    by (code_simp, code_simp, code_simp, code_simp, code_simp, code_simp)
  then show ?thesis
    using chunk_bodies_roundtrip [of ?d ?i "\<lparr>hb_parameters = [?t]\<rparr>" "\<lparr>ab_parameters = [?t]\<rparr>"
      "\<lparr>er_parameters = [?t]\<rparr>" "\<lparr>sd_tsn = 0\<rparr>" "\<lparr>ce_cookie = [1, 2, 3]\<rparr>"]
    unfolding Let_def by simp
qed

theorem sack_self_roundtrip_witness:
  "sctp_sack_chunk_deserialize sctp_sack_chunk_new (sctp_sack_chunk_serialize
     (sctp_sack_chunk_new\<lparr>sk_tsn := 5, sk_gaps := [\<lparr>gap_begin = 2, gap_end = 3\<rparr>]\<rparr>)) =
   Some (False, sctp_sack_chunk_new\<lparr>sk_tsn := 5\<rparr>)"
  by (subst sack_self_roundtrip) (simp_all add: sctp_sack_chunk_serialize_def sctp_sack_chunk_new_def gap_bytes_def)

end
