(* ===== verification/Std_Map.thy ===== *)
theory Std_Map
  imports Prelude "HOL-Library.Multiset"
begin

text \<open>
  The two ordered containers of the C++ standard library that the repository keeps its
  state in. A \<open>std::map\<close> is the list of its entries in iteration order, that is, with
  strictly increasing keys; \<open>find\<close>, \<open>insert\<close> (which keeps an existing entry),
  writing through an iterator and \<open>erase\<close> are functions on it, and a \<open>for\<close> loop
  over the map is recursion over the list. A \<open>std::set\<close> is its sorted list of elements.
  The locale \<open>ordered_dict\<close> is what the clients rely on.
\<close>

section \<open>Operations\<close>

type_synonym ('k, 'v) std_map = "('k \<times> 'v) list"
type_synonym 'a std_set = "'a list"

definition map_ok :: "('k::linorder, 'v) std_map \<Rightarrow> bool" where
  "map_ok m \<longleftrightarrow> sorted_wrt (<) (map fst m)"

definition map_find :: "('k, 'v) std_map \<Rightarrow> 'k \<Rightarrow> 'v option" where
  "map_find m k = map_of m k"

fun map_insert :: "'k::linorder \<Rightarrow> 'v \<Rightarrow> ('k, 'v) std_map \<Rightarrow> ('k, 'v) std_map" where
  "map_insert k v [] = [(k, v)]"
| "map_insert k v ((k', v') # m) =
     (if k < k' then (k, v) # (k', v') # m
      else if k = k' then (k', v') # m
      else (k', v') # map_insert k v m)"

definition map_write :: "'k \<Rightarrow> 'v \<Rightarrow> ('k, 'v) std_map \<Rightarrow> ('k, 'v) std_map" where
  "map_write k v m = map (\<lambda>(k', v'). (k', if k' = k then v else v')) m"

definition map_erase :: "'k \<Rightarrow> ('k, 'v) std_map \<Rightarrow> ('k, 'v) std_map" where
  "map_erase k m = filter (\<lambda>(k', _). k' \<noteq> k) m"

definition set_insert :: "'a::linorder \<Rightarrow> 'a std_set \<Rightarrow> 'a std_set" where
  "set_insert x s = insort_insert x s"

lemma map_of_perm:
  assumes "distinct (map fst kvs)" and "mset kvs' = mset kvs"
  shows "map_of kvs' = map_of kvs"
proof -
  have "distinct (map fst kvs')"
    using assms by (metis mset_eq_imp_distinct_iff mset_map)
  moreover have "set kvs' = set kvs"
    using assms(2) by (metis mset_eq_setD)
  ultimately show ?thesis
    using assms(1) by (simp add: map_of_inject_set)
qed

section \<open>The contract\<close>

locale ordered_dict =
  fixes find :: "'m \<Rightarrow> 'k \<Rightarrow> 'v option"
    and ins :: "'k \<Rightarrow> 'v \<Rightarrow> 'm \<Rightarrow> 'm"
    and put :: "'k \<Rightarrow> 'v \<Rightarrow> 'm \<Rightarrow> 'm"
    and erase :: "'k \<Rightarrow> 'm \<Rightarrow> 'm"
    and invar :: "'m \<Rightarrow> bool"
  assumes find_ins: "invar m \<Longrightarrow>
      find (ins k v m) = (if find m k = None then (find m)(k \<mapsto> v) else find m)"
    and find_put: "invar m \<Longrightarrow>
      find (put k v m) = (if find m k = None then find m else (find m)(k \<mapsto> v))"
    and find_erase: "invar m \<Longrightarrow> find (erase k m) = (find m)(k := None)"
    and invar_ins: "invar m \<Longrightarrow> invar (ins k v m)"
    and invar_put: "invar m \<Longrightarrow> invar (put k v m)"
    and invar_erase: "invar m \<Longrightarrow> invar (erase k m)"
begin

lemma find_ins_same: "invar m \<Longrightarrow> find m k = None \<Longrightarrow> find (ins k v m) k = Some v"
  by (simp add: find_ins)

lemma find_ins_other: "invar m \<Longrightarrow> k' \<noteq> k \<Longrightarrow> find (ins k v m) k' = find m k'"
  by (simp add: find_ins)

lemma ins_keeps_first: "invar m \<Longrightarrow> find m k = Some v' \<Longrightarrow> find (ins k v m) = find m"
  by (simp add: find_ins)

lemma invar_fold_ins: "invar m \<Longrightarrow> invar (fold (\<lambda>(k, v). ins k v) kvs m)"
  by (induction kvs arbitrary: m) (auto simp: invar_ins)

text \<open>Inserting entries with new, distinct keys adds exactly those entries.\<close>

lemma find_fold_ins:
  assumes "invar m" and "distinct (map fst kvs)" and "\<forall>k \<in> fst ` set kvs. find m k = None"
  shows "find (fold (\<lambda>(k, v). ins k v) kvs m) = find m ++ map_of kvs"
  using assms
proof (induction kvs arbitrary: m)
  case Nil
  then show ?case by simp
next
  case (Cons kv kvs)
  obtain k v where kv: "kv = (k, v)" by (cases kv)
  let ?m = "ins k v m"
  have new: "find m k = None" and fresh: "k \<notin> fst ` set kvs"
    using Cons.prems by (auto simp: kv)
  have f: "find ?m = (find m)(k \<mapsto> v)"
    using Cons.prems(1) new by (simp add: find_ins)
  have "find (fold (\<lambda>(k, v). ins k v) kvs ?m) = find ?m ++ map_of kvs"
    using Cons.prems fresh by (intro Cons.IH) (auto simp: f kv invar_ins)
  moreover have "map_of kvs k = None"
    using fresh by (simp add: map_of_eq_None_iff)
  ultimately show ?case
    by (auto simp: kv f map_add_def fun_eq_iff split: option.splits)
qed

text \<open>So the order of arrival does not matter.\<close>

lemma find_fold_ins_perm:
  assumes "invar m" and "distinct (map fst kvs)" and "\<forall>k \<in> fst ` set kvs. find m k = None"
    and "mset kvs' = mset kvs"
  shows "find (fold (\<lambda>(k, v). ins k v) kvs' m) = find (fold (\<lambda>(k, v). ins k v) kvs m)"
proof -
  have "set kvs' = set kvs"
    using assms(4) by (metis mset_eq_setD)
  moreover have "distinct (map fst kvs')"
    using assms(2,4) by (metis mset_eq_imp_distinct_iff mset_map)
  ultimately show ?thesis
    using assms(1-3) by (simp add: find_fold_ins map_of_perm [OF assms(2,4)])
qed

end

section \<open>The model of std::map meets it\<close>

lemma map_of_insert:
  "map_ok m \<Longrightarrow>
   map_of (map_insert k v m) = (if map_of m k = None then (map_of m)(k \<mapsto> v) else map_of m)"
proof (induction m)
  case Nil
  then show ?case by (simp add: fun_eq_iff)
next
  case (Cons e m)
  obtain k' v' where e: "e = (k', v')" by (cases e)
  have "k < k' \<Longrightarrow> map_of m k = None"
    using Cons.prems by (fastforce simp: e map_ok_def map_of_eq_None_iff)
  with Cons show ?case
    by (auto simp: e map_ok_def fun_eq_iff)
qed

lemma map_of_write:
  "map_of (map_write k v m) = (if map_of m k = None then map_of m else (map_of m)(k \<mapsto> v))"
  by (induction m) (auto simp: map_write_def fun_eq_iff)

lemma map_of_erase: "map_of (map_erase k m) = (map_of m)(k := None)"
  by (induction m) (auto simp: map_erase_def fun_eq_iff)

lemma map_ok_Cons [simp]:
  "map_ok ((k, v) # m) \<longleftrightarrow> (\<forall>k' \<in> fst ` set m. k < k') \<and> map_ok m"
  by (auto simp: map_ok_def)

lemma fst_set_insert: "fst ` set (map_insert k v m) = insert k (fst ` set m)"
proof (induction m)
  case (Cons e m)
  then show ?case by (cases e) (simp add: insert_commute)
qed simp

lemma map_ok_insert: "map_ok m \<Longrightarrow> map_ok (map_insert k v m)"
proof (induction m)
  case (Cons e m)
  obtain k' v' where e: "e = (k', v')" by (cases e)
  consider "k < k'" | "k = k'" | "k' < k" by force
  then show ?case
  proof cases
    case 1
    with Cons.prems show ?thesis by (auto simp: e)
  next
    case 3
    have "map_ok (map_insert k v m)" "\<forall>x \<in> fst ` set m. k' < x"
      using Cons by (simp_all add: e)
    with 3 show ?thesis by (auto simp: e fst_set_insert)
  qed (use Cons.prems e in simp)
qed (simp add: map_ok_def)

lemma map_fst_write [simp]: "map fst (map_write k v m) = map fst m"
  by (induction m) (auto simp: map_write_def)

lemma map_ok_write [simp]: "map_ok (map_write k v m) \<longleftrightarrow> map_ok m"
  by (simp add: map_ok_def)

lemma map_ok_filter: "map_ok m \<Longrightarrow> map_ok (filter P m)"
  unfolding map_ok_def
  by (induction m) auto

lemma map_ok_erase: "map_ok m \<Longrightarrow> map_ok (map_erase k m)"
  by (simp add: map_erase_def map_ok_filter)

interpretation sm: ordered_dict map_find map_insert map_write map_erase map_ok
  by unfold_locales
    (simp_all add: map_find_def [abs_def] map_of_insert map_of_write map_of_erase map_ok_insert
      map_ok_erase)

lemma map_ok_Nil [simp]: "map_ok []"
  by (simp add: map_ok_def)

lemma map_find_Nil [simp]: "map_find [] k = None"
  by (simp add: map_find_def)

lemma map_find_Cons [simp]: "map_find ((k', v) # m) k = (if k = k' then Some v else map_find m k)"
  by (simp add: map_find_def)

lemma map_ok_distinct: "map_ok m \<Longrightarrow> distinct (map fst m)"
  by (auto simp: map_ok_def strict_sorted_iff)

lemma map_find_None_iff: "map_find m k = None \<longleftrightarrow> k \<notin> fst ` set m"
  by (simp add: map_find_def map_of_eq_None_iff)

lemma map_find_in_set: "map_find m k = Some v \<Longrightarrow> (k, v) \<in> set m"
  by (simp add: map_find_def map_of_SomeD)

lemma map_find_iff: "map_ok m \<Longrightarrow> map_find m k = Some v \<longleftrightarrow> (k, v) \<in> set m"
  by (simp add: map_find_def map_ok_distinct)

section \<open>std::set\<close>

lemma set_set_insert [simp]: "set (set_insert x s) = insert x (set s)"
  by (simp add: set_insert_def set_insort_insert)

lemma sorted_set_insert: "sorted s \<Longrightarrow> sorted (set_insert x s)"
  by (simp add: set_insert_def sorted_insort_insert)

lemma distinct_set_insert: "distinct s \<Longrightarrow> distinct (set_insert x s)"
  by (simp add: set_insert_def distinct_insort_insert)

section \<open>A predicate on all entries\<close>

definition map_all :: "('k \<Rightarrow> 'v \<Rightarrow> bool) \<Rightarrow> ('k, 'v) std_map \<Rightarrow> bool" where
  "map_all P m \<longleftrightarrow> list_all (\<lambda>(k, v). P k v) m"

lemma map_all_Nil [simp]: "map_all P []"
  by (simp add: map_all_def)

lemma map_all_Cons [simp]: "map_all P ((k, v) # m) \<longleftrightarrow> P k v \<and> map_all P m"
  by (simp add: map_all_def)

lemma map_all_find: "map_all P m \<Longrightarrow> map_find m k = Some v \<Longrightarrow> P k v"
  by (induction m) (auto simp: map_find_def split: if_splits)

lemma map_all_insert: "map_all P m \<Longrightarrow> P k v \<Longrightarrow> map_all P (map_insert k v m)"
  by (induction k v m rule: map_insert.induct) auto

lemma map_all_write: "map_all P m \<Longrightarrow> P k v \<Longrightarrow> map_all P (map_write k v m)"
  by (induction m) (auto simp: map_write_def)

lemma map_all_filter: "map_all P m \<Longrightarrow> map_all P (filter Q m)"
  by (induction m) auto

lemma map_all_erase: "map_all P m \<Longrightarrow> map_all P (map_erase k m)"
  by (simp add: map_erase_def map_all_filter)

lemma map_all_imp: "map_all P m \<Longrightarrow> (\<And>k v. P k v \<Longrightarrow> Q k v) \<Longrightarrow> map_all Q m"
  by (induction m) auto

end
