(* ===== verification/Sctp_Stream.thy ===== *)
theory Sctp_Stream
  imports Sctp_Chunk Std_Map
begin

text \<open>
  Data channels and their streams: \<open>rtpx/sctp/sctp_stream.h\<close> and \<open>sctp_stream.cpp\<close>. The
  DCEP open message, the reassembly buffer of one user message (\<open>sctp_message\<close>), and the
  stream that fragments, retransmits, acknowledges and reassembles (\<open>sctp_stream\<close>).

  \<open>sys::util::cur_time_ms()\<close> is an argument: \<open>now\<close> where an operation reads the clock once,
  \<open>clk i\<close> for its reading number \<open>i\<close> where it reads it several times. The callback
  \<open>on_send_data_\<close> is the list of the calls made, in order; \<open>st_on_send_data\<close> says whether it
  is set. A reference parameter \<open>uint32_t& tsn\<close> is passed in and returned.
\<close>

unbundle bit_operations_syntax

section \<open>Serial number comparison\<close>

definition TSN_GT :: "u32 \<Rightarrow> u32 \<Rightarrow> bool" where "TSN_GT A B \<longleftrightarrow> sint (A - B) > 0"
definition TSN_LT :: "u32 \<Rightarrow> u32 \<Rightarrow> bool" where "TSN_LT A B \<longleftrightarrow> sint (A - B) < 0"
definition TSN_GE :: "u32 \<Rightarrow> u32 \<Rightarrow> bool" where "TSN_GE A B \<longleftrightarrow> sint (A - B) \<ge> 0"
definition TSN_LE :: "u32 \<Rightarrow> u32 \<Rightarrow> bool" where "TSN_LE A B \<longleftrightarrow> sint (A - B) \<le> 0"

abbreviation (input) MAX_CHUNKS_PER_MESSAGE :: nat where
  "MAX_CHUNKS_PER_MESSAGE \<equiv> 256"

section \<open>DCEP open\<close>

type_synonym sctp_dcep_message_type = byte

abbreviation (input) dcep_data_channel_ack :: sctp_dcep_message_type where
  "dcep_data_channel_ack \<equiv> 0x02"
abbreviation (input) dcep_data_channel_open :: sctp_dcep_message_type where
  "dcep_data_channel_open \<equiv> 0x03"

type_synonym sctp_dcep_channel_type = byte

abbreviation (input) dcep_reliable_unordered :: sctp_dcep_channel_type where
  "dcep_reliable_unordered \<equiv> 0x01"

record sctp_dcep_open =
  do_message_type :: sctp_dcep_message_type
  do_channel_type :: sctp_dcep_channel_type
  do_priority :: u16
  do_reliability_parameter :: u32
  do_label :: bytes
  do_protocol :: bytes

definition sctp_dcep_open_new :: sctp_dcep_open where
  "sctp_dcep_open_new = \<lparr>do_message_type = dcep_data_channel_open,
     do_channel_type = dcep_reliable_unordered, do_priority = 256,
     do_reliability_parameter = 0, do_label = [], do_protocol = []\<rparr>"

definition sctp_dcep_open_deserialize ::
  "sctp_dcep_open \<Rightarrow> bytes \<Rightarrow> (bool \<times> sctp_dcep_open) cxx" where
  "sctp_dcep_open_deserialize this data =
     (let this = this\<lparr>do_label := [], do_protocol := []\<rparr>; size = length data in
      if size < 12 then Some (False, this)
      else do {
        mt \<leftarrow> rd8 data 0;
        ct \<leftarrow> rd8 data 1;
        pr \<leftarrow> rd16 data 2;
        rp \<leftarrow> rd32 data 4;
        label_length \<leftarrow> rd16 data 8;
        protocol_length \<leftarrow> rd16 data 10;
        let this = this\<lparr>do_message_type := mt, do_channel_type := ct, do_priority := pr,
                        do_reliability_parameter := rp\<rparr>;
        if size < unat label_length + unat protocol_length + 12 then Some (False, this)
        else do {
          lb \<leftarrow> rd_range data 12 (12 + unat label_length);
          pt \<leftarrow> rd_range data (12 + unat label_length)
                  (12 + unat label_length + unat protocol_length);
          Some (True, this\<lparr>do_label := lb, do_protocol := pt\<rparr>) } })"

definition sctp_dcep_open_serialize :: "sctp_dcep_open \<Rightarrow> bytes" where
  "sctp_dcep_open_serialize this =
     (let label_length = word_of_nat (length (do_label this)) :: u16;
          protocol_length = word_of_nat (length (do_protocol this)) :: u16
      in [do_message_type this, do_channel_type this] @ b16 (do_priority this) @
         b32 (do_reliability_parameter this) @ b16 label_length @ b16 protocol_length @
         do_label this @ do_protocol this)"

section \<open>Messages\<close>

record block_t =
  bk_is_begin :: bool
  bk_is_end :: bool
  bk_chunk :: sctp_data_chunk
  bk_sent_times :: int

record sctp_message =
  ms_stream_id :: u16
  ms_ssn :: u16
  ms_updated_at :: int
  ms_begin_tsn :: u32
  ms_cumulative_tsn :: u32
  ms_blocks :: "(u32, block_t) std_map"
  ms_dups :: "u32 std_set"
  ms_gaps :: "gap_item_t list"

definition sctp_message_new :: "u32 \<Rightarrow> sctp_message" where
  "sctp_message_new init_tsn =
     (let cumulative_tsn = init_tsn - 1
      in \<lparr>ms_stream_id = 0, ms_ssn = 0, ms_updated_at = 0, ms_begin_tsn = cumulative_tsn,
          ms_cumulative_tsn = cumulative_tsn, ms_blocks = [], ms_dups = [], ms_gaps = []\<rparr>)"

definition sctp_message_insert ::
  "int \<Rightarrow> sctp_chunk_flags \<Rightarrow> sctp_data_chunk \<Rightarrow> sctp_message \<Rightarrow> bool \<times> sctp_message" where
  "sctp_message_insert now flags chunk this =
     (if dc_stream_id chunk \<noteq> ms_stream_id this then (False, this)
      else if dc_stream_sequence chunk \<noteq> ms_ssn this then (False, this)
      else
        let this = this\<lparr>ms_updated_at := now\<rparr>;
            block = \<lparr>bk_is_begin = flags AND cf_begin \<noteq> 0, bk_is_end = flags AND cf_end \<noteq> 0,
                     bk_chunk = chunk, bk_sent_times = 0\<rparr>;
            this = (if bk_is_begin block then this\<lparr>ms_begin_tsn := dc_tsn chunk\<rparr> else this);
            dup = map_find (ms_blocks this) (dc_tsn chunk) \<noteq> None;
            this = this\<lparr>ms_blocks := map_insert (dc_tsn chunk) block (ms_blocks this)\<rparr>;
            this = (if dup then this\<lparr>ms_dups := set_insert (dc_tsn chunk) (ms_dups this)\<rparr>
                    else this)
        in (True, this))"

text \<open>The scan of \<open>is_completed\<close>: \<open>n\<close> rounds left, at \<open>tsn\<close>, with \<open>has_begin\<close> so far.\<close>

fun completed_scan :: "nat \<Rightarrow> u32 \<Rightarrow> bool \<Rightarrow> (u32, block_t) std_map \<Rightarrow> bool" where
  "completed_scan 0 tsn has_begin blocks = False"
| "completed_scan (Suc n) tsn has_begin blocks =
     (case map_find blocks tsn of
        None \<Rightarrow> False
      | Some b \<Rightarrow>
          let has_begin = (has_begin \<or> bk_is_begin b)
          in if bk_is_end b then has_begin else completed_scan n (tsn + 1) has_begin blocks)"

definition sctp_message_is_completed :: "sctp_message \<Rightarrow> bool" where
  "sctp_message_is_completed this =
     completed_scan MAX_CHUNKS_PER_MESSAGE (ms_begin_tsn this) False (ms_blocks this)"

definition sctp_message_is_timeout :: "int \<Rightarrow> u32 \<Rightarrow> sctp_message \<Rightarrow> bool" where
  "sctp_message_is_timeout now ms this \<longleftrightarrow> now - ms_updated_at this \<ge> uint ms"

text \<open>
  The scan of \<open>calc_gaps\<close>: closed runs \<open>tmp\<close>, the run being built \<open>item\<close>, and the flags;
  it stops after 256 rounds or behind the end block.
\<close>

fun gaps_scan ::
  "nat \<Rightarrow> u32 \<Rightarrow> (u32, block_t) std_map \<Rightarrow> gap_item_t list \<Rightarrow> gap_item_t \<Rightarrow> bool \<Rightarrow> bool \<Rightarrow>
   gap_item_t list \<times> gap_item_t \<times> bool \<times> bool" where
  "gaps_scan 0 tsn blocks tmp item has_begin has_first = (tmp, item, has_begin, has_first)"
| "gaps_scan (Suc n) tsn blocks tmp item has_begin has_first =
     (case map_find blocks tsn of
        None \<Rightarrow>
          if has_first then gaps_scan n (tsn + 1) blocks (tmp @ [item]) item has_begin False
          else gaps_scan n (tsn + 1) blocks tmp item has_begin has_first
      | Some b \<Rightarrow>
          let item = (if \<not> has_first then item\<lparr>gap_begin := tsn\<rparr> else item);
              has_begin = (has_begin \<or> bk_is_begin b);
              item = item\<lparr>gap_end := tsn\<rparr>
          in if bk_is_end b then (tmp, item, has_begin, True)
             else gaps_scan n (tsn + 1) blocks tmp item has_begin True)"

definition sctp_message_calc_gaps :: "sctp_message \<Rightarrow> sctp_message" where
  "sctp_message_calc_gaps this =
     (let this = this\<lparr>ms_gaps := []\<rparr> in
      if ms_blocks this = [] then this
      else
        let (tmp, item, has_begin, has_first) =
              gaps_scan MAX_CHUNKS_PER_MESSAGE (ms_begin_tsn this) (ms_blocks this) []
                \<lparr>gap_begin = 0, gap_end = 0\<rparr> False False;
            tmp = (if has_first then tmp @ [item] else tmp);
            (this, tmp) =
              (case tmp of
                 first # rest \<Rightarrow>
                   if has_begin then (this\<lparr>ms_cumulative_tsn := gap_end first\<rparr>, rest) else (this, tmp)
               | [] \<Rightarrow> (this, tmp));
            tmp = map (\<lambda>g. \<lparr>gap_begin = gap_begin g - ms_cumulative_tsn this,
                            gap_end = gap_end g - ms_cumulative_tsn this\<rparr>) tmp
        in this\<lparr>ms_gaps := tmp\<rparr>)"

fun serialize_scan ::
  "nat \<Rightarrow> u32 \<Rightarrow> bool \<Rightarrow> bytes \<Rightarrow> (u32, block_t) std_map \<Rightarrow> bool \<times> bytes" where
  "serialize_scan 0 tsn has_begin buf blocks = (False, buf)"
| "serialize_scan (Suc n) tsn has_begin buf blocks =
     (case map_find blocks tsn of
        None \<Rightarrow> (False, buf)
      | Some b \<Rightarrow>
          let has_begin = (has_begin \<or> bk_is_begin b);
              buf = (if has_begin then buf @ dc_payload (bk_chunk b) else buf)
          in if bk_is_end b then (has_begin, buf)
             else serialize_scan n (tsn + 1) has_begin buf blocks)"

definition sctp_message_serialize :: "sctp_message \<Rightarrow> bool \<times> bytes" where
  "sctp_message_serialize this =
     serialize_scan MAX_CHUNKS_PER_MESSAGE (ms_begin_tsn this) False [] (ms_blocks this)"

section \<open>Streams\<close>

type_synonym sctp_send = "sctp_chunk_type \<times> sctp_chunk_flags \<times> bytes"

record sctp_stream =
  st_updated_at :: int
  st_stream_id :: u16
  st_next_recv_ssn :: u16
  st_next_send_ssn :: u16
  st_msg_timeout :: u32
  st_init_tsn :: u32
  st_messages :: "(u16, sctp_message) std_map"
  st_on_send_data :: bool
  st_sent_messages :: "(u16, sctp_message) std_map"

definition sctp_stream_new :: "u16 \<Rightarrow> u32 \<Rightarrow> bool \<Rightarrow> sctp_stream" where
  "sctp_stream_new stream_id init_tsn on_send_data =
     \<lparr>st_updated_at = 0, st_stream_id = stream_id, st_next_recv_ssn = 0, st_next_send_ssn = 0,
      st_msg_timeout = 3000, st_init_tsn = init_tsn, st_messages = [],
      st_on_send_data = on_send_data, st_sent_messages = []\<rparr>"

definition sctp_stream_is_timeout :: "int \<Rightarrow> sctp_stream \<Rightarrow> bool" where
  "sctp_stream_is_timeout now this \<longleftrightarrow> now - st_updated_at this \<ge> 300000"

definition sctp_stream_set_msg_timeout :: "u32 \<Rightarrow> sctp_stream \<Rightarrow> sctp_stream" where
  "sctp_stream_set_msg_timeout ms this = this\<lparr>st_msg_timeout := ms\<rparr>"

definition sctp_stream_on_send_data ::
  "sctp_stream \<Rightarrow> sctp_chunk_type \<Rightarrow> sctp_chunk_flags \<Rightarrow> bytes \<Rightarrow> sctp_send list" where
  "sctp_stream_on_send_data this ty fl pl = (if \<not> st_on_send_data this then [] else [(ty, fl, pl)])"

text \<open>\<open>split_data\<close> with its only chunk size, the default 1200.\<close>

function split_data :: "bytes \<Rightarrow> bytes list" where
  "split_data data = (if data = [] then [] else take 1200 data # split_data (drop 1200 data))"
  by pat_completeness auto
termination
  by (relation "measure length") auto

declare split_data.simps [simp del]

text \<open>
  The message map entry a chunk goes to, created when missing: the common part of
  \<open>insert\<close> and \<open>save_sent_message\<close>.
\<close>

definition message_map_insert ::
  "int \<Rightarrow> u16 \<Rightarrow> u32 \<Rightarrow> sctp_chunk_flags \<Rightarrow> sctp_data_chunk \<Rightarrow> (u16, sctp_message) std_map \<Rightarrow>
   bool \<times> (u16, sctp_message) std_map" where
  "message_map_insert now stream_id init_tsn flags chunk messages =
     (let ssn = dc_stream_sequence chunk;
          (msg, messages) =
            (case map_find messages ssn of
               None \<Rightarrow>
                 let msg = (sctp_message_new init_tsn)\<lparr>ms_stream_id := stream_id, ms_ssn := ssn\<rparr>
                 in (msg, map_insert ssn msg messages)
             | Some msg \<Rightarrow> (msg, messages));
          (r, msg) = sctp_message_insert now flags chunk msg
      in (r, map_write ssn msg messages))"

definition sctp_stream_insert ::
  "int \<Rightarrow> sctp_chunk_flags \<Rightarrow> sctp_data_chunk \<Rightarrow> sctp_stream \<Rightarrow> bool \<times> sctp_stream" where
  "sctp_stream_insert now flags chunk this =
     (let (r, ms) = message_map_insert now (st_stream_id this) (st_init_tsn this) flags chunk
                      (st_messages this)
      in (r, this\<lparr>st_messages := ms\<rparr>))"

definition sctp_stream_save_sent_message ::
  "int \<Rightarrow> sctp_chunk_flags \<Rightarrow> sctp_data_chunk \<Rightarrow> sctp_stream \<Rightarrow> bool \<times> sctp_stream" where
  "sctp_stream_save_sent_message now flags chunk this =
     (let (r, ms) = message_map_insert now (st_stream_id this) (st_init_tsn this) flags chunk
                      (st_sent_messages this)
      in (r, this\<lparr>st_sent_messages := ms\<rparr>))"

text \<open>The loop of \<open>send\<close> over the fragments; \<open>first\<close> is \<open>itr == fragments.begin()\<close>.\<close>

fun send_fragments ::
  "(nat \<Rightarrow> int) \<Rightarrow> sctp_payload_protocol_id \<Rightarrow> u16 \<Rightarrow> bool \<Rightarrow> bytes list \<Rightarrow> u32 \<Rightarrow> sctp_stream \<Rightarrow>
   u32 \<times> sctp_send list \<times> sctp_stream" where
  "send_fragments clk ppid ssn first [] tsn this = (tsn, [], this)"
| "send_fragments clk ppid ssn first (frag # frags) tsn this =
     (let chunk = \<lparr>dc_tsn = tsn, dc_stream_id = st_stream_id this, dc_stream_sequence = ssn,
                   dc_ppid = ppid, dc_payload = frag\<rparr>;
          flags = cf_none;
          flags = (if first then sctp_chunk_flags_or flags cf_begin else flags);
          flags = (if frags = [] then sctp_chunk_flags_or flags cf_end else flags);
          out = sctp_stream_on_send_data this ct_data flags (sctp_data_chunk_serialize chunk);
          (_, this) = sctp_stream_save_sent_message (clk 0) flags chunk this;
          (tsn, outs, this) = send_fragments (\<lambda>i. clk (Suc i)) ppid ssn False frags (tsn + 1) this
      in (tsn, out @ outs, this))"

definition sctp_stream_send ::
  "(nat \<Rightarrow> int) \<Rightarrow> u32 \<Rightarrow> bytes \<Rightarrow> sctp_payload_protocol_id \<Rightarrow> sctp_stream \<Rightarrow>
   bool \<times> u32 \<times> sctp_send list \<times> sctp_stream" where
  "sctp_stream_send clk tsn data ppid this =
     (if length (st_sent_messages this) > 10000 then (False, tsn, [], this)
      else if length data < 1200 then
        let chunk = \<lparr>dc_tsn = tsn, dc_stream_id = st_stream_id this,
                     dc_stream_sequence = st_next_send_ssn this, dc_ppid = ppid,
                     dc_payload = data\<rparr>;
            this = this\<lparr>st_next_send_ssn := st_next_send_ssn this + 1\<rparr>;
            flags = sctp_chunk_flags_or cf_begin cf_end;
            out = sctp_stream_on_send_data this ct_data flags (sctp_data_chunk_serialize chunk);
            (_, this) = sctp_stream_save_sent_message (clk 0) flags chunk this
        in (True, tsn + 1, out, this)
      else
        let fragments = split_data data;
            ssn = st_next_send_ssn this;
            this = this\<lparr>st_next_send_ssn := st_next_send_ssn this + 1\<rparr>;
            (tsn, outs, this) = send_fragments clk ppid ssn True fragments tsn this
        in (True, tsn, outs, this))"

definition sctp_stream_all_messages :: "sctp_stream \<Rightarrow> sctp_message list" where
  "sctp_stream_all_messages this = map snd (st_messages this)"

text \<open>
  \<open>next_message\<close> returns true exactly when it sets \<open>got\<close> and assigns \<open>msg\<close>: \<open>Some msg\<close>.
\<close>

definition sctp_stream_next_message :: "sctp_stream \<Rightarrow> sctp_message option \<times> sctp_stream" where
  "sctp_stream_next_message this =
     (case map_find (st_messages this) (st_next_recv_ssn this) of
        None \<Rightarrow> (None, this)
      | Some msg \<Rightarrow>
          if \<not> sctp_message_is_completed msg then (None, this)
          else (Some msg, this\<lparr>st_messages := map_erase (st_next_recv_ssn this) (st_messages this),
                               st_next_recv_ssn := st_next_recv_ssn this + 1\<rparr>))"

definition sctp_stream_first_message :: "sctp_stream \<Rightarrow> sctp_message option" where
  "sctp_stream_first_message this = map_find (st_messages this) (st_next_recv_ssn this)"

text \<open>The two loops of \<open>resend_messages\<close>: blocks of a message, messages of the stream.\<close>

fun resend_blocks ::
  "sctp_stream \<Rightarrow> (u32, block_t) std_map \<Rightarrow> sctp_send list \<times> (u32, block_t) std_map" where
  "resend_blocks this [] = ([], [])"
| "resend_blocks this ((tsn, b) # blocks) =
     (let flags = cf_none;
          flags = (if bk_is_begin b then sctp_chunk_flags_or flags cf_begin else flags);
          flags = (if bk_is_end b then sctp_chunk_flags_or flags cf_end else flags);
          out = sctp_stream_on_send_data this ct_data flags (sctp_data_chunk_serialize (bk_chunk b));
          b = b\<lparr>bk_sent_times := bk_sent_times b + 1\<rparr>;
          (outs, rest) = resend_blocks this blocks
      in (out @ outs, if bk_sent_times b \<ge> 3 then rest else (tsn, b) # rest))"

fun resend_loop ::
  "sctp_stream \<Rightarrow> (u16, sctp_message) std_map \<Rightarrow> sctp_send list \<times> (u16, sctp_message) std_map" where
  "resend_loop this [] = ([], [])"
| "resend_loop this ((ssn, msg) # msgs) =
     (let (out, blocks) = resend_blocks this (ms_blocks msg);
          msg = msg\<lparr>ms_blocks := blocks\<rparr>;
          (outs, rest) = resend_loop this msgs
      in (out @ outs, if blocks = [] then rest else (ssn, msg) # rest))"

definition sctp_stream_resend_messages :: "sctp_stream \<Rightarrow> sctp_send list \<times> sctp_stream" where
  "sctp_stream_resend_messages this =
     (let (outs, msgs) = resend_loop this (st_sent_messages this)
      in (outs, this\<lparr>st_sent_messages := msgs\<rparr>))"

text \<open>The set \<open>tsns\<close> of \<open>process_sack\<close>; only membership is asked of it.\<close>

definition sack_tsns :: "sctp_sack_chunk \<Rightarrow> u32 list" where
  "sack_tsns sack =
     map (\<lambda>i. sk_tsn sack - word_of_nat MAX_CHUNKS_PER_MESSAGE + word_of_nat i)
       [0..<MAX_CHUNKS_PER_MESSAGE] @
     [sk_tsn sack] @
     concat (map (\<lambda>g. [gap_begin g + sk_tsn sack, gap_end g + sk_tsn sack]) (sk_gaps sack))"

fun sack_loop :: "u32 list \<Rightarrow> (u16, sctp_message) std_map \<Rightarrow> (u16, sctp_message) std_map" where
  "sack_loop tsns [] = []"
| "sack_loop tsns ((ssn, msg) # msgs) =
     (let blocks = filter (\<lambda>(tsn, _). tsn \<notin> set tsns) (ms_blocks msg)
      in if blocks = [] then sack_loop tsns msgs
         else (ssn, msg\<lparr>ms_blocks := blocks\<rparr>) # sack_loop tsns msgs)"

definition sctp_stream_process_sack :: "sctp_sack_chunk \<Rightarrow> sctp_stream \<Rightarrow> sctp_stream" where
  "sctp_stream_process_sack sack this =
     this\<lparr>st_sent_messages := sack_loop (sack_tsns sack) (st_sent_messages this)\<rparr>"

fun clear_timeout_loop ::
  "(nat \<Rightarrow> int) \<Rightarrow> u32 \<Rightarrow> (u16, sctp_message) std_map \<Rightarrow> (u16, sctp_message) std_map" where
  "clear_timeout_loop clk ms [] = []"
| "clear_timeout_loop clk ms ((ssn, msg) # msgs) =
     (if sctp_message_is_timeout (clk 0) ms msg then clear_timeout_loop (\<lambda>i. clk (Suc i)) ms msgs
      else (ssn, msg) # clear_timeout_loop (\<lambda>i. clk (Suc i)) ms msgs)"

definition sctp_stream_clear_timeout_recv_messages ::
  "(nat \<Rightarrow> int) \<Rightarrow> sctp_stream \<Rightarrow> sctp_stream" where
  "sctp_stream_clear_timeout_recv_messages clk this =
     this\<lparr>st_messages := clear_timeout_loop clk (st_msg_timeout this) (st_messages this)\<rparr>"

definition sctp_stream_close :: "u32 \<Rightarrow> sctp_stream \<Rightarrow> u32 \<times> sctp_send list \<times> sctp_stream" where
  "sctp_stream_close tsn this =
     (let chunk = sctp_data_chunk_new\<lparr>dc_ppid := ppid_empty_string,
                    dc_stream_id := st_stream_id this,
                    dc_stream_sequence := st_next_send_ssn this, dc_tsn := tsn\<rparr>;
          this = this\<lparr>st_next_send_ssn := st_next_send_ssn this + 1\<rparr>;
          out = sctp_stream_on_send_data this ct_data (sctp_chunk_flags_or cf_begin cf_end)
                  (sctp_data_chunk_serialize chunk)
      in (tsn + 1, out, this))"

section \<open>DCEP open: safety and round trip\<close>

lemma dcep_open_defined: "sctp_dcep_open_deserialize this data \<noteq> None"
  by (auto simp: sctp_dcep_open_deserialize_def Let_def rd8_def rd16_in rd32_in rd_range_def)

theorem dcep_open_roundtrip:
  assumes "length (do_label o') < 65536" and "length (do_protocol o') < 65536"
  shows "sctp_dcep_open_deserialize this (sctp_dcep_open_serialize o') = Some (True, o')"
proof -
  have u: "unat (word_of_nat (length (do_label o')) :: u16) = length (do_label o')"
    "unat (word_of_nat (length (do_protocol o')) :: u16) = length (do_protocol o')"
    using assms by (simp_all add: unat_of_nat_small)
  let ?h = "[do_message_type o', do_channel_type o'] @ b16 (do_priority o') @
         b32 (do_reliability_parameter o') @ b16 (word_of_nat (length (do_label o'))) @
         b16 (word_of_nat (length (do_protocol o')))"
  have s: "sctp_dcep_open_serialize o' = ?h @ do_label o' @ do_protocol o' @ []"
    by (simp add: sctp_dcep_open_serialize_def Let_def)
  have rr: "rd_range (?h @ do_label o' @ do_protocol o' @ []) 12 (12 + length (do_label o')) =
       Some (do_label o')"
    "rd_range (?h @ do_label o' @ do_protocol o' @ []) (12 + length (do_label o'))
      (12 + length (do_label o') + length (do_protocol o')) = Some (do_protocol o')"
    by (rule rd_range_mid rd_range_mid2; simp)+
  then show ?thesis
    using u unfolding s sctp_dcep_open_deserialize_def Let_def
    by (cases this, cases o') simp
qed
section \<open>Serial number arithmetic\<close>

lemma sint_pos_iff: "0 < sint (d :: u32) \<longleftrightarrow> 0 < uint d \<and> uint d < 2 ^ 31"
proof -
  have u: "uint d = sint d mod 4294967296"
    by (simp add: uint_sint [of d] take_bit_eq_mod)
  have r: "- 2147483648 \<le> sint d" "sint d < 2147483648"
    using sint_greater_eq [of d] sint_less [of d] by simp_all
  show ?thesis
  proof (cases "0 \<le> sint d")
    case True
    with u r show ?thesis by simp
  next
    case False
    then have "sint d mod 4294967296 = sint d + 4294967296"
      using r by (intro int_mod_pos_eq [where q = "- 1"]) auto
    with u r False show ?thesis by simp
  qed
qed

lemma TSN_order:
  "TSN_GE a b \<longleftrightarrow> TSN_GT a b \<or> a = b" "TSN_LE a b \<longleftrightarrow> TSN_LT a b \<or> a = b"
  "TSN_LT a b \<longleftrightarrow> \<not> TSN_GE a b" "TSN_GT a b \<longleftrightarrow> \<not> TSN_LE a b"
proof -
  have "sint (a - b) = 0 \<longleftrightarrow> a = b"
    by (metis eq_iff_diff_eq_0 signed_0 signed_word_eqI)
  then show "TSN_GE a b \<longleftrightarrow> TSN_GT a b \<or> a = b" "TSN_LE a b \<longleftrightarrow> TSN_LT a b \<or> a = b"
    "TSN_LT a b \<longleftrightarrow> \<not> TSN_GE a b" "TSN_GT a b \<longleftrightarrow> \<not> TSN_LE a b"
    by (auto simp: TSN_GT_def TSN_LT_def TSN_GE_def TSN_LE_def)
qed

section \<open>Scans\<close>

text \<open>\<open>serialize\<close> succeeds exactly on completed messages.\<close>

lemma serialize_scan_completed:
  "fst (serialize_scan n tsn hb buf blocks) = completed_scan n tsn hb blocks"
  by (induction n tsn hb blocks arbitrary: buf rule: completed_scan.induct)
    (simp_all add: Let_def split: option.splits)

lemma serialize_iff_completed: "fst (sctp_message_serialize m) = sctp_message_is_completed m"
  by (simp add: sctp_message_serialize_def sctp_message_is_completed_def serialize_scan_completed)

text \<open>\<open>has_frags blocks tsn first frags\<close>: the fragments lie at consecutive TSNs from \<open>tsn\<close>.\<close>

fun has_frags :: "(u32, block_t) std_map \<Rightarrow> u32 \<Rightarrow> bool \<Rightarrow> bytes list \<Rightarrow> bool" where
  "has_frags blocks tsn first [] = True"
| "has_frags blocks tsn first (f # fs) =
     ((case map_find blocks tsn of
         None \<Rightarrow> False
       | Some b \<Rightarrow> bk_is_begin b = first \<and> bk_is_end b = (fs = []) \<and> dc_payload (bk_chunk b) = f) \<and>
      has_frags blocks (tsn + 1) False fs)"

lemma serialize_scan_has_frags:
  "has_frags blocks tsn first frags \<Longrightarrow> frags \<noteq> [] \<Longrightarrow> length frags \<le> n \<Longrightarrow> hb \<or> first \<Longrightarrow>
   serialize_scan n tsn hb buf blocks = (True, buf @ concat frags)"
proof (induction frags arbitrary: tsn first n hb buf)
  case (Cons f fs)
  then obtain m where n: "n = Suc m" by (cases n) auto
  from Cons.prems obtain b where b: "map_find blocks tsn = Some b" "bk_is_begin b = first"
      "bk_is_end b = (fs = [])" "dc_payload (bk_chunk b) = f"
    by (auto split: option.splits)
  show ?case
  proof (cases "fs = []")
    case True
    with b n Cons.prems show ?thesis by auto
  next
    case False
    have "serialize_scan m (tsn + 1) True (buf @ f) blocks = (True, (buf @ f) @ concat fs)"
      using Cons.prems n False by (intro Cons.IH [where first = False]) auto
    with b n False Cons.prems show ?thesis by auto
  qed
qed simp

lemma completed_scan_has_frags:
  "has_frags blocks tsn first frags \<Longrightarrow> frags \<noteq> [] \<Longrightarrow> length frags \<le> n \<Longrightarrow> hb \<or> first \<Longrightarrow>
   completed_scan n tsn hb blocks"
  using serialize_scan_has_frags [of blocks tsn first frags n hb "[]"] serialize_scan_completed
  by (metis fst_conv)

text \<open>A complete message has no gaps, and its last TSN is the cumulative one.\<close>

lemma gaps_scan_has_frags:
  "has_frags blocks tsn first frags \<Longrightarrow> frags \<noteq> [] \<Longrightarrow> length frags \<le> n \<Longrightarrow>
   gaps_scan n tsn blocks tmp item hb hf =
     (tmp, \<lparr>gap_begin = (if hf then gap_begin item else tsn),
            gap_end = tsn + word_of_nat (length frags - 1)\<rparr>, hb \<or> first, True)"
proof (induction frags arbitrary: tsn first n item hb hf)
  case (Cons f fs)
  then obtain m where n: "n = Suc m" by (cases n) auto
  from Cons.prems obtain b where b: "map_find blocks tsn = Some b" "bk_is_begin b = first"
      "bk_is_end b = (fs = [])" "dc_payload (bk_chunk b) = f"
    by (auto split: option.splits)
  show ?case
  proof (cases "fs = []")
    case True
    with b n Cons.prems show ?thesis by auto
  next
    case False
    let ?item = "(if hf then item else item\<lparr>gap_begin := tsn\<rparr>)\<lparr>gap_end := tsn\<rparr>"
    have "gaps_scan m (tsn + 1) blocks tmp ?item (hb \<or> first) True =
      (tmp, \<lparr>gap_begin = gap_begin ?item, gap_end = tsn + 1 + word_of_nat (length fs - 1)\<rparr>,
       (hb \<or> first) \<or> False, True)"
      using Cons.prems n False by (subst Cons.IH [where first = False]) auto
    moreover have "tsn + 1 + word_of_nat (length fs - 1) = tsn + word_of_nat (length fs)"
      using False by (cases fs) (simp_all add: add.assoc)
    ultimately show ?thesis
      using b n False by (auto simp: Let_def)
  qed
qed simp

lemma calc_gaps_complete:
  assumes "has_frags (ms_blocks m) (ms_begin_tsn m) True frags" and "frags \<noteq> []"
    and "length frags \<le> MAX_CHUNKS_PER_MESSAGE"
  shows "sctp_message_calc_gaps m =
     m\<lparr>ms_cumulative_tsn := ms_begin_tsn m + word_of_nat (length frags - 1), ms_gaps := []\<rparr>"
proof -
  have "ms_blocks m \<noteq> []"
    using assms(1,2) by (cases frags) auto
  then show ?thesis
    using gaps_scan_has_frags [OF assms]
    by (simp add: sctp_message_calc_gaps_def Let_def)
qed

section \<open>Properties of messages\<close>

theorem dcep_open_roundtrip_witness:
  "sctp_dcep_open_deserialize sctp_dcep_open_new
     (sctp_dcep_open_serialize (sctp_dcep_open_new\<lparr>do_label := [99, 104], do_protocol := [120]\<rparr>)) =
   Some (True, sctp_dcep_open_new\<lparr>do_label := [99, 104], do_protocol := [120]\<rparr>)"
  by (rule dcep_open_roundtrip) (simp_all add: sctp_dcep_open_new_def)

text \<open>
  C21: serialize succeeds exactly on the messages is_completed accepts, and on the fragments of
  a message of at most 256 fragments it yields their concatenation.
\<close>

theorem message_serialize_complete:
  "fst (sctp_message_serialize m) = sctp_message_is_completed m \<and>
   (has_frags (ms_blocks m) (ms_begin_tsn m) True frags \<and> frags \<noteq> [] \<and>
    length frags \<le> MAX_CHUNKS_PER_MESSAGE \<longrightarrow> sctp_message_serialize m = (True, concat frags))"
  using serialize_iff_completed [of m]
    serialize_scan_has_frags [of "ms_blocks m" "ms_begin_tsn m" True frags MAX_CHUNKS_PER_MESSAGE False "[]"]
  by (simp add: sctp_message_serialize_def)

theorem message_serialize_complete_witness:
  "let B = \<lambda>e d. \<lparr>bk_is_begin = \<not> e, bk_is_end = e, bk_chunk = sctp_data_chunk_new\<lparr>dc_payload := d\<rparr>,
                  bk_sent_times = 0\<rparr>
   in sctp_message_serialize ((sctp_message_new 0)\<lparr>ms_blocks := [(0, B True [3]), (0xFFFFFFFF, B False [1, 2])]\<rparr>) =
      (True, [1, 2, 3])"
proof -
  let ?B = "\<lambda>e d. \<lparr>bk_is_begin = \<not> e, bk_is_end = e, bk_chunk = sctp_data_chunk_new\<lparr>dc_payload := d\<rparr>,
                  bk_sent_times = 0\<rparr>"
  let ?m = "(sctp_message_new 0)\<lparr>ms_blocks := [(0, ?B True [3]), (0xFFFFFFFF, ?B False [1, 2])]\<rparr>"
  have "has_frags (ms_blocks ?m) (ms_begin_tsn ?m) True [[1, 2], [3]]"
    by (simp add: sctp_message_new_def map_find_def sctp_data_chunk_new_def Let_def)
  then show ?thesis
    using message_serialize_complete [of ?m "[[1, 2], [3]]"] by (simp add: Let_def)
qed

end
