(* ===== verification/Stream_Transfer.thy ===== *)
theory Stream_Transfer
  imports Sctp_Stream
begin

text \<open>
  What a stream promises for a user message: the fragments \<open>send\<close> puts on the wire, their
  reassembly in any order of arrival, the acknowledgement of a complete message, and the
  bound on retransmissions. Everything here is about the operations of \<open>Sctp_Stream\<close>.
\<close>

unbundle bit_operations_syntax

section \<open>Fragmentation\<close>

lemma concat_split_data: "concat (split_data data) = data"
  by (induction data rule: split_data.induct) (subst split_data.simps, simp)

lemma split_data_bounds: "f \<in> set (split_data data) \<Longrightarrow> 0 < length f \<and> length f \<le> 1200"
proof (induction data rule: split_data.induct)
  case (1 data)
  then show ?case
    by (subst (asm) (2) split_data.simps) (auto split: if_splits)
qed

lemma split_data_Nil_iff: "split_data data = [] \<longleftrightarrow> data = []"
  by (subst split_data.simps) simp

lemma length_split_data: "length (split_data data) = (length data + 1199) div 1200"
proof (induction data rule: split_data.induct)
  case (1 data)
  show ?case
  proof (cases "data = []")
    case True
    then show ?thesis by (subst split_data.simps) simp
  next
    case False
    with 1 have "length (split_data data) = Suc ((length data - 1200 + 1199) div 1200)"
      by (subst split_data.simps) simp
    also have "\<dots> = (length data + 1199) div 1200"
    proof (cases "length data < 1200")
      case True
      then have "(length data + 1199) div 1200 = 1"
        using False by (intro div_nat_eqI) (auto simp: Suc_le_eq)
      with True show ?thesis by simp
    next
      case big: False
      then obtain m where "length data = 1200 + m"
        by (metis le_Suc_ex not_less)
      then show ?thesis by simp
    qed
    finally show ?thesis .
  qed
qed

definition frag_flags :: "bool \<Rightarrow> bool \<Rightarrow> sctp_chunk_flags" where
  "frag_flags fst_frag last_frag =
     (if fst_frag then cf_begin else cf_none) OR (if last_frag then cf_end else cf_none)"

text \<open>The chunks that carry the fragments of one message, with their flags.\<close>

fun frag_chunks ::
  "u16 \<Rightarrow> u16 \<Rightarrow> sctp_payload_protocol_id \<Rightarrow> bool \<Rightarrow> bytes list \<Rightarrow> u32 \<Rightarrow>
   (sctp_chunk_flags \<times> sctp_data_chunk) list" where
  "frag_chunks sid ssn ppid first [] tsn = []"
| "frag_chunks sid ssn ppid first (f # fs) tsn =
     (frag_flags first (fs = []),
      \<lparr>dc_tsn = tsn, dc_stream_id = sid, dc_stream_sequence = ssn, dc_ppid = ppid, dc_payload = f\<rparr>) #
     frag_chunks sid ssn ppid False fs (tsn + 1)"

definition chunk_send :: "sctp_chunk_flags \<times> sctp_data_chunk \<Rightarrow> sctp_send" where
  "chunk_send fc = (ct_data, fst fc, sctp_data_chunk_serialize (snd fc))"

text \<open>A sequence of chunks stored one after the other, on the sending and receiving side.\<close>

fun msgs_all ::
  "(nat \<Rightarrow> int) \<Rightarrow> u16 \<Rightarrow> u32 \<Rightarrow> (sctp_chunk_flags \<times> sctp_data_chunk) list \<Rightarrow>
   (u16, sctp_message) std_map \<Rightarrow> (u16, sctp_message) std_map" where
  "msgs_all clk sid init [] ms = ms"
| "msgs_all clk sid init ((fl, c) # fcs) ms =
     msgs_all (\<lambda>i. clk (Suc i)) sid init fcs (snd (message_map_insert (clk 0) sid init fl c ms))"

definition save_all ::
  "(nat \<Rightarrow> int) \<Rightarrow> (sctp_chunk_flags \<times> sctp_data_chunk) list \<Rightarrow> sctp_stream \<Rightarrow> sctp_stream" where
  "save_all clk fcs s = s\<lparr>st_sent_messages :=
     msgs_all clk (st_stream_id s) (st_init_tsn s) fcs (st_sent_messages s)\<rparr>"

lemma save_all_Nil [simp]: "save_all clk [] s = s"
  by (simp add: save_all_def)

lemma save_all_Cons [simp]:
  "save_all clk ((fl, c) # fcs) s =
     save_all (\<lambda>i. clk (Suc i)) fcs (snd (sctp_stream_save_sent_message (clk 0) fl c s))"
  by (simp add: save_all_def sctp_stream_save_sent_message_def split_beta)

lemma save_sent_frame [simp]:
  "st_stream_id (snd (sctp_stream_save_sent_message now fl c s)) = st_stream_id s"
  "st_on_send_data (snd (sctp_stream_save_sent_message now fl c s)) = st_on_send_data s"
  by (simp_all add: sctp_stream_save_sent_message_def split_beta)

lemma send_fragments_eq:
  "st_on_send_data s \<Longrightarrow> send_fragments clk ppid ssn first frags tsn s =
     (tsn + word_of_nat (length frags),
      map chunk_send (frag_chunks (st_stream_id s) ssn ppid first frags tsn),
      save_all clk (frag_chunks (st_stream_id s) ssn ppid first frags tsn) s)"
proof (induction frags arbitrary: clk first tsn s)
  case (Cons f fs)
  show ?case
    using Cons.prems
    by (simp add: Cons.IH Let_def split_beta frag_flags_def chunk_send_def
        sctp_stream_on_send_data_def sctp_chunk_flags_or_def add.assoc)
qed simp

text \<open>The fragments \<open>send\<close> puts on the wire.\<close>

definition send_frags :: "bytes \<Rightarrow> bytes list" where
  "send_frags data = (if length data < 1200 then [data] else split_data data)"

lemma concat_send_frags: "concat (send_frags data) = data"
  by (simp add: send_frags_def concat_split_data)

lemma send_frags_nonempty: "send_frags data \<noteq> []"
  by (auto simp: send_frags_def split_data_Nil_iff)

lemma length_send_frags_eq:
  "length (send_frags data) = (if length data < 1200 then 1 else (length data + 1199) div 1200)"
  by (simp add: send_frags_def length_split_data)

lemma length_send_frags: "length data \<le> 307200 \<Longrightarrow> length (send_frags data) \<le> 256"
  by (auto simp: send_frags_def length_split_data)

definition stream_send_chunks ::
  "sctp_stream \<Rightarrow> u32 \<Rightarrow> bytes \<Rightarrow> sctp_payload_protocol_id \<Rightarrow>
   (sctp_chunk_flags \<times> sctp_data_chunk) list" where
  "stream_send_chunks s tsn data ppid =
     frag_chunks (st_stream_id s) (st_next_send_ssn s) ppid True (send_frags data) tsn"

lemma stream_send_eq:
  assumes "length (st_sent_messages s) \<le> 10000" and "st_on_send_data s"
  shows "sctp_stream_send clk tsn data ppid s =
    (True, tsn + word_of_nat (length (send_frags data)),
     map chunk_send (stream_send_chunks s tsn data ppid),
     save_all clk (stream_send_chunks s tsn data ppid)
       (s\<lparr>st_next_send_ssn := st_next_send_ssn s + 1\<rparr>))"
proof (cases "length data < 1200")
  case True
  with assms show ?thesis
    by (simp add: sctp_stream_send_def send_frags_def stream_send_chunks_def chunk_send_def
        frag_flags_def sctp_chunk_flags_or_def sctp_stream_on_send_data_def Let_def split_beta)
next
  case False
  with assms show ?thesis
    by (simp add: sctp_stream_send_def send_frags_def stream_send_chunks_def
        send_fragments_eq Let_def)
qed

section \<open>Reassembly\<close>

fun recv_all ::
  "(nat \<Rightarrow> int) \<Rightarrow> (sctp_chunk_flags \<times> sctp_data_chunk) list \<Rightarrow> sctp_stream \<Rightarrow> sctp_stream" where
  "recv_all clk [] this = this"
| "recv_all clk ((fl, c) # fcs) this =
     recv_all (\<lambda>i. clk (Suc i)) fcs (snd (sctp_stream_insert (clk 0) fl c this))"

lemma recv_all_eq:
  "recv_all clk fcs s = s\<lparr>st_messages :=
     msgs_all clk (st_stream_id s) (st_init_tsn s) fcs (st_messages s)\<rparr>"
proof (induction fcs arbitrary: clk s)
  case (Cons fc fcs)
  then show ?case by (cases fc) (simp add: sctp_stream_insert_def split_beta)
qed simp

fun msg_all ::
  "(nat \<Rightarrow> int) \<Rightarrow> (sctp_chunk_flags \<times> sctp_data_chunk) list \<Rightarrow> sctp_message \<Rightarrow> sctp_message" where
  "msg_all clk [] m = m"
| "msg_all clk ((fl, c) # fcs) m =
     msg_all (\<lambda>i. clk (Suc i)) fcs (snd (sctp_message_insert (clk 0) fl c m))"

text \<open>The message a chunk is inserted into: the one of its sequence number, or a new one.\<close>

definition msg_entry :: "u16 \<Rightarrow> u32 \<Rightarrow> u16 \<Rightarrow> (u16, sctp_message) std_map \<Rightarrow> sctp_message" where
  "msg_entry sid init ssn ms =
     (case map_find ms ssn of
        None \<Rightarrow> (sctp_message_new init)\<lparr>ms_stream_id := sid, ms_ssn := ssn\<rparr>
      | Some m \<Rightarrow> m)"

lemma map_ok_message_insert:
  "map_ok ms \<Longrightarrow> map_ok (snd (message_map_insert now sid init fl c ms))"
  by (auto simp: message_map_insert_def Let_def split_beta sm.invar_ins split: option.splits)

lemma find_message_insert:
  "map_ok ms \<Longrightarrow>
   map_find (snd (message_map_insert now sid init fl c ms)) =
     (map_find ms)(dc_stream_sequence c \<mapsto>
        snd (sctp_message_insert now fl c (msg_entry sid init (dc_stream_sequence c) ms)))"
  by (auto simp: message_map_insert_def msg_entry_def Let_def split_beta sm.find_put sm.find_ins
      sm.invar_ins split: option.splits)

lemma message_insert_ids [simp]:
  "ms_stream_id (snd (sctp_message_insert now fl c m)) = ms_stream_id m"
  "ms_ssn (snd (sctp_message_insert now fl c m)) = ms_ssn m"
  by (simp_all add: sctp_message_insert_def Let_def)

definition chunk_for :: "u16 \<Rightarrow> u16 \<Rightarrow> sctp_chunk_flags \<times> sctp_data_chunk \<Rightarrow> bool" where
  "chunk_for sid ssn fc \<longleftrightarrow> dc_stream_id (snd fc) = sid \<and> dc_stream_sequence (snd fc) = ssn"

text \<open>Storing the chunks of one message touches that message only.\<close>

lemma map_ok_msgs_all: "map_ok ms \<Longrightarrow> map_ok (msgs_all clk sid init fcs ms)"
proof (induction fcs arbitrary: clk ms)
  case (Cons fc fcs)
  then show ?case by (cases fc) (simp add: map_ok_message_insert)
qed simp

lemma find_msgs_all:
  assumes "map_ok ms" and "list_all (chunk_for sid ssn) fcs" and "fcs \<noteq> []"
  shows "map_find (msgs_all clk sid init fcs ms) =
           (map_find ms)(ssn \<mapsto> msg_all clk fcs (msg_entry sid init ssn ms))"
  using assms
proof (induction fcs arbitrary: clk ms)
  case (Cons fc fcs)
  obtain fl c where fc: "fc = (fl, c)" by (cases fc)
  let ?ms = "snd (message_map_insert (clk 0) sid init fl c ms)"
  have ssn: "dc_stream_sequence c = ssn"
    using Cons.prems by (simp add: fc chunk_for_def)
  have f: "map_find ?ms =
      (map_find ms)(ssn \<mapsto> snd (sctp_message_insert (clk 0) fl c (msg_entry sid init ssn ms)))"
    using Cons.prems ssn by (simp add: find_message_insert)
  then have e: "msg_entry sid init ssn ?ms =
      snd (sctp_message_insert (clk 0) fl c (msg_entry sid init ssn ms))"
    by (simp add: msg_entry_def)
  show ?case
  proof (cases "fcs = []")
    case True
    with f show ?thesis by (simp add: fc)
  next
    case False
    have "map_find (msgs_all (\<lambda>i. clk (Suc i)) sid init fcs ?ms) =
        (map_find ?ms)(ssn \<mapsto> msg_all (\<lambda>i. clk (Suc i)) fcs (msg_entry sid init ssn ?ms))"
      using Cons.prems False by (intro Cons.IH) (simp_all add: map_ok_message_insert)
    then show ?thesis
      unfolding e f by (simp add: fc)
  qed
qed simp

definition block_entry :: "sctp_chunk_flags \<times> sctp_data_chunk \<Rightarrow> u32 \<times> block_t" where
  "block_entry fc = (dc_tsn (snd fc),
     \<lparr>bk_is_begin = fst fc AND cf_begin \<noteq> 0, bk_is_end = fst fc AND cf_end \<noteq> 0,
      bk_chunk = snd fc, bk_sent_times = 0\<rparr>)"

lemma msg_all_blocks:
  assumes "list_all (chunk_for (ms_stream_id m) (ms_ssn m)) fcs"
  shows "ms_blocks (msg_all clk fcs m) =
           fold (\<lambda>(k, v). map_insert k v) (map block_entry fcs) (ms_blocks m)"
  using assms
proof (induction fcs arbitrary: clk m)
  case (Cons fc fcs)
  obtain fl c where fc: "fc = (fl, c)" by (cases fc)
  have "ms_blocks (snd (sctp_message_insert (clk 0) fl c m)) =
      (\<lambda>(k, v). map_insert k v) (block_entry fc) (ms_blocks m)"
    using Cons.prems by (simp add: fc chunk_for_def sctp_message_insert_def Let_def block_entry_def)
  with Cons show ?case by (simp add: fc)
qed simp

lemma msg_all_begin:
  assumes "list_all (chunk_for (ms_stream_id m) (ms_ssn m)) fcs"
    and "\<forall>fc \<in> set fcs. fst fc AND cf_begin \<noteq> 0 \<longrightarrow> dc_tsn (snd fc) = t"
    and "ms_begin_tsn m = t \<or> (\<exists>fc \<in> set fcs. fst fc AND cf_begin \<noteq> 0)"
  shows "ms_begin_tsn (msg_all clk fcs m) = t"
  using assms
proof (induction fcs arbitrary: clk m)
  case (Cons fc fcs)
  obtain fl c where fc: "fc = (fl, c)" by (cases fc)
  have "ms_begin_tsn (snd (sctp_message_insert (clk 0) fl c m)) =
      (if fl AND cf_begin \<noteq> 0 then dc_tsn c else ms_begin_tsn m)"
    using Cons.prems by (simp add: fc chunk_for_def sctp_message_insert_def Let_def)
  with Cons show ?case by (auto simp: fc)
qed simp

lemma frag_chunks_for: "list_all (chunk_for sid ssn) (frag_chunks sid ssn ppid first frs tsn)"
  by (induction frs arbitrary: first tsn) (simp_all add: chunk_for_def)

lemma frag_chunks_ppid: "fc \<in> set (frag_chunks sid ssn ppid first frs tsn) \<Longrightarrow> dc_ppid (snd fc) = ppid"
  by (induction frs arbitrary: first tsn) auto

lemma length_frag_chunks [simp]: "length (frag_chunks sid ssn ppid first frs tsn) = length frs"
  by (induction frs arbitrary: first tsn) simp_all

lemma frag_chunks_tsns:
  "map (dc_tsn \<circ> snd) (frag_chunks sid ssn ppid first frs tsn) =
     map (\<lambda>i. tsn + word_of_nat i) [0..<length frs]"
proof (induction frs arbitrary: first tsn)
  case (Cons f fs)
  have "map (\<lambda>i. tsn + word_of_nat i) [0..<length (f # fs)] =
        tsn # map (\<lambda>i. tsn + 1 + word_of_nat i) [0..<length fs]"
    by (simp add: upt_conv_Cons map_Suc_upt [symmetric] comp_def add.assoc del: upt_Suc)
  with Cons show ?case by simp
qed simp

lemma distinct_tsns:
  assumes "n \<le> 65536"
  shows "distinct (map (\<lambda>i. tsn + word_of_nat i :: u32) [0..<n])"
proof -
  have "unat (word_of_nat i :: u32) = i" if "i < n" for i
    using that assms by (intro unat_of_nat_small) simp
  then have "i = j" if "i < n" "j < n" "(word_of_nat i :: u32) = word_of_nat j" for i j
    using that by metis
  then show ?thesis
    by (auto simp: distinct_map inj_on_def)
qed

lemma frag_flags_bits [simp]:
  "frag_flags a b AND cf_begin = 0 \<longleftrightarrow> \<not> a" "frag_flags a b AND cf_end = 0 \<longleftrightarrow> \<not> b"
  by (cases a; cases b; simp add: frag_flags_def)+

lemma frag_chunks_no_begin:
  "fc \<in> set (frag_chunks sid ssn ppid False frs tsn) \<Longrightarrow> \<not> fst fc AND cf_begin \<noteq> 0"
  by (induction frs arbitrary: tsn) auto

lemma frag_chunks_begin:
  "fc \<in> set (frag_chunks sid ssn ppid True frs tsn) \<Longrightarrow> fst fc AND cf_begin \<noteq> 0 \<Longrightarrow>
   dc_tsn (snd fc) = tsn"
  by (cases frs) (auto dest: frag_chunks_no_begin)

lemma has_frags_find:
  "\<forall>fc \<in> set (frag_chunks sid ssn ppid first frs tsn).
      map_find B (fst (block_entry fc)) = Some (snd (block_entry fc)) \<Longrightarrow>
   has_frags B tsn first frs"
  by (induction frs arbitrary: first tsn) (auto simp: block_entry_def)

text \<open>
  Whatever the order in which the fragments of one message are stored, they are all found at
  their TSNs afterwards, nothing else is, and the scan starts at the first one.
\<close>

lemma msgs_all_has_frags:
  assumes ok: "map_ok ms" and new: "map_find ms ssn = None"
    and frs: "frs \<noteq> []" "length frs \<le> 256"
    and perm: "mset fcs = mset (frag_chunks sid ssn ppid True frs tsn)"
  obtains m where "map_find (msgs_all clk sid init fcs ms) ssn = Some m"
    and "ms_stream_id m = sid" and "ms_begin_tsn m = tsn"
    and "has_frags (ms_blocks m) tsn True frs"
    and "map_find (ms_blocks m) = map_of (map block_entry (frag_chunks sid ssn ppid True frs tsn))"
    and "map_ok (ms_blocks m)"
proof -
  let ?L = "frag_chunks sid ssn ppid True frs tsn"
  let ?m = "msg_entry sid init ssn ms"
  let ?M = "msg_all clk fcs ?m"
  have set: "set fcs = set ?L" and ne: "fcs \<noteq> []"
    using perm frs by (metis mset_eq_setD) (use perm frs in \<open>cases frs; auto\<close>)
  have m: "ms_stream_id ?m = sid" "ms_ssn ?m = ssn" "ms_blocks ?m = []"
    using new by (simp_all add: msg_entry_def sctp_message_new_def Let_def)
  have for_all: "list_all (chunk_for sid ssn) fcs"
    using frag_chunks_for [of sid ssn ppid True frs tsn] by (simp add: list_all_iff set)
  have distL: "distinct (map fst (map block_entry ?L))"
    using distinct_tsns [of "length frs" tsn] frag_chunks_tsns [of sid ssn ppid True frs tsn] frs
    by (simp add: block_entry_def comp_def)
  have blocks: "ms_blocks ?M = fold (\<lambda>(k, v). map_insert k v) (map block_entry fcs) []"
    using for_all m by (simp add: msg_all_blocks)
  have find: "map_find (ms_blocks ?M) = map_of (map block_entry ?L)"
  proof -
    have "map_find (fold (\<lambda>(k, v). map_insert k v) (map block_entry fcs) []) =
          map_find (fold (\<lambda>(k, v). map_insert k v) (map block_entry ?L) [])"
      using distL perm by (intro sm.find_fold_ins_perm) simp_all
    also have "\<dots> = map_of (map block_entry ?L)"
      using distL by (subst sm.find_fold_ins) (simp_all add: fun_eq_iff map_add_def split: option.splits)
    finally show ?thesis by (simp add: blocks)
  qed
  have ok': "map_ok (ms_blocks ?M)"
    unfolding blocks by (rule sm.invar_fold_ins) simp
  have "\<forall>fc \<in> set ?L. map_find (ms_blocks ?M) (fst (block_entry fc)) = Some (snd (block_entry fc))"
    using distL unfolding find by auto
  then have frags: "has_frags (ms_blocks ?M) tsn True frs"
    by (rule has_frags_find)
  have "\<exists>fc \<in> set ?L. fst fc AND cf_begin \<noteq> 0"
    using frs by (cases frs) auto
  then have "ms_begin_tsn ?M = tsn"
    using for_all m frag_chunks_begin by (intro msg_all_begin) (auto simp: set)
  moreover have "ms_stream_id (msg_all clk fcs m') = ms_stream_id m'" for m'
    by (induction fcs arbitrary: clk m') auto
  ultimately show ?thesis
    using that [of ?M] find_msgs_all [OF ok for_all ne] frags m find ok' by simp
qed

section \<open>Delivery\<close>

lemma delivered_in_any_order:
  assumes "map_ok (st_messages r)" and "map_find (st_messages r) (st_next_recv_ssn r) = None"
    and "frs \<noteq> []" and "length frs \<le> 256"
    and "mset fcs = mset (frag_chunks (st_stream_id r) (st_next_recv_ssn r) ppid True frs tsn)"
  obtains m r' where "sctp_stream_next_message (recv_all clk fcs r) = (Some m, r')"
    and "sctp_message_serialize m = (True, concat frs)"
    and "sctp_message_calc_gaps m =
           m\<lparr>ms_cumulative_tsn := tsn + word_of_nat (length frs - 1), ms_gaps := []\<rparr>"
    and "st_next_recv_ssn r' = st_next_recv_ssn r + 1"
proof -
  from msgs_all_has_frags [OF assms, of clk "st_init_tsn r"] obtain m where
    m: "map_find (st_messages (recv_all clk fcs r)) (st_next_recv_ssn r) = Some m"
      "ms_begin_tsn m = tsn" "has_frags (ms_blocks m) tsn True frs"
    by (auto simp: recv_all_eq)
  have "sctp_message_serialize m = (True, concat frs)"
    using serialize_scan_has_frags [OF m(3) assms(3,4)] m(2) by (simp add: sctp_message_serialize_def)
  moreover from this have "sctp_message_is_completed m"
    by (metis fst_conv serialize_iff_completed)
  moreover have "sctp_message_calc_gaps m =
      m\<lparr>ms_cumulative_tsn := tsn + word_of_nat (length frs - 1), ms_gaps := []\<rparr>"
    using calc_gaps_complete [of m frs] m assms(3,4) by simp
  ultimately show ?thesis
    using that m(1) by (simp add: sctp_stream_next_message_def recv_all_eq)
qed

section \<open>Acknowledgement\<close>

lemma fst_set_sack_loop: "fst ` set (sack_loop tsns ms) \<subseteq> fst ` set ms"
proof (induction ms)
  case (Cons e ms)
  then show ?case by (cases e) (simp add: Let_def, blast)
qed simp

lemma map_ok_sack_loop: "map_ok ms \<Longrightarrow> map_ok (sack_loop tsns ms)"
proof (induction ms)
  case (Cons e ms)
  then show ?case
    using fst_set_sack_loop [of tsns ms] by (cases e) (fastforce simp: Let_def)
qed simp

lemma find_sack_loop:
  "map_ok ms \<Longrightarrow>
   map_find (sack_loop tsns ms) ssn =
     (case map_find ms ssn of
        None \<Rightarrow> None
      | Some m \<Rightarrow>
          let blocks = filter (\<lambda>(tsn, _). tsn \<notin> set tsns) (ms_blocks m)
          in if blocks = [] then None else Some (m\<lparr>ms_blocks := blocks\<rparr>))"
proof (induction ms)
  case (Cons e ms)
  obtain k m where e: "e = (k, m)" by (cases e)
  have "k \<notin> fst ` set ms"
    using Cons.prems by (auto simp: e)
  then have "map_find (sack_loop tsns ms) k = None" "map_find ms k = None"
    using fst_set_sack_loop [of tsns ms] by (auto simp: map_find_None_iff)
  with Cons show ?case
    by (auto simp: e Let_def split: option.splits)
qed simp

text \<open>The cumulative part of \<open>tsns\<close>: the acknowledged TSN and the 256 before it.\<close>

lemma sack_tsns_cumulative:
  assumes "k \<le> 256"
  shows "sk_tsn sack - word_of_nat k \<in> set (sack_tsns sack)"
proof (cases "k = 0")
  case True
  then show ?thesis by (simp add: sack_tsns_def)
next
  case False
  with assms have "sk_tsn sack - word_of_nat k = sk_tsn sack - word_of_nat 256 + word_of_nat (256 - k)"
    by simp
  moreover have "256 - k \<in> set [0..<256]"
    using False assms by simp
  ultimately show ?thesis
    unfolding sack_tsns_def by (metis (mono_tags, lifting) Un_iff image_eqI list.set_map set_append)
qed

lemma sack_clears_message:
  assumes "map_ok ms" and "map_find ms ssn = Some m"
    and "map_find (ms_blocks m) = map_of (map block_entry (frag_chunks sid ssn ppid True frs tsn))"
    and "map_ok (ms_blocks m)" and "frs \<noteq> []" and "length frs \<le> 256"
    and "sk_tsn sack = tsn + word_of_nat (length frs - 1)"
  shows "map_find (sack_loop (sack_tsns sack) ms) ssn = None"
proof -
  have "k \<in> set (sack_tsns sack)" if "(k, b) \<in> set (ms_blocks m)" for k b
  proof -
    have "map_of (map block_entry (frag_chunks sid ssn ppid True frs tsn)) k = Some b"
      using that assms(3,4) by (metis map_find_iff)
    then have "k \<in> set (map (dc_tsn \<circ> snd) (frag_chunks sid ssn ppid True frs tsn))"
      by (auto dest!: map_of_SomeD simp: block_entry_def)
    then obtain i where i: "i < length frs" "k = tsn + word_of_nat i"
      unfolding frag_chunks_tsns by auto
    then have "k = sk_tsn sack - word_of_nat (length frs - 1 - i)"
      by (simp add: assms(7))
    then show ?thesis
      using sack_tsns_cumulative [of "length frs - 1 - i" sack] assms(6) by simp
  qed
  then have "filter (\<lambda>(t, _). t \<notin> set (sack_tsns sack)) (ms_blocks m) = []"
    by (auto simp: filter_empty_conv)
  then show ?thesis
    using find_sack_loop [OF assms(1)] assms(2) by simp
qed

section \<open>Retransmission\<close>

definition block_send :: "u32 \<times> block_t \<Rightarrow> sctp_send" where
  "block_send e = (ct_data, frag_flags (bk_is_begin (snd e)) (bk_is_end (snd e)),
     sctp_data_chunk_serialize (bk_chunk (snd e)))"

lemma resend_blocks_eq:
  "resend_blocks s bs =
     (if st_on_send_data s then map block_send bs else [],
      filter (\<lambda>(_, b). bk_sent_times b < 3)
        (map (\<lambda>(t, b). (t, b\<lparr>bk_sent_times := bk_sent_times b + 1\<rparr>)) bs))"
proof (induction bs)
  case (Cons e bs)
  then show ?case
    by (cases e) (auto simp: Let_def block_send_def frag_flags_def sctp_chunk_flags_or_def
        sctp_stream_on_send_data_def)
qed simp

lemma resend_loop_sends:
  "fst (resend_loop s ms) =
     (if st_on_send_data s then concat (map (\<lambda>e. map block_send (ms_blocks (snd e))) ms) else [])"
  by (induction ms) (auto simp: resend_blocks_eq Let_def split_beta)

text \<open>Every stored block has been resent at least \<open>lo\<close> and less than \<open>hi\<close> times.\<close>

definition sent_between :: "int \<Rightarrow> int \<Rightarrow> (u16, sctp_message) std_map \<Rightarrow> bool" where
  "sent_between lo hi ms \<longleftrightarrow>
     list_all (\<lambda>e. list_all (\<lambda>(_, b). lo \<le> bk_sent_times b \<and> bk_sent_times b < hi)
       (ms_blocks (snd e))) ms"

lemma resend_blocks_counts:
  "list_all (\<lambda>(_, b). lo \<le> bk_sent_times b \<and> bk_sent_times b < hi) bs \<Longrightarrow>
   list_all (\<lambda>(_, b). lo + 1 \<le> bk_sent_times b \<and> bk_sent_times b < 3) (snd (resend_blocks s bs))"
  by (auto simp: resend_blocks_eq list_all_iff)

lemma resend_loop_counts:
  "sent_between lo hi ms \<Longrightarrow>
   sent_between (lo + 1) 3 (snd (resend_loop s ms)) \<and>
   list_all (\<lambda>e. ms_blocks (snd e) \<noteq> []) (snd (resend_loop s ms))"
proof (induction ms)
  case (Cons e ms)
  obtain ssn m where e: "e = (ssn, m)" by (cases e)
  obtain out bs where r: "resend_blocks s (ms_blocks m) = (out, bs)" by (cases "resend_blocks s (ms_blocks m)")
  have "list_all (\<lambda>(_, b). lo + 1 \<le> bk_sent_times b \<and> bk_sent_times b < 3) bs"
    using Cons.prems resend_blocks_counts [of lo hi "ms_blocks m" s] r
    by (simp add: e sent_between_def)
  moreover have "sent_between (lo + 1) 3 (snd (resend_loop s ms))"
    "list_all (\<lambda>e. ms_blocks (snd e) \<noteq> []) (snd (resend_loop s ms))"
    using Cons by (simp_all add: sent_between_def)
  ultimately show ?case
    by (simp add: e r Let_def split_beta sent_between_def)
qed (simp add: sent_between_def)

lemma sent_between_empty:
  "sent_between 3 3 ms \<Longrightarrow> list_all (\<lambda>e. ms_blocks (snd e) \<noteq> []) ms \<Longrightarrow> ms = []"
  by (cases ms) (auto simp: sent_between_def list_all_iff neq_Nil_conv)

text \<open>
  C11: retransmission is bounded: after three rounds of resend_messages nothing is kept for
  retransmission, whatever was sent before.
\<close>

theorem resend_thrice_empty:
  assumes "sent_between 0 hi (st_sent_messages s)"
  shows "st_sent_messages (snd (sctp_stream_resend_messages
           (snd (sctp_stream_resend_messages (snd (sctp_stream_resend_messages s)))))) = []"
proof -
  let ?r = "\<lambda>s. snd (sctp_stream_resend_messages s)"
  have step: "sent_between (lo + 1) 3 (st_sent_messages (?r s)) \<and>
      list_all (\<lambda>e. ms_blocks (snd e) \<noteq> []) (st_sent_messages (?r s))"
    if "sent_between lo hi (st_sent_messages s)" for lo hi s
    using resend_loop_counts [OF that] by (simp add: sctp_stream_resend_messages_def split_beta)
  have "sent_between 1 3 (st_sent_messages (?r s))"
    using step [OF assms] by simp
  then have "sent_between 2 3 (st_sent_messages (?r (?r s)))"
    using step [of 1 3 "?r s"] by simp
  then show ?thesis
    using step [of 2 3 "?r (?r s)"] sent_between_empty by simp
qed

section \<open>Timeouts\<close>

lemma clear_timeout_const:
  "clear_timeout_loop (\<lambda>_. now) ms msgs =
     filter (\<lambda>(_, m). now - ms_updated_at m < uint ms) msgs"
  by (induction msgs) (auto simp: sctp_message_is_timeout_def)

section \<open>Gap blocks are exact\<close>

text \<open>The TSNs an interval of a SACK stands for, in wrap-around arithmetic.\<close>

definition covers :: "gap_item_t \<Rightarrow> u32 \<Rightarrow> bool" where
  "covers g t \<longleftrightarrow> t - gap_begin g \<le> gap_end g - gap_begin g"

fun scan_len :: "nat \<Rightarrow> u32 \<Rightarrow> (u32, block_t) std_map \<Rightarrow> nat" where
  "scan_len 0 tsn blocks = 0"
| "scan_len (Suc n) tsn blocks =
     (case map_find blocks tsn of
        Some b \<Rightarrow> if bk_is_end b then 1 else Suc (scan_len n (tsn + 1) blocks)
      | None \<Rightarrow> Suc (scan_len n (tsn + 1) blocks))"

text \<open>The TSNs seen by a scan that are present.\<close>

definition present :: "nat \<Rightarrow> u32 \<Rightarrow> (u32, block_t) std_map \<Rightarrow> u32 \<Rightarrow> bool" where
  "present n tsn blocks t \<longleftrightarrow>
     (\<exists>k < scan_len n tsn blocks. t = tsn + word_of_nat k) \<and> map_find blocks t \<noteq> None"

definition runs :: "gap_item_t list \<times> gap_item_t \<times> bool \<times> bool \<Rightarrow> gap_item_t list" where
  "runs r = (case r of (tmp, item, _, hf) \<Rightarrow> if hf then tmp @ [item] else tmp)"

lemma runs_simp [simp]: "runs (tmp, item, hb, hf) = (if hf then tmp @ [item] else tmp)"
  by (simp add: runs_def)

lemma ex_less_Suc: "(\<exists>k < Suc n. P k) \<longleftrightarrow> P 0 \<or> (\<exists>k < n. P (Suc k))"
  by (metis less_Suc_eq_0_disj)

lemma present_Suc:
  "present (Suc n) tsn blocks t \<longleftrightarrow>
     (t = tsn \<and> map_find blocks tsn \<noteq> None) \<or>
     ((\<forall>b. map_find blocks tsn = Some b \<longrightarrow> \<not> bk_is_end b) \<and> present n (tsn + 1) blocks t)"
  by (auto simp: present_def ex_less_Suc add.assoc split: option.splits)

lemma covers_single: "covers \<lparr>gap_begin = t0, gap_end = t0\<rparr> t \<longleftrightarrow> t = t0"
  by (simp add: covers_def)

lemma covers_extend:
  assumes "j < 2 ^ 32 - 1"
  shows "covers \<lparr>gap_begin = t0, gap_end = t0 + word_of_nat (Suc j)\<rparr> t \<longleftrightarrow>
         covers \<lparr>gap_begin = t0, gap_end = t0 + word_of_nat j\<rparr> t \<or> t = t0 + word_of_nat (Suc j)"
proof -
  have u: "unat (word_of_nat (Suc j) :: u32) = Suc j" "unat (word_of_nat j :: u32) = j"
    using assms by (auto intro!: unat_of_nat_small simp del: of_nat_Suc)
  have "t - t0 \<le> word_of_nat (Suc j) \<longleftrightarrow> t - t0 \<le> word_of_nat j \<or> t - t0 = word_of_nat (Suc j)"
    unfolding word_le_nat_alt word_unat_eq_iff u by linarith
  then show ?thesis
    by (simp add: covers_def algebra_simps del: of_nat_Suc)
qed

lemma gaps_scan_covers:
  assumes "hf \<Longrightarrow> \<exists>j. gap_end item = gap_begin item + word_of_nat j \<and>
              tsn = gap_end item + 1 \<and> j + n < 2 ^ 31"
    and "n < 2 ^ 31"
  shows "(\<exists>g \<in> set (runs (gaps_scan n tsn blocks tmp item hb hf)). covers g t) \<longleftrightarrow>
         (\<exists>g \<in> set (runs (tmp, item, hb, hf)). covers g t) \<or> present n tsn blocks t"
  using assms
proof (induction n arbitrary: tsn tmp item hb hf)
  case 0
  then show ?case by (simp add: present_def)
next
  case (Suc n)
  show ?case
  proof (cases "map_find blocks tsn")
    case None
    let ?tmp = "if hf then tmp @ [item] else tmp"
    have g: "gaps_scan (Suc n) tsn blocks tmp item hb hf = gaps_scan n (tsn + 1) blocks ?tmp item hb False"
      by (simp add: None)
    have "(\<exists>g \<in> set (runs (gaps_scan n (tsn + 1) blocks ?tmp item hb False)). covers g t) \<longleftrightarrow>
        (\<exists>g \<in> set (runs (?tmp, item, hb, False)). covers g t) \<or> present n (tsn + 1) blocks t"
      using Suc.prems by (intro Suc.IH) auto
    then show ?thesis
      by (cases hf) (simp_all add: g None present_Suc)
  next
    case (Some b)
    let ?item = "(if hf then item else item\<lparr>gap_begin := tsn\<rparr>)\<lparr>gap_end := tsn\<rparr>"
    have cov: "covers ?item t \<longleftrightarrow> (hf \<and> covers item t) \<or> t = tsn"
    proof (cases hf)
      case True
      with Suc.prems obtain j where j: "gap_end item = gap_begin item + word_of_nat j"
          "tsn = gap_end item + 1" "j + Suc n < 2 ^ 31" by blast
      then show ?thesis
        using covers_extend [of j "gap_begin item" t] True
        by (cases item) (simp add: ac_simps)
    next
      case False
      then show ?thesis by (cases item) (simp add: covers_single)
    qed
    have ext: "\<exists>j. gap_end ?item = gap_begin ?item + word_of_nat j \<and>
          tsn + 1 = gap_end ?item + 1 \<and> j + n < 2 ^ 31"
    proof (cases hf)
      case True
      with Suc.prems obtain j where "gap_end item = gap_begin item + word_of_nat j"
          "tsn = gap_end item + 1" "j + Suc n < 2 ^ 31" by blast
      with True show ?thesis by (intro exI [of _ "Suc j"]) (simp add: add.assoc add.commute)
    next
      case False
      with Suc.prems(2) show ?thesis by (intro exI [of _ 0]) simp
    qed
    show ?thesis
    proof (cases "bk_is_end b")
      case True
      with Some cov show ?thesis
        by (auto simp: present_Suc Let_def)
    next
      case False
      have "(\<exists>g \<in> set (runs (gaps_scan n (tsn + 1) blocks tmp ?item (hb \<or> bk_is_begin b) True)). covers g t) \<longleftrightarrow>
        (\<exists>g \<in> set (runs (tmp, ?item, hb \<or> bk_is_begin b, True)). covers g t) \<or> present n (tsn + 1) blocks t"
        using ext Suc.prems(2) by (intro Suc.IH) auto
      with Some False cov show ?thesis
        by (auto simp: present_Suc Let_def)
    qed
  qed
qed

lemma gaps_scan_first:
  assumes "tmp \<noteq> [] \<or> hf"
  shows "\<exists>g rest. runs (gaps_scan n tsn blocks tmp item hb hf) = g # rest \<and>
           gap_begin g = gap_begin (hd (tmp @ [item]))"
  using assms
proof (induction n arbitrary: tsn tmp item hb hf)
  case 0
  then show ?case by (cases tmp) auto
next
  case (Suc n)
  show ?case
  proof (cases "map_find blocks tsn")
    case None
    show ?thesis
    proof (cases hf)
      case True
      then show ?thesis
        using Suc.IH [where tmp = "tmp @ [item]" and hf = False and item = item and hb = hb and tsn = "tsn + 1"] None by (cases tmp) simp_all
    next
      case False
      with Suc.prems None Suc.IH [where tmp = tmp and hf = False and item = item and hb = hb and tsn = "tsn + 1"]
      show ?thesis by simp
    qed
  next
    case (Some b)
    let ?item = "(if hf then item else item\<lparr>gap_begin := tsn\<rparr>)\<lparr>gap_end := tsn\<rparr>"
    have "gap_begin (hd (tmp @ [?item])) = gap_begin (hd (tmp @ [item]))"
      using Suc.prems by (cases tmp) auto
    then show ?thesis
      using Suc.IH [where tmp = tmp and hf = True and item = ?item and hb = "hb \<or> bk_is_begin b" and tsn = "tsn + 1"] Some
      by (cases tmp) (auto simp: Let_def)
  qed
qed

lemma gaps_scan_begin:
  "gaps_scan n tsn blocks tmp item True hf = (tmp', item', hb', hf') \<Longrightarrow> hb'"
  by (induction n arbitrary: tsn tmp item hf)
    (auto simp: Let_def split: option.splits if_splits)

lemma covers_shift:
  "covers \<lparr>gap_begin = gap_begin g - c, gap_end = gap_end g - c\<rparr> (t - c) \<longleftrightarrow> covers g t"
  by (simp add: covers_def)

text \<open>
  C9: for a message whose first fragment has arrived, the cumulative TSN and the gap blocks that
  calc_gaps computes acknowledge exactly the TSNs that are present among the (at most 256) TSNs
  from the begin up to the end fragment, in wrap-around arithmetic.
\<close>

theorem calc_gaps_exact:
  assumes "map_find (ms_blocks m) (ms_begin_tsn m) = Some b" and "bk_is_begin b"
    and "m' = sctp_message_calc_gaps m"
  shows "t - ms_begin_tsn m \<le> ms_cumulative_tsn m' - ms_begin_tsn m \<or>
         (\<exists>g \<in> set (ms_gaps m'). covers g (t - ms_cumulative_tsn m')) \<longleftrightarrow>
         present 256 (ms_begin_tsn m) (ms_blocks m) t"
proof -
  let ?B = "ms_blocks m" and ?t = "ms_begin_tsn m" and ?z = "\<lparr>gap_begin = 0, gap_end = 0\<rparr>"
  obtain tmp item hb hf where
    r: "gaps_scan 256 ?t ?B [] ?z False False = (tmp, item, hb, hf)"
    by (metis prod_cases4)
  let ?i = "\<lparr>gap_begin = ?t, gap_end = ?t\<rparr>"
  have step: "gaps_scan 256 ?t ?B [] ?z False False =
      (if bk_is_end b then ([], ?i, True, True) else gaps_scan 255 (?t + 1) ?B [] ?i True True)"
    using assms(1,2) gaps_scan.simps(2) [of 255 ?t ?B "[]" ?z False False] by (simp add: Let_def)
  have hb: hb
  proof (cases "bk_is_end b")
    case True
    with step r show ?thesis by simp
  next
    case False
    with step r have "gaps_scan 255 (?t + 1) ?B [] ?i True True = (tmp, item, hb, hf)" by simp
    then show ?thesis by (rule gaps_scan_begin)
  qed
  have "\<exists>g rest. runs (tmp, item, hb, hf) = g # rest \<and> gap_begin g = ?t"
  proof (cases "bk_is_end b")
    case True
    with step r show ?thesis by simp
  next
    case False
    with step r have "gaps_scan 255 (?t + 1) ?B [] ?i True True = (tmp, item, hb, hf)" by simp
    then show ?thesis
      using gaps_scan_first [of "[]" True 255 "?t + 1" ?B ?i True] by simp
  qed
  then obtain g rest where g: "runs (tmp, item, hb, hf) = g # rest" "gap_begin g = ?t"
    by blast
  have ne: "?B \<noteq> []"
    using assms(1) by auto
  have m': "ms_cumulative_tsn m' = gap_end g"
    "ms_gaps m' = map (\<lambda>g'. \<lparr>gap_begin = gap_begin g' - gap_end g, gap_end = gap_end g' - gap_end g\<rparr>) rest"
    using g ne hb r by (simp_all add: assms(3) sctp_message_calc_gaps_def Let_def)
  have "(\<exists>g' \<in> set (g # rest). covers g' t) \<longleftrightarrow> present 256 ?t ?B t"
    using gaps_scan_covers [of False ?z ?t 256 ?B "[]" False t] r g by simp
  then show ?thesis
    unfolding m' by (simp add: covers_shift) (simp add: covers_def g(2))
qed

section \<open>Incomplete messages are not delivered\<close>

lemma completed_scan_run:
  "completed_scan n tsn hb B \<Longrightarrow>
   \<exists>k < n. (\<forall>j \<le> k. map_find B (tsn + word_of_nat j) \<noteq> None) \<and>
     (\<exists>b. map_find B (tsn + word_of_nat k) = Some b \<and> bk_is_end b) \<and>
     (hb \<or> (\<exists>j \<le> k. \<exists>b. map_find B (tsn + word_of_nat j) = Some b \<and> bk_is_begin b))"
proof (induction n arbitrary: tsn hb)
  case (Suc n)
  then obtain b where b: "map_find B tsn = Some b"
    by (auto split: option.splits)
  show ?case
  proof (cases "bk_is_end b")
    case True
    with b Suc.prems show ?thesis by (intro exI [of _ 0]) auto
  next
    case False
    with b Suc.prems have "completed_scan n (tsn + 1) (hb \<or> bk_is_begin b) B"
      by simp
    from Suc.IH [OF this] obtain k where k: "k < n"
        "\<forall>j \<le> k. map_find B (tsn + 1 + word_of_nat j) \<noteq> None"
        "\<exists>b. map_find B (tsn + 1 + word_of_nat k) = Some b \<and> bk_is_end b"
        "(hb \<or> bk_is_begin b) \<or> (\<exists>j \<le> k. \<exists>b. map_find B (tsn + 1 + word_of_nat j) = Some b \<and> bk_is_begin b)"
      by blast
    have "map_find B (tsn + word_of_nat j) \<noteq> None" if "j \<le> Suc k" for j
      using that b k(2) by (cases j) (auto simp: add.assoc)
    moreover have "hb \<or> (\<exists>j \<le> Suc k. \<exists>b. map_find B (tsn + word_of_nat j) = Some b \<and> bk_is_begin b)"
      using k(4) b by (force simp: add.assoc)
    ultimately show ?thesis
      using k(1,3) by (intro exI [of _ "Suc k"]) (auto simp: add.assoc)
  qed
qed simp

lemma frag_chunks_nth:
  "i < length frs \<Longrightarrow> frag_chunks sid ssn ppid first frs tsn ! i =
     (frag_flags (first \<and> i = 0) (Suc i = length frs),
      \<lparr>dc_tsn = tsn + word_of_nat i, dc_stream_id = sid, dc_stream_sequence = ssn, dc_ppid = ppid,
       dc_payload = frs ! i\<rparr>)"
proof (induction frs arbitrary: first tsn i)
  case (Cons f fs)
  show ?case
  proof (cases i)
    case (Suc j)
    with Cons.prems have "j < length fs" by simp
    from Cons.IH [OF this, of False "tsn + 1"] Suc this show ?thesis
      by (auto simp: add.assoc)
  qed simp
qed simp


lemma word_of_nat_eq: "i < 65536 \<Longrightarrow> j < 65536 \<Longrightarrow> (word_of_nat i :: u32) = word_of_nat j \<longleftrightarrow> i = j"
proof -
  assume "i < 65536" and "j < 65536"
  then have "unat (word_of_nat i :: u32) = i" "unat (word_of_nat j :: u32) = j"
    by (simp_all add: unat_of_nat_small)
  then show ?thesis by metis
qed

lemma frag_chunk_at_tsn:
  assumes "fc \<in> set (frag_chunks sid ssn ppid first frs tsn)" and "length frs \<le> 256"
    and "dc_tsn (snd fc) = tsn + word_of_nat k" and "k < 256"
  shows "k < length frs \<and> fc = frag_chunks sid ssn ppid first frs tsn ! k"
proof -
  from assms(1) obtain i where i: "i < length frs" "fc = frag_chunks sid ssn ppid first frs tsn ! i"
    by (metis in_set_conv_nth length_frag_chunks)
  with assms have "i = k"
    by (simp add: frag_chunks_nth word_of_nat_eq)
  with i show ?thesis by simp
qed

lemma find_blocks_partial:
  assumes "distinct fcs" and "set fcs \<subseteq> set (frag_chunks sid ssn ppid first frs tsn)"
    and "length frs \<le> 256"
  shows "map_find (fold (\<lambda>(k, v). map_insert k v) (map block_entry fcs) []) t = Some b \<longleftrightarrow>
         (\<exists>fc \<in> set fcs. block_entry fc = (t, b))"
proof -
  have "distinct (map (dc_tsn \<circ> snd) (frag_chunks sid ssn ppid first frs tsn))"
    unfolding frag_chunks_tsns using assms(3) by (intro distinct_tsns) simp
  then have "inj_on (dc_tsn \<circ> snd) (set (frag_chunks sid ssn ppid first frs tsn))"
    by (simp only: distinct_map)
  then have d: "distinct (map fst (map block_entry fcs))"
    using assms(1,2) inj_on_subset by (auto simp: block_entry_def comp_def distinct_map)
  have "map_find (fold (\<lambda>(k, v). map_insert k v) (map block_entry fcs) []) = map_of (map block_entry fcs)"
    using d by (subst sm.find_fold_ins) (simp_all add: fun_eq_iff map_add_def split: option.splits)
  then show ?thesis
    using d by (auto simp: map_of_eq_Some_iff image_iff intro: sym)
qed

lemma partial_not_completed:
  assumes m: "ms_stream_id m = sid" "ms_ssn m = ssn" "ms_blocks m = []"
    and fcs: "distinct fcs" "set fcs \<subset> set (frag_chunks sid ssn ppid True frs tsn)"
    and frs: "length frs \<le> 256"
  shows "\<not> sctp_message_is_completed (msg_all clk fcs m)"
proof
  let ?L = "frag_chunks sid ssn ppid True frs tsn" and ?M = "msg_all clk fcs m"
  assume "sctp_message_is_completed ?M"
  then obtain k where k: "k < 256"
      "\<forall>j \<le> k. map_find (ms_blocks ?M) (ms_begin_tsn ?M + word_of_nat j) \<noteq> None"
      "\<exists>b. map_find (ms_blocks ?M) (ms_begin_tsn ?M + word_of_nat k) = Some b \<and> bk_is_end b"
      "\<exists>j \<le> k. \<exists>b. map_find (ms_blocks ?M) (ms_begin_tsn ?M + word_of_nat j) = Some b \<and> bk_is_begin b"
    using completed_scan_run [of 256 "ms_begin_tsn ?M" False "ms_blocks ?M"]
    unfolding sctp_message_is_completed_def by auto
  have sub: "set fcs \<subseteq> set ?L" and for_all: "list_all (chunk_for sid ssn) fcs"
    using fcs(2) frag_chunks_for [of sid ssn ppid True frs tsn] by (auto simp: list_all_iff)
  have B: "map_find (ms_blocks ?M) t = Some b \<longleftrightarrow> (\<exists>fc \<in> set fcs. block_entry fc = (t, b))" for t b
    using for_all m by (simp add: msg_all_blocks find_blocks_partial [OF fcs(1) sub frs])
  from k(4) have "\<exists>fc \<in> set fcs. fst fc AND cf_begin \<noteq> 0"
    unfolding B by (force simp: block_entry_def)
  then have t: "ms_begin_tsn ?M = tsn"
    using for_all m frag_chunks_begin sub by (intro msg_all_begin) auto
  have at: "j < length frs \<and> ?L ! j \<in> set fcs" if "j \<le> k" for j
  proof -
    from k(2) that obtain b where "map_find (ms_blocks ?M) (tsn + word_of_nat j) = Some b"
      unfolding t by blast
    then obtain fc where fc: "fc \<in> set fcs" "dc_tsn (snd fc) = tsn + word_of_nat j"
      unfolding B by (auto simp: block_entry_def)
    with sub frag_chunk_at_tsn [OF _ frs fc(2)] k(1) that show ?thesis by auto
  qed
  from k(3) obtain fc where fc: "fc \<in> set fcs" "dc_tsn (snd fc) = tsn + word_of_nat k"
      "fst fc AND cf_end \<noteq> 0"
    unfolding t B by (auto simp: block_entry_def)
  then have "k < length frs" "fc = ?L ! k"
    using sub frag_chunk_at_tsn [OF _ frs fc(2) k(1)] by blast+
  with fc(3) have "Suc k = length frs"
    by (simp add: frag_chunks_nth)
  with at have "set ?L \<subseteq> set fcs"
    by (metis in_set_conv_nth length_frag_chunks less_Suc_eq_le subsetI)
  with fcs(2) show False by blast
qed


lemma partial_next_message:
  assumes "map_ok (st_messages r)" and "map_find (st_messages r) (st_next_recv_ssn r) = None"
    and "distinct fcs" and "length frs \<le> 256"
    and "set fcs \<subset> set (frag_chunks (st_stream_id r) (st_next_recv_ssn r) ppid True frs tsn)"
  shows "sctp_stream_next_message (recv_all clk fcs r) = (None, recv_all clk fcs r)"
proof (cases "fcs = []")
  case True
  with assms(2) show ?thesis by (simp add: sctp_stream_next_message_def)
next
  case False
  let ?ssn = "st_next_recv_ssn r" and ?sid = "st_stream_id r"
  let ?m = "msg_entry ?sid (st_init_tsn r) ?ssn (st_messages r)"
  have "list_all (chunk_for ?sid ?ssn) fcs"
    using assms(5) frag_chunks_for [of ?sid ?ssn ppid True frs tsn] by (auto simp: list_all_iff)
  then have "map_find (st_messages (recv_all clk fcs r)) ?ssn = Some (msg_all clk fcs ?m)"
    using find_msgs_all [OF assms(1) _ False] by (simp add: recv_all_eq)
  moreover have "\<not> sctp_message_is_completed (msg_all clk fcs ?m)"
    using assms by (intro partial_not_completed) (auto simp: msg_entry_def sctp_message_new_def Let_def)
  ultimately show ?thesis
    by (simp add: sctp_stream_next_message_def recv_all_eq)
qed

section \<open>Properties of the stream transfer\<close>

text \<open>
  C10: a message of at most 307200 bytes (256 fragments), sent on a stream with at most 10000
  messages awaiting acknowledgement and none under the next sequence number, is kept for
  retransmission under that number, and processing a SACK whose cumulative TSN is the last TSN
  of the message removes it.
\<close>

theorem sack_releases_message:
  assumes "map_ok (st_sent_messages s)" and "length (st_sent_messages s) \<le> 10000"
    and "st_on_send_data s" and "map_find (st_sent_messages s) (st_next_send_ssn s) = None"
    and "length data \<le> 307200"
    and "sctp_stream_send clk tsn data ppid s = (True, tsn', outs, s')"
    and "sk_tsn sack = tsn' - 1"
  shows "map_find (st_sent_messages s') (st_next_send_ssn s) \<noteq> None \<and>
         map_find (st_sent_messages (sctp_stream_process_sack sack s')) (st_next_send_ssn s) = None"
proof -
  let ?C = "stream_send_chunks s tsn data ppid" and ?frs = "send_frags data"
  obtain k where k: "length ?frs = Suc k"
    using send_frags_nonempty [of data] by (cases ?frs) auto
  have s': "tsn' = tsn + word_of_nat (length ?frs)"
      "st_sent_messages s' = msgs_all clk (st_stream_id s) (st_init_tsn s) ?C (st_sent_messages s)"
    using assms(6) stream_send_eq [OF assms(2,3)] by (auto simp: save_all_def)
  have perm: "mset ?C = mset (frag_chunks (st_stream_id s) (st_next_send_ssn s) ppid True ?frs tsn)"
    by (simp add: stream_send_chunks_def)
  obtain m where m: "map_find (st_sent_messages s') (st_next_send_ssn s) = Some m"
      "map_find (ms_blocks m) = map_of (map block_entry
         (frag_chunks (st_stream_id s) (st_next_send_ssn s) ppid True ?frs tsn))" "map_ok (ms_blocks m)"
    unfolding s' using msgs_all_has_frags
      [OF assms(1,4) send_frags_nonempty length_send_frags [OF assms(5)] perm] by metis
  have "map_ok (st_sent_messages s')"
    unfolding s' using assms(1) by (rule map_ok_msgs_all)
  from sack_clears_message [OF this m send_frags_nonempty length_send_frags [OF assms(5)], of sack]
  show ?thesis
    using m(1) assms(7) s'(1) k by (simp add: sctp_stream_process_sack_def)
qed

theorem sack_releases_message_witness:
  "map_find (st_sent_messages (sctp_stream_process_sack
      (sctp_sack_chunk_new\<lparr>sk_tsn := 9\<rparr>)
      (snd (snd (snd (sctp_stream_send (\<lambda>_. 0) 9 [1, 2, 3] ppid_binary (sctp_stream_new 1 0 True)))))) ) 0 = None"
  using sack_releases_message [of "sctp_stream_new 1 0 True" "[1, 2, 3]" "\<lambda>_. 0" 9 ppid_binary 10
      "fst (snd (snd (sctp_stream_send (\<lambda>_. 0) 9 [1, 2, 3] ppid_binary (sctp_stream_new 1 0 True))))"
      "snd (snd (snd (sctp_stream_send (\<lambda>_. 0) 9 [1, 2, 3] ppid_binary (sctp_stream_new 1 0 True))))"
      "sctp_sack_chunk_new\<lparr>sk_tsn := 9\<rparr>"]
  by (simp add: stream_send_eq sctp_stream_new_def send_frags_def)

theorem resend_thrice_empty_witness:
  "st_sent_messages (snd (sctp_stream_resend_messages
           (snd (sctp_stream_resend_messages (snd (sctp_stream_resend_messages 
             ((sctp_stream_new 1 0 True)\<lparr>st_sent_messages := [(0, (sctp_message_new 0)\<lparr>ms_blocks := 
               [(9, \<lparr>bk_is_begin = True, bk_is_end = True, bk_chunk = sctp_data_chunk_new, bk_sent_times = 0\<rparr>)]\<rparr>)]\<rparr>))))))) = []"
  by (rule resend_thrice_empty [of 1]) (simp add: sent_between_def sctp_message_new_def)

theorem calc_gaps_exact_witness:
  "let B = \<lambda>e. \<lparr>bk_is_begin = \<not> e, bk_is_end = e, bk_chunk = sctp_data_chunk_new, bk_sent_times = 0\<rparr>;
       m = (sctp_message_new 9)\<lparr>ms_begin_tsn := 9, ms_blocks := [(9, B False), (11, B True)]\<rparr>;
       m' = sctp_message_calc_gaps m
   in 11 - ms_begin_tsn m \<le> ms_cumulative_tsn m' - ms_begin_tsn m \<or>
         (\<exists>g \<in> set (ms_gaps m'). covers g (11 - ms_cumulative_tsn m'))"
proof -
  let ?B = "\<lambda>e. \<lparr>bk_is_begin = \<not> e, bk_is_end = e, bk_chunk = sctp_data_chunk_new, bk_sent_times = 0\<rparr>"
  let ?m = "(sctp_message_new 9)\<lparr>ms_begin_tsn := 9, ms_blocks := [(9, ?B False), (11, ?B True)]\<rparr>"
  have "present 256 9 [(9, ?B False), (11, ?B True)] 11"
    unfolding present_def by (rule conjI, rule exI [of _ 2]) (simp_all add: map_find_def numeral_nat)
  then show ?thesis
    using calc_gaps_exact [of ?m "?B False" _ 11] unfolding Let_def by (simp add: map_find_def)
qed

text \<open>
  C8: a proper subset of the fragments of the next message, received in any order without
  repetition, is never delivered: next_message finds nothing and leaves the stream as it is.
\<close>

theorem incomplete_not_delivered:
  assumes "map_ok (st_messages r)" and "map_find (st_messages r) (st_next_recv_ssn r) = None"
    and "distinct fcs" and "length frs \<le> 256"
    and "set fcs \<subset> set (frag_chunks (st_stream_id r) (st_next_recv_ssn r) ppid True frs tsn)"
  shows "sctp_stream_next_message (recv_all clk fcs r) = (None, recv_all clk fcs r)"
  using assms by (rule partial_next_message)

theorem incomplete_not_delivered_witness:
  "let fcs = [(cf_end, \<lparr>dc_tsn = 10, dc_stream_id = 1, dc_stream_sequence = 0, dc_ppid = ppid_binary, dc_payload = [2]\<rparr>)];
       r = recv_all (\<lambda>_. 0) fcs (sctp_stream_new 1 0 True)
   in sctp_stream_next_message r = (None, r)"
proof -
  let ?fcs = "[(cf_end, \<lparr>dc_tsn = 10, dc_stream_id = 1, dc_stream_sequence = 0, dc_ppid = ppid_binary, dc_payload = [2]\<rparr>)]"
  have "set ?fcs \<subset> set (frag_chunks 1 0 ppid_binary True [[1], [2]] 9)"
    by (simp add: frag_flags_def psubset_eq)
  then show ?thesis
    using incomplete_not_delivered [of "sctp_stream_new 1 0 True" ?fcs "[[1], [2]]" ppid_binary 9 "\<lambda>_. 0"]
    unfolding Let_def by (simp add: sctp_stream_new_def)
qed

end
