(* ===== verification/Crc_Table.thy ===== *)
theory Crc_Table
  imports Prelude
begin

text \<open>
  Reflected 32-bit CRCs driven by a table of 256 entries: what \<open>sys2/security/crc32c.c\<close> and
  \<open>sys2/security/crc32.c\<close> have in common. The bit-serial CRC of a polynomial is the reference;
  the locale \<open>crc_table\<close> states when a table belongs to a polynomial, by relations between
  neighbouring entries, and derives that the table computes the reference and that a change of
  one byte changes the checksum.
\<close>

unbundle bit_operations_syntax

section \<open>The bitwise reference\<close>

definition crc_bit :: "u32 \<Rightarrow> u32 \<Rightarrow> u32" where
  "crc_bit poly c = (if bit c 0 then drop_bit 1 c XOR poly else drop_bit 1 c)"

definition crc_byte :: "u32 \<Rightarrow> u32 \<Rightarrow> byte \<Rightarrow> u32" where
  "crc_byte poly c d = (crc_bit poly ^^ 8) (c XOR ucast d)"

text \<open>One step through a table, and a whole buffer.\<close>

definition crc_step :: "u32 list \<Rightarrow> u32 \<Rightarrow> byte \<Rightarrow> u32" where
  "crc_step tab c d = drop_bit 8 c XOR tab ! unat ((c XOR ucast d) AND 0xFF)"

lemma crc_bit_xor: "crc_bit p (a XOR b) = crc_bit p a XOR crc_bit p b"
  by (auto simp: crc_bit_def bit_simps ac_simps)

lemma crc_bits_xor: "(crc_bit p ^^ n) (a XOR b) = (crc_bit p ^^ n) a XOR (crc_bit p ^^ n) b"
  by (induction n) (simp_all add: crc_bit_xor)

lemma crc_bits_shift: "take_bit n c = 0 \<Longrightarrow> (crc_bit p ^^ n) c = drop_bit n c"
proof (induction n)
  case (Suc n)
  then have z: "\<And>k. k \<le> n \<Longrightarrow> \<not> bit c k"
    by (metis bit_0_eq bit_take_bit_iff bot_apply bot_bool_def less_Suc_eq_le)
  then have "take_bit n c = 0"
    by (intro bit_eqI) (auto simp: bit_simps)
  then have "(crc_bit p ^^ n) c = drop_bit n c"
    by (rule Suc.IH)
  moreover have "\<not> bit (drop_bit n c) 0"
    using z [of n] by (simp add: bit_simps)
  ultimately show ?case
    by (simp add: crc_bit_def [of _ "drop_bit n c"])
qed simp

lemma xor_right_cancel: "a XOR c = b XOR c \<Longrightarrow> a = (b :: 'a::len word)"
  by (metis xor.assoc xor.right_neutral xor_self_eq)

text \<open>
  Entry \<open>2j\<close> is the one from which one bit step leads to entry \<open>j\<close>, and entry \<open>2j + 1\<close>
  differs from entry \<open>2j\<close> by entry 1. As bit steps are injective and distribute over XOR,
  these local relations determine the whole table.
\<close>

fun crc_table_rel :: "u32 \<Rightarrow> u32 \<Rightarrow> u32 list \<Rightarrow> u32 list \<Rightarrow> bool" where
  "crc_table_rel p t (a # as) (e # x # rest) \<longleftrightarrow>
     crc_bit p e = a \<and> x = e XOR t \<and> crc_table_rel p t as rest"
| "crc_table_rel p t _ _ \<longleftrightarrow> True"

lemma crc_table_rel_nth:
  "crc_table_rel p t as bs \<Longrightarrow> 2 * j + 1 < length bs \<Longrightarrow> j < length as \<Longrightarrow>
   crc_bit p (bs ! (2 * j)) = as ! j \<and> bs ! (2 * j + 1) = bs ! (2 * j) XOR t"
proof (induction p t as bs arbitrary: j rule: crc_table_rel.induct)
  case (1 p t a as e x rest)
  then show ?case by (cases j) simp_all
qed auto

lemma crc_bit_double: "j < 128 \<Longrightarrow> crc_bit p (word_of_nat (2 * j)) = word_of_nat j"
proof -
  assume "j < 128"
  then have "drop_bit 1 (word_of_nat (2 * j) :: u32) = word_of_nat j"
    by (simp add: drop_bit_eq_div word_unat_eq_iff unat_div unat_of_nat unat_word_ariths)
  then show ?thesis
    by (simp add: crc_bit_def bit_0)
qed

section \<open>Tables\<close>

locale crc_table =
  fixes poly :: u32 and tab :: "u32 list"
  assumes poly_top: "bit poly 31"
    and tab_length: "length tab = 256"
    and tab_first: "hd tab = 0"
    and tab_one: "tab ! 1 = (crc_bit poly ^^ 8) 1"
    and tab_rel: "crc_table_rel poly (tab ! 1) tab tab"
begin

lemma crc_bit_inj: "inj (crc_bit poly)"
proof (rule injI)
  fix a b assume eq: "crc_bit poly a = crc_bit poly b"
  have top: "bit (crc_bit poly c) 31 = bit c 0" for c
    by (auto simp: crc_bit_def poly_top bit_simps dest: bit_imp_le_length)
  from eq have low: "bit a 0 = bit b 0"
    using top [of a] top [of b] by simp
  with eq have "drop_bit 1 a = drop_bit 1 b"
    by (auto simp: crc_bit_def dest: xor_right_cancel split: if_splits)
  then have "bit a (Suc n) = bit b (Suc n)" for n
    by (metis bit_drop_bit_eq comp_apply plus_1_eq_Suc)
  with low show "a = b"
    by (intro bit_eqI) (metis not0_implies_Suc)
qed

lemma crc_byte_inj_state: "crc_byte poly c d = crc_byte poly c' d \<Longrightarrow> c = c'"
proof -
  assume "crc_byte poly c d = crc_byte poly c' d"
  then have "c XOR ucast d = c' XOR ucast d"
    unfolding crc_byte_def using inj_fn [OF crc_bit_inj] by (metis injD)
  then show ?thesis
    by (rule xor_right_cancel)
qed

lemma crc_byte_inj_data: "crc_byte poly c d = crc_byte poly c d' \<Longrightarrow> d = d'"
proof -
  assume "crc_byte poly c d = crc_byte poly c d'"
  then have "c XOR ucast d = c XOR ucast d'"
    unfolding crc_byte_def using inj_fn [OF crc_bit_inj] by (metis injD)
  then have "(ucast d :: u32) = ucast d'"
    by (metis xor.commute xor_right_cancel)
  then have b: "bit (ucast d :: u32) n = bit (ucast d' :: u32) n" for n
    by simp
  show "d = d'"
  proof (rule bit_word_eqI)
    fix n assume "n < LENGTH(8)"
    with b [of n] show "bit d n = bit d' n"
      by (simp add: bit_simps)
  qed
qed

lemma crc_bits_odd:
  "(crc_bit poly ^^ 8) (word_of_nat (2 * j + 1)) = (crc_bit poly ^^ 8) (word_of_nat (2 * j)) XOR tab ! 1"
proof -
  have "(word_of_nat (2 * j + 1) :: u32) = word_of_nat (2 * j) XOR 1"
    by (simp add: xor_one_eq)
  then show ?thesis
    by (simp only: crc_bits_xor tab_one)
qed

lemma tab_nth: "i < 256 \<Longrightarrow> tab ! i = (crc_bit poly ^^ 8) (word_of_nat i)"
proof (induction i rule: less_induct)
  case (less i)
  define j where "j = i div 2"
  have even_case: "tab ! (2 * j) = (crc_bit poly ^^ 8) (word_of_nat (2 * j))"
  proof (cases "j = 0")
    case True
    moreover have "tab ! 0 = 0"
      using tab_first tab_length by (cases tab) auto
    ultimately show ?thesis
      using crc_bits_shift [of 8 0 poly] by simp
  next
    case False
    then have j: "j < i" "j < 128"
      using less.prems by (auto simp: j_def)
    have "crc_bit poly (tab ! (2 * j)) = tab ! j"
      using crc_table_rel_nth [OF tab_rel, of j] j less.prems by (simp add: j_def tab_length)
    also have "\<dots> = (crc_bit poly ^^ 8) (crc_bit poly (word_of_nat (2 * j)))"
      using less.IH [OF j(1)] j(2) by (simp only: crc_bit_double)
    also have "\<dots> = crc_bit poly ((crc_bit poly ^^ 8) (word_of_nat (2 * j)))"
      by (simp add: funpow_swap1)
    finally show ?thesis
      using crc_bit_inj by (metis injD)
  qed
  show ?case
  proof (cases "even i")
    case True
    with even_case show ?thesis by (simp add: j_def)
  next
    case False
    then have i: "i = 2 * j + 1" by (simp add: j_def)
    have "tab ! (2 * j + 1) = tab ! (2 * j) XOR tab ! 1"
      using crc_table_rel_nth [OF tab_rel, of j] less.prems i by (simp add: tab_length)
    with even_case show ?thesis
      unfolding i by (simp only: crc_bits_odd)
  qed
qed

text \<open>The index of the table access is always in range.\<close>

lemma crc_index_less: "unat (x AND 0xFF :: u32) < length tab"
  using take_bit_nat_less_exp [of 8 "unat x"] by (simp add: and_FF unsigned_take_bit_eq tab_length)

lemma step_bitwise: "crc_step tab c d = crc_byte poly c d"
proof -
  let ?x = "c XOR ucast d :: u32"
  let ?h = "?x XOR take_bit 8 ?x"
  have "take_bit 8 ?h = 0"
    by (rule bit_word_eqI) (auto simp: bit_simps)
  then have hi: "(crc_bit poly ^^ 8) ?h = drop_bit 8 ?h"
    by (rule crc_bits_shift)
  have "drop_bit 8 ?h = drop_bit 8 c"
    by (rule bit_word_eqI) (auto simp: bit_simps dest: bit_imp_le_length)
  moreover have "tab ! unat (?x AND 0xFF) = (crc_bit poly ^^ 8) (take_bit 8 ?x)"
    using tab_nth [of "unat (?x AND 0xFF)"] crc_index_less [of ?x] by (simp add: and_FF tab_length)
  moreover have "crc_byte poly c d = (crc_bit poly ^^ 8) (?h XOR take_bit 8 ?x)"
    by (simp add: crc_byte_def xor.assoc)
  ultimately show ?thesis
    by (simp only: crc_step_def crc_bits_xor [of 8 poly ?h "take_bit 8 ?x"] hi)
qed

lemma bytes_bitwise: "foldl (crc_step tab) c ds = foldl (crc_byte poly) c ds"
  by (induction ds arbitrary: c) (simp_all add: step_bitwise)

lemma bytes_inj: "foldl (crc_step tab) c ds = foldl (crc_step tab) c' ds \<Longrightarrow> c = c'"
  by (induction ds arbitrary: c c') (auto simp: step_bitwise dest: crc_byte_inj_state)

text \<open>A change of a single byte always changes the checksum.\<close>

lemma single_byte:
  assumes "d \<noteq> d'"
  shows "foldl (crc_step tab) c (xs @ d # ys) \<noteq> foldl (crc_step tab) c (xs @ d' # ys)"
proof
  assume "foldl (crc_step tab) c (xs @ d # ys) = foldl (crc_step tab) c (xs @ d' # ys)"
  then have "crc_step tab (foldl (crc_step tab) c xs) d = crc_step tab (foldl (crc_step tab) c xs) d'"
    by (auto dest: bytes_inj)
  with assms show False
    by (auto simp: step_bitwise dest: crc_byte_inj_data)
qed

end

end
