(* ===== verification/Sctp_Packet.thy ===== *)
theory Sctp_Packet
  imports Sctp_Chunk Crc32c
begin

text \<open>
  SCTP packets: the common header (\<open>rtpx/sctp/sctp_header.h\<close>, \<open>sctp_header.cpp\<close>), the
  sequence of chunks and the checksum over both (\<open>sctp_packet.h\<close>, \<open>sctp_packet.cpp\<close>).
\<close>

unbundle bit_operations_syntax

section \<open>Header\<close>

record sctp_header =
  hd_src_port :: u16
  hd_dst_port :: u16
  hd_verification_tag :: u32
  hd_checksum :: u32

definition sctp_header_new :: sctp_header where
  "sctp_header_new =
     \<lparr>hd_src_port = 0, hd_dst_port = 0, hd_verification_tag = 0, hd_checksum = 0\<rparr>"

definition sctp_header_deserialize :: "sctp_header \<Rightarrow> bytes \<Rightarrow> (bool \<times> sctp_header) cxx" where
  "sctp_header_deserialize this data =
     (let size = length data in
      if size \<le> 12 then Some (False, this)
      else do {
        sp \<leftarrow> rd16 data 0;
        dp \<leftarrow> rd16 data 2;
        vt \<leftarrow> rd32 data 4;
        cs \<leftarrow> rd32 data 8;
        Some (True, this\<lparr>hd_src_port := sp, hd_dst_port := dp, hd_verification_tag := vt,
                         hd_checksum := cs\<rparr>) })"

definition sctp_header_serialize :: "sctp_header \<Rightarrow> bytes" where
  "sctp_header_serialize this =
     b16 (hd_src_port this) @ b16 (hd_dst_port this) @ b32 (hd_verification_tag this) @
     b32 (hd_checksum this)"

section \<open>Packet\<close>

record sctp_packet =
  pk_header :: sctp_header
  pk_chunks :: "sctp_chunk list"

definition sctp_packet_new :: sctp_packet where
  "sctp_packet_new = \<lparr>pk_header = sctp_header_new, pk_chunks = []\<rparr>"

definition sctp_packet_deserialize :: "sctp_packet \<Rightarrow> bytes \<Rightarrow> (bool \<times> sctp_packet) cxx" where
  "sctp_packet_deserialize this data = do {
     (r, h) \<leftarrow> sctp_header_deserialize (pk_header this) data;
     let this = this\<lparr>pk_header := h\<rparr>;
     if \<not> r then Some (False, this)
     else do {
       (r, cs) \<leftarrow> parse_loop (sctp_chunk_deserialize sctp_chunk_default) (drop 12 data)
                    (pk_chunks this);
       Some (r, this\<lparr>pk_chunks := cs\<rparr>) } }"

definition sctp_packet_serialize :: "sctp_packet \<Rightarrow> bytes \<times> sctp_packet" where
  "sctp_packet_serialize this =
     (sctp_header_serialize (pk_header this) @
      concat (map (fst \<circ> sctp_chunk_serialize) (pk_chunks this)),
      this\<lparr>pk_chunks := map (snd \<circ> sctp_chunk_serialize) (pk_chunks this)\<rparr>)"

definition sctp_packet_check_crc32 :: "bytes \<Rightarrow> u32" where
  "sctp_packet_check_crc32 data =
     (let size = length data in
      if size < 12 then 0
      else
        let crc32 = NOT 0 :: u32;
            crc32 = CRC32C_bytes crc32 (take 8 data);
            crc32 = CRC32C_bytes crc32 (replicate 4 0);
            crc32 = CRC32C_bytes crc32 (drop 12 data);
            result = NOT crc32;
            byte0 = ucast (result AND 0xFF) :: byte;
            byte1 = ucast (drop_bit 8 result AND 0xFF);
            byte2 = ucast (drop_bit 16 result AND 0xFF);
            byte3 = ucast (drop_bit 24 result AND 0xFF)
        in be32 byte0 byte1 byte2 byte3)"

text \<open>\<open>sign_crc32\<close> writes through its pointer: the buffer is returned with the result.\<close>

definition sctp_packet_sign_crc32 :: "bytes \<Rightarrow> bool \<times> bytes" where
  "sctp_packet_sign_crc32 data =
     (let size = length data in
      if size < 12 then (False, data)
      else
        let crc32 = sctp_packet_check_crc32 data
        in if crc32 = 0 then (False, data)
           else (True, data[8 := ucast (drop_bit 24 crc32), 9 := ucast (drop_bit 16 crc32),
                            10 := ucast (drop_bit 8 crc32), 11 := ucast crc32]))"

definition sctp_packet_add_chunk ::
  "sctp_chunk_type \<Rightarrow> sctp_chunk_flags \<Rightarrow> bytes \<Rightarrow> sctp_packet \<Rightarrow> sctp_packet" where
  "sctp_packet_add_chunk ty fl pl this =
     this\<lparr>pk_chunks := pk_chunks this @
       [sctp_chunk_default\<lparr>ck_type := ty, ck_flags := fl, ck_payload := pl\<rparr>]\<rparr>"

section \<open>Round trip\<close>

lemma length_header_serialize [simp]: "length (sctp_header_serialize h) = 12"
  by (simp add: sctp_header_serialize_def)

lemma header_roundtrip:
  "rest \<noteq> [] \<Longrightarrow>
   sctp_header_deserialize sctp_header_new (sctp_header_serialize h @ rest) = Some (True, h)"
  by (simp add: sctp_header_deserialize_def sctp_header_serialize_def sctp_header_new_def Let_def)

lemma header_deserialize_defined: "sctp_header_deserialize this data \<noteq> None"
  by (auto simp: sctp_header_deserialize_def Let_def rd16_in rd32_in)

lemma packet_deserialize_serialize:
  assumes "pk_chunks p \<noteq> []"
    and "length (fst (sctp_packet_serialize p)) \<le> 12 + SCTP_MAX_CHUNK_SIZE"
  shows "sctp_packet_deserialize sctp_packet_new (fst (sctp_packet_serialize p)) =
         Some (True, snd (sctp_packet_serialize p))"
proof -
  let ?body = "concat (map (fst \<circ> sctp_chunk_serialize) (pk_chunks p))"
  have ne: "?body \<noteq> []"
    using assms(1) chunk_serialize_nonempty by (cases "pk_chunks p") auto
  have "parse_loop (sctp_chunk_deserialize sctp_chunk_default) ?body [] =
        Some (True, map (snd \<circ> sctp_chunk_serialize) (pk_chunks p))"
    using assms(2) chunks.parse_loop_concat [of "pk_chunks p" "[]"]
    by (simp add: sctp_packet_serialize_def list_all_iff)
  then show ?thesis
    using header_roundtrip [OF ne, of "pk_header p"]
    by (simp add: sctp_packet_deserialize_def sctp_packet_serialize_def sctp_packet_new_def)
qed

section \<open>Checksum\<close>

lemma check_crc32_ignores_field:
  assumes "length data = length data'" and "take 8 data = take 8 data'"
    and "drop 12 data = drop 12 data'"
  shows "sctp_packet_check_crc32 data = sctp_packet_check_crc32 data'"
  using assms by (simp add: sctp_packet_check_crc32_def)

lemma sign_then_check:
  assumes "sctp_packet_sign_crc32 data = (True, data')"
  shows "length data' = length data" and "rd32 data' 8 = Some (sctp_packet_check_crc32 data')"
    and "sctp_packet_check_crc32 data' = sctp_packet_check_crc32 data"
    and "take 8 data' = take 8 data" and "drop 12 data' = drop 12 data"
proof -
  let ?c = "sctp_packet_check_crc32 data"
  have sz: "12 \<le> length data"
    and d: "data' = data[8 := ucast (drop_bit 24 ?c), 9 := ucast (drop_bit 16 ?c),
                  10 := ucast (drop_bit 8 ?c), 11 := ucast ?c]"
    using assms by (auto simp: sctp_packet_sign_crc32_def Let_def split: if_splits)
  show len: "length data' = length data" by (simp add: d)
  show t: "take 8 data' = take 8 data" by (simp add: d take_update_swap list_update_beyond)
  show dr: "drop 12 data' = drop 12 data" by (simp add: d)
  show c: "sctp_packet_check_crc32 data' = ?c"
    by (rule check_crc32_ignores_field [OF len t dr])
  show "rd32 data' 8 = Some (sctp_packet_check_crc32 data')"
    using sz unfolding c by (simp add: d rd32_def rd8_def)
qed

text \<open>The bytes that enter the checksum, with the checksum field read as zero.\<close>

definition crc_input :: "bytes \<Rightarrow> bytes" where
  "crc_input data = take 8 data @ replicate 4 0 @ drop 12 data"

lemma check_crc32_input:
  assumes "12 \<le> length data"
  shows "b32 (sctp_packet_check_crc32 data) = rev (b32 (NOT (crc32c (crc_input data))))"
proof -
  let ?r = "NOT (crc32c (crc_input data))"
  have "sctp_packet_check_crc32 data =
    be32 (ucast ?r) (ucast (drop_bit 8 ?r)) (ucast (drop_bit 16 ?r)) (ucast (drop_bit 24 ?r))"
    using assms by (simp add: sctp_packet_check_crc32_def crc_input_def crc32c_def
        CRC32C_bytes_append Let_def)
  then show ?thesis
    by (simp only: b32_be32) (simp add: b32_def)
qed

lemma crc_input_update:
  assumes "12 \<le> length data" and "i < 8 \<or> 12 \<le> i"
  shows "crc_input (data[i := b]) = (crc_input data)[i := b]"
  using assms
  by (auto simp: crc_input_def take_update_swap drop_update_swap list_update_append min_def
      list_update_beyond)

lemma b32_inject: "b32 v = b32 w \<longleftrightarrow> v = w"
  unfolding b32_def using be32_bytes by (metis list.inject ucast_and_FF)

lemma check_crc32_detects_byte:
  assumes "12 \<le> length data" and "i < length data" and "i < 8 \<or> 12 \<le> i" and "b \<noteq> data ! i"
  shows "sctp_packet_check_crc32 (data[i := b]) \<noteq> sctp_packet_check_crc32 data"
proof
  assume "sctp_packet_check_crc32 (data[i := b]) = sctp_packet_check_crc32 data"
  then have "rev (b32 (NOT (crc32c (crc_input (data[i := b]))))) =
             rev (b32 (NOT (crc32c (crc_input data))))"
    using assms(1) check_crc32_input [of data] check_crc32_input [of "data[i := b]"] by simp
  then have eq: "crc32c ((crc_input data)[i := b]) = crc32c (crc_input data)"
    using assms(1,3) by (simp add: b32_inject crc_input_update)
  have i: "i < length (crc_input data)" "crc_input data ! i = data ! i"
    using assms by (auto simp: crc_input_def nth_append)
  let ?xs = "take i (crc_input data)" and ?ys = "drop (Suc i) (crc_input data)"
  have "(crc_input data)[i := b] = ?xs @ b # ?ys"
    using i(1) by (rule upd_conv_take_nth_drop)
  moreover have "crc_input data = ?xs @ (data ! i) # ?ys"
    using id_take_nth_drop [OF i(1)] i(2) by simp
  ultimately have "CRC32C_bytes (NOT 0) (?xs @ b # ?ys) = CRC32C_bytes (NOT 0) (?xs @ (data ! i) # ?ys)"
    using eq unfolding crc32c_def by metis
  with CRC32C_single_byte [OF assms(4)] show False by blast
qed

section \<open>Properties of the packet\<close>

text \<open>
  C14: a packet with at least one chunk whose chunks take at most 4096 bytes is read back from
  its serialization, header and every chunk, with the length fields serialization filled in.
\<close>

theorem packet_roundtrip:
  assumes "pk_chunks p \<noteq> []"
    and "length (fst (sctp_packet_serialize p)) \<le> 12 + SCTP_MAX_CHUNK_SIZE"
  shows "sctp_packet_deserialize sctp_packet_new (fst (sctp_packet_serialize p)) =
         Some (True, snd (sctp_packet_serialize p))"
  using assms by (rule packet_deserialize_serialize)

theorem packet_roundtrip_witness:
  "let p = sctp_packet_add_chunk ct_cookie_ack cf_none [1] (sctp_packet_add_chunk ct_data cf_end [5, 6] sctp_packet_new)
   in sctp_packet_deserialize sctp_packet_new (fst (sctp_packet_serialize p)) =
         Some (True, snd (sctp_packet_serialize p))"
  unfolding Let_def by (rule packet_roundtrip) code_simp+

text \<open>
  C15: signing a datagram only writes the checksum field, the stored checksum is the one
  check_crc32 computes, and replacing any single byte outside the field makes the two differ.
\<close>

theorem sign_detects_corruption:
  assumes "sctp_packet_sign_crc32 data = (True, data')"
    and "i < length data'" and "i < 8 \<or> 12 \<le> i" and "b \<noteq> data' ! i"
  shows "rd32 data' 8 = Some (sctp_packet_check_crc32 data') \<and>
         take 8 data' = take 8 data \<and> drop 12 data' = drop 12 data \<and>
         rd32 data' 8 \<noteq> Some (sctp_packet_check_crc32 (data'[i := b]))"
proof -
  note s = sign_then_check [OF assms(1)]
  have "12 \<le> length data'"
    using s(2) by (auto simp: rd32_def rd8_def bind_eq_Some_conv split: if_splits)
  from check_crc32_detects_byte [OF this assms(2,3,4)] s show ?thesis by simp
qed

theorem sign_detects_corruption_witness:
  "let data' = snd (sctp_packet_sign_crc32 (replicate 13 1))
   in rd32 data' 8 \<noteq> Some (sctp_packet_check_crc32 (data'[12 := 2]))"
proof -
  have "sctp_packet_sign_crc32 (replicate 13 1) = (True, snd (sctp_packet_sign_crc32 (replicate 13 1)))"
    and "12 < length (snd (sctp_packet_sign_crc32 (replicate 13 1)))"
    and "2 \<noteq> snd (sctp_packet_sign_crc32 (replicate 13 1)) ! 12"
    by code_simp+
  from sign_detects_corruption [OF this(1,2) disjI2 [OF order_refl] this(3)] show ?thesis
    unfolding Let_def by blast
qed

end
