(* ===== verification/Sctp_Assoc.thy ===== *)
theory Sctp_Assoc
  imports Stream_Transfer Sctp_Packet "HOL-Library.Signed_Division"
begin

text \<open>
  The association: \<open>rtpx/sctp/sctp.h\<close> and \<open>sctp.cpp\<close>. One state record \<open>sctp\<close>; every member
  function is a definition that takes the record and returns it updated, in \<open>cxx\<close> where the
  C++ code can reach undefined behaviour.

  \<^item> \<open>sys::util::cur_time_ms()\<close>: \<open>sa_clock\<close> holds the readings still to come, one is consumed
    by each call.
  \<^item> The handlers bound by \<open>bind_*\<close> are the booleans \<open>sa_on_*\<close> (set or empty), and their calls,
    with their arguments and in order, are recorded in \<open>sa_trace\<close>. A handler that calls back
    into the association from inside a callback is not modelled.
  \<^item> \<open>sa_state_timer\<close> and \<open>sa_ack_timer\<close> hold the seconds of the pending wait of the two asio
    timers. The results of \<open>uuid()\<close> and \<open>random_number\<close> are arguments of \<open>open\<close>.
\<close>

unbundle bit_operations_syntax

section \<open>State\<close>

datatype sctp_state = sctp_none | sctp_connecting | sctp_connected | sctp_closed

text \<open>\<open>asio::ip::udp::endpoint\<close>: stored and handed to the send handler, never inspected.\<close>

type_synonym endpoint = "bytes \<times> u16"

datatype sctp_event =
    Ev_send_data bytes endpoint
  | Ev_connected
  | Ev_disconnected
  | Ev_heartbeat
  | Ev_stream_opened u16
  | Ev_stream_closed u16
  | Ev_stream_message u16 bytes

record sctp =
  sa_on_connected :: bool
  sa_on_disconnected :: bool
  sa_on_send_data :: bool
  sa_on_heartbeat :: bool
  sa_on_stream_opened :: bool
  sa_on_stream_closed :: bool
  sa_on_stream_message :: bool
  sa_state_timer :: "nat option"
  sa_ack_timer :: "nat option"
  sa_remote_endpoint :: endpoint
  sa_active :: bool
  sa_state :: sctp_state
  sa_state_updated_at :: int
  sa_local_port :: u16
  sa_remote_port :: u16
  sa_local_tag :: u32
  sa_remote_tag :: u32
  sa_local_arwnd :: u32
  sa_remote_arwnd :: u32
  sa_local_tsn :: u32
  sa_remote_init_tsn :: u32
  sa_local_cookie :: bytes
  sa_remote_cookie :: bytes
  sa_init_stream_id :: u16
  sa_streams :: "(u16, sctp_stream) std_map"
  sa_clock :: "nat \<Rightarrow> int"
  sa_trace :: "sctp_event list"

definition sctp_new :: "(nat \<Rightarrow> int) \<Rightarrow> sctp" where
  "sctp_new clk =
     \<lparr>sa_on_connected = False, sa_on_disconnected = False, sa_on_send_data = False,
      sa_on_heartbeat = False, sa_on_stream_opened = False, sa_on_stream_closed = False,
      sa_on_stream_message = False, sa_state_timer = None, sa_ack_timer = None,
      sa_remote_endpoint = ([], 0), sa_active = False, sa_state = sctp_none,
      sa_state_updated_at = 0, sa_local_port = 0, sa_remote_port = 0, sa_local_tag = 0,
      sa_remote_tag = 0, sa_local_arwnd = 0x00100000, sa_remote_arwnd = 0, sa_local_tsn = 0,
      sa_remote_init_tsn = 0, sa_local_cookie = [], sa_remote_cookie = [],
      sa_init_stream_id = 0, sa_streams = [], sa_clock = clk, sa_trace = []\<rparr>"

definition sctp_bind_connected_handler :: "bool \<Rightarrow> sctp \<Rightarrow> sctp" where
  "sctp_bind_connected_handler h s = s\<lparr>sa_on_connected := h\<rparr>"
definition sctp_bind_disconnected_handler :: "bool \<Rightarrow> sctp \<Rightarrow> sctp" where
  "sctp_bind_disconnected_handler h s = s\<lparr>sa_on_disconnected := h\<rparr>"
definition sctp_bind_send_data_handler :: "bool \<Rightarrow> sctp \<Rightarrow> sctp" where
  "sctp_bind_send_data_handler h s = s\<lparr>sa_on_send_data := h\<rparr>"
definition sctp_bind_heartbeat_handler :: "bool \<Rightarrow> sctp \<Rightarrow> sctp" where
  "sctp_bind_heartbeat_handler h s = s\<lparr>sa_on_heartbeat := h\<rparr>"
definition sctp_bind_stream_opened_handler :: "bool \<Rightarrow> sctp \<Rightarrow> sctp" where
  "sctp_bind_stream_opened_handler h s = s\<lparr>sa_on_stream_opened := h\<rparr>"
definition sctp_bind_stream_closed_handler :: "bool \<Rightarrow> sctp \<Rightarrow> sctp" where
  "sctp_bind_stream_closed_handler h s = s\<lparr>sa_on_stream_closed := h\<rparr>"
definition sctp_bind_stream_message_handler :: "bool \<Rightarrow> sctp \<Rightarrow> sctp" where
  "sctp_bind_stream_message_handler h s = s\<lparr>sa_on_stream_message := h\<rparr>"

definition sctp_set_remote_endpoint :: "endpoint \<Rightarrow> sctp \<Rightarrow> sctp" where
  "sctp_set_remote_endpoint ep s = s\<lparr>sa_remote_endpoint := ep\<rparr>"
definition sctp_set_init_stream_id :: "u16 \<Rightarrow> sctp \<Rightarrow> sctp" where
  "sctp_set_init_stream_id sid s = s\<lparr>sa_init_stream_id := sid\<rparr>"

text \<open>\<open>emit b e\<close>: call the handler, if it is set.\<close>

definition emit :: "bool \<Rightarrow> sctp_event \<Rightarrow> sctp \<Rightarrow> sctp" where
  "emit b e s = (if b then s\<lparr>sa_trace := sa_trace s @ [e]\<rparr> else s)"

text \<open>The next reading of the clock, and the clock after \<open>n\<close> readings.\<close>

definition sctp_now :: "sctp \<Rightarrow> int" where
  "sctp_now s = sa_clock s 0"

definition sctp_tick :: "nat \<Rightarrow> sctp \<Rightarrow> sctp" where
  "sctp_tick n s = s\<lparr>sa_clock := (\<lambda>i. sa_clock s (n + i))\<rparr>"

definition sctp_set_state :: "sctp_state \<Rightarrow> sctp \<Rightarrow> sctp" where
  "sctp_set_state st s = sctp_tick 1 (s\<lparr>sa_state := st, sa_state_updated_at := sctp_now s\<rparr>)"

definition sctp_get_last_state :: "sctp \<Rightarrow> (sctp_state \<times> bool) \<times> sctp" where
  "sctp_get_last_state s =
     (let ts = sctp_now s - sa_state_updated_at s
      in ((sa_state s, ts \<ge> 3000), sctp_tick 1 s))"

section \<open>Sending\<close>

definition sctp_send_chunks :: "sctp_chunk list \<Rightarrow> sctp \<Rightarrow> bool \<times> sctp" where
  "sctp_send_chunks chunks s =
     (let pkt = sctp_packet_new\<lparr>pk_header := sctp_header_new\<lparr>
                    hd_dst_port := sa_remote_port s, hd_src_port := sa_local_port s,
                    hd_verification_tag := sa_remote_tag s\<rparr>,
                  pk_chunks := chunks\<rparr>;
          (buf, _) = sctp_packet_serialize pkt;
          (r, buf) = sctp_packet_sign_crc32 buf
      in if \<not> r then (False, s)
         else (True, emit (sa_on_send_data s) (Ev_send_data buf (sa_remote_endpoint s)) s))"

definition sctp_send_chunk :: "sctp_chunk \<Rightarrow> sctp \<Rightarrow> bool \<times> sctp" where
  "sctp_send_chunk chunk s =
     (let pkt = sctp_packet_new\<lparr>pk_header := sctp_header_new\<lparr>
                    hd_dst_port := sa_remote_port s, hd_src_port := sa_local_port s,
                    hd_verification_tag := sa_remote_tag s\<rparr>\<rparr>;
          pkt = pkt\<lparr>pk_chunks := pk_chunks pkt @ [chunk]\<rparr>;
          (buf, _) = sctp_packet_serialize pkt;
          (r, buf) = sctp_packet_sign_crc32 buf
      in if \<not> r then (False, s)
         else (True, emit (sa_on_send_data s) (Ev_send_data buf (sa_remote_endpoint s)) s))"

definition sctp_send_data ::
  "sctp_chunk_type \<Rightarrow> sctp_chunk_flags \<Rightarrow> bytes \<Rightarrow> sctp \<Rightarrow> bool \<times> sctp" where
  "sctp_send_data ty fl pl s = sctp_send_chunk (sctp_chunk_new ty fl pl) s"

text \<open>
  The calls a stream makes of its \<open>on_send_data_\<close>, which the association binds to
  \<open>send_data\<close>; their results are not used by the stream.
\<close>

definition sctp_send_all :: "sctp_send list \<Rightarrow> sctp \<Rightarrow> sctp" where
  "sctp_send_all outs s = fold (\<lambda>(ty, fl, pl) s. snd (sctp_send_data ty fl pl s)) outs s"

text \<open>The block that answers with an ERROR chunk carrying one empty cause.\<close>

definition sctp_send_error :: "u16 \<Rightarrow> sctp \<Rightarrow> sctp" where
  "sctp_send_error cause s =
     (let err_chunk = \<lparr>er_parameters = [sctp_chunk_tlv_new\<lparr>tlv_type := cause\<rparr>]\<rparr>;
          (buf, _) = sctp_error_chunk_serialize err_chunk
      in snd (sctp_send_data ct_operational_error cf_none buf s))"

definition sctp_send_sack :: "sctp_message \<Rightarrow> sctp \<Rightarrow> sctp_message \<times> sctp" where
  "sctp_send_sack msg s =
     (let msg = sctp_message_calc_gaps msg;
          sack_chunk = sctp_sack_chunk_new\<lparr>sk_arwnd := sa_local_arwnd s,
             sk_tsn := ms_cumulative_tsn msg, sk_dups := ms_dups msg, sk_gaps := ms_gaps msg\<rparr>
      in (msg, snd (sctp_send_data ct_sack cf_unordered (sctp_sack_chunk_serialize sack_chunk) s)))"

text \<open>The INIT that \<open>connect\<close> sends and the state timer repeats.\<close>

definition sctp_send_init :: "sctp \<Rightarrow> bool \<times> sctp" where
  "sctp_send_init s =
     (let init_chunk = sctp_init_chunk_new\<lparr>in_arwnd := sa_local_arwnd s,
             in_init_tag := sa_local_tag s, in_init_tsn := sa_local_tsn s,
             in_num_in_stream := 16, in_num_out_stream := 16\<rparr>;
          (buf, _) = sctp_init_chunk_serialize init_chunk
      in sctp_send_data ct_init cf_none buf s)"

section \<open>Streams of the association\<close>

text \<open>\<open>n\<close> readings of the clock by one \<open>send\<close> of a stream: one per chunk it saves.\<close>

definition stream_send_reads :: "sctp_stream \<Rightarrow> bytes \<Rightarrow> nat" where
  "stream_send_reads st data =
     (if length (st_sent_messages st) > 10000 then 0
      else if length data < 1200 then 1 else length (split_data data))"

text \<open>\<open>stream->send(local_tsn_, data, ppid)\<close> for the stream registered under \<open>sid\<close>.\<close>

definition sctp_stream_send_on ::
  "u16 \<Rightarrow> sctp_stream \<Rightarrow> bytes \<Rightarrow> sctp_payload_protocol_id \<Rightarrow> sctp \<Rightarrow> bool \<times> sctp" where
  "sctp_stream_send_on sid st data ppid s =
     (let (r, tsn, outs, st') = sctp_stream_send (sa_clock s) (sa_local_tsn s) data ppid st;
          s = sctp_tick (stream_send_reads st data) s;
          s = s\<lparr>sa_local_tsn := tsn, sa_streams := map_write sid st' (sa_streams s)\<rparr>
      in (r, sctp_send_all outs s))"

text \<open>\<open>stream->close(local_tsn_)\<close>.\<close>

definition sctp_stream_close_on :: "u16 \<Rightarrow> sctp_stream \<Rightarrow> sctp \<Rightarrow> sctp" where
  "sctp_stream_close_on sid st s =
     (let (tsn, outs, st') = sctp_stream_close (sa_local_tsn s) st;
          s = s\<lparr>sa_local_tsn := tsn, sa_streams := map_write sid st' (sa_streams s)\<rparr>
      in sctp_send_all outs s)"

text \<open>
  The loops that close every stream: without a callback in \<open>close\<close>, and with
  \<open>on_stream_closed_\<close> first in the four handlers that end the association.
\<close>

definition sctp_close_loop :: "sctp \<Rightarrow> sctp" where
  "sctp_close_loop s = fold (\<lambda>(sid, st) s. sctp_stream_close_on sid st s) (sa_streams s) s"

definition sctp_notify_close_loop :: "sctp \<Rightarrow> sctp" where
  "sctp_notify_close_loop s =
     fold (\<lambda>(sid, st) s.
             sctp_stream_close_on sid st (emit (sa_on_stream_closed s) (Ev_stream_closed sid) s))
       (sa_streams s) s"

definition sctp_ensure_stream :: "u16 \<Rightarrow> sctp \<Rightarrow> sctp_stream \<times> sctp" where
  "sctp_ensure_stream sid s =
     (case map_find (sa_streams s) sid of
        None \<Rightarrow>
          let st = sctp_stream_new sid (sa_remote_init_tsn s) True
          in (st, s\<lparr>sa_streams := map_insert sid st (sa_streams s)\<rparr>)
      | Some st \<Rightarrow> (st, s))"

text \<open>The loop of \<open>make_next_stream_id\<close>; it gives up after \<open>0x7FFF\<close> rounds and returns 0.\<close>

fun next_stream_id_loop :: "nat \<Rightarrow> sctp \<Rightarrow> u32 \<times> sctp" where
  "next_stream_id_loop 0 s = (0, s)"
| "next_stream_id_loop (Suc n) s =
     (let stream_id = sa_init_stream_id s;
          s = s\<lparr>sa_init_stream_id := sa_init_stream_id s + 2\<rparr>
      in if map_find (sa_streams s) stream_id = None then (ucast stream_id, s)
         else next_stream_id_loop n s)"

definition sctp_make_next_stream_id :: "sctp \<Rightarrow> u32 \<times> sctp" where
  "sctp_make_next_stream_id s = next_stream_id_loop 0x7FFF s"

section \<open>Operations\<close>

definition sctp_open :: "u16 \<Rightarrow> bytes \<Rightarrow> u32 \<Rightarrow> u32 \<Rightarrow> sctp \<Rightarrow> bool \<times> sctp" where
  "sctp_open local_port uuid tag tsn s =
     (if sa_active s then (True, s)
      else (True, s\<lparr>sa_active := True, sa_state := sctp_none, sa_state_updated_at := 0,
                    sa_local_port := local_port, sa_local_cookie := uuid, sa_local_tag := tag,
                    sa_local_tsn := tsn, sa_state_timer := Some 3, sa_ack_timer := Some 1\<rparr>))"

definition sctp_connect :: "u16 \<Rightarrow> sctp \<Rightarrow> bool \<times> sctp" where
  "sctp_connect remote_port s =
     (if sa_local_port s = 0 then (False, s)
      else if sa_state s \<noteq> sctp_none then (True, s)
      else
        let s = s\<lparr>sa_remote_port := remote_port, sa_streams := []\<rparr>;
            (ret, s) = sctp_send_init s
        in (ret, sctp_set_state sctp_connecting s))"

definition sctp_close :: "sctp \<Rightarrow> sctp" where
  "sctp_close s =
     (let s = s\<lparr>sa_state := sctp_none, sa_state_updated_at := 0, sa_active := False\<rparr>;
          buf = sctp_shutdown_chunk_serialize \<lparr>sd_tsn = sa_local_tsn s\<rparr>;
          (_, s) = sctp_send_data ct_init cf_none buf s;
          s = s\<lparr>sa_state_timer := None, sa_ack_timer := None\<rparr>;
          s = sctp_close_loop s
      in s\<lparr>sa_streams := []\<rparr>)"

text \<open>\<open>label\<close> as the bytes of the string; the reference \<open>sid\<close> is returned.\<close>

definition sctp_create_stream :: "bytes \<Rightarrow> sctp \<Rightarrow> bool \<times> u16 \<times> sctp" where
  "sctp_create_stream label s =
     (let (id, s) = sctp_make_next_stream_id s;
          sid = ucast id;
          (st, s) = sctp_ensure_stream sid s;
          dopen = sctp_dcep_open_new\<lparr>do_message_type := dcep_data_channel_open,
            do_channel_type := dcep_reliable_unordered, do_reliability_parameter := 0,
            do_label := label\<rparr>;
          (r, s) = sctp_stream_send_on sid st (sctp_dcep_open_serialize dopen) ppid_dcep s
      in (r, sid, s))"

text \<open>\<open>streams_.erase(itr)\<close> is executed for \<open>itr == end()\<close> too, which is undefined.\<close>

definition sctp_close_stream :: "u16 \<Rightarrow> sctp \<Rightarrow> sctp cxx" where
  "sctp_close_stream sid s =
     (case map_find (sa_streams s) sid of
        None \<Rightarrow> None
      | Some st \<Rightarrow>
          let s = sctp_stream_close_on sid st s;
              s = emit (sa_on_stream_closed s) (Ev_stream_closed sid) s
          in Some (s\<lparr>sa_streams := map_erase sid (sa_streams s)\<rparr>))"

text \<open>The default payload protocol of \<open>sctp_stream::send\<close> is \<open>binary\<close>.\<close>

definition sctp_send_user_message :: "u16 \<Rightarrow> bytes \<Rightarrow> sctp \<Rightarrow> bool \<times> sctp" where
  "sctp_send_user_message sid data s =
     (case map_find (sa_streams s) sid of
        None \<Rightarrow> (False, s)
      | Some st \<Rightarrow> sctp_stream_send_on sid st data ppid_binary s)"

section \<open>Received chunks\<close>

definition sctp_on_init :: "sctp_header \<Rightarrow> sctp_chunk \<Rightarrow> sctp \<Rightarrow> sctp cxx" where
  "sctp_on_init header chunk s = do {
     (r, init) \<leftarrow> sctp_init_chunk_deserialize sctp_init_chunk_new (ck_payload chunk);
     if \<not> r then Some (sctp_send_error ec_protocol_violation s)
     else
       let s = s\<lparr>sa_streams := [], sa_remote_tag := in_init_tag init,
                 sa_remote_init_tsn := in_init_tsn init, sa_remote_port := hd_src_port header\<rparr>;
           cookie_tlv = sctp_chunk_tlv_new\<lparr>tlv_type := ipt_state_cookie,
             tlv_value := sa_local_cookie s\<rparr>;
           ack_chunk = sctp_init_chunk_new\<lparr>in_arwnd := sa_local_arwnd s,
             in_init_tag := sa_local_tag s, in_init_tsn := sa_local_tsn s,
             in_num_in_stream := 16, in_num_out_stream := 16, in_parameters := [cookie_tlv]\<rparr>;
           (buf, _) = sctp_init_chunk_serialize ack_chunk
       in Some (snd (sctp_send_data ct_init_ack cf_none buf s)) }"

definition sctp_on_init_ack :: "sctp_header \<Rightarrow> sctp_chunk \<Rightarrow> sctp \<Rightarrow> sctp cxx" where
  "sctp_on_init_ack header chunk s = do {
     (r, init_ack) \<leftarrow> sctp_init_chunk_deserialize sctp_init_chunk_new (ck_payload chunk);
     if \<not> r then Some (sctp_send_error ec_protocol_violation s)
     else case sctp_init_chunk_find_paramter init_ack ipt_state_cookie of
       None \<Rightarrow> Some (sctp_send_error ec_missing_mandatory_parameter s)
     | Some cookie \<Rightarrow>
         let s = s\<lparr>sa_remote_cookie := cookie\<rparr>;
             buf = sctp_cookie_echo_chunk_serialize \<lparr>ce_cookie = sa_remote_cookie s\<rparr>
         in Some (snd (sctp_send_data ct_cookie_echo cf_none buf s)) }"

definition sctp_on_cookie_echo :: "sctp_header \<Rightarrow> sctp_chunk \<Rightarrow> sctp \<Rightarrow> sctp cxx" where
  "sctp_on_cookie_echo header chunk s = do {
     (r, echo) \<leftarrow> sctp_cookie_echo_chunk_deserialize \<lparr>ce_cookie = []\<rparr> (ck_payload chunk)
                    (sctp_chunk_payload_length chunk);
     if \<not> r then Some (sctp_send_error ec_protocol_violation s)
     else if ce_cookie echo \<noteq> sa_local_cookie s then Some (sctp_send_error ec_stale_cookie_error s)
     else
       let (_, s) = sctp_send_data ct_cookie_ack cf_none [] s;
           s = sctp_set_state sctp_connected s
       in Some (emit (sa_on_connected s) Ev_connected s) }"

definition sctp_on_cookie_ack :: "sctp_header \<Rightarrow> sctp_chunk \<Rightarrow> sctp \<Rightarrow> sctp" where
  "sctp_on_cookie_ack header chunk s =
     (let s = sctp_set_state sctp_connected s in emit (sa_on_connected s) Ev_connected s)"

definition sctp_on_sack :: "sctp_header \<Rightarrow> sctp_chunk \<Rightarrow> sctp \<Rightarrow> sctp cxx" where
  "sctp_on_sack header chunk s = do {
     (r, sack) \<leftarrow> sctp_sack_chunk_deserialize sctp_sack_chunk_new (ck_payload chunk);
     if \<not> r then Some (sctp_send_error ec_protocol_violation s)
     else Some (s\<lparr>sa_streams :=
                    map (\<lambda>(sid, st). (sid, sctp_stream_process_sack sack st)) (sa_streams s)\<rparr>) }"

definition sctp_on_heartbeat :: "sctp_header \<Rightarrow> sctp_chunk \<Rightarrow> sctp \<Rightarrow> sctp cxx" where
  "sctp_on_heartbeat header chunk s = do {
     (r, hb) \<leftarrow> sctp_heartbeat_chunk_deserialize \<lparr>hb_parameters = []\<rparr> (ck_payload chunk);
     if \<not> r then Some (sctp_send_error ec_protocol_violation s)
     else
       let ack = \<lparr>hb_parameters = hb_parameters hb\<rparr>;
           (buf, _) = sctp_heartbeat_chunk_serialize ack;
           (_, s) = sctp_send_data ct_operational_error cf_none buf s
       in Some (emit (sa_on_heartbeat s) Ev_heartbeat s) }"

definition sctp_on_heartbeat_ack :: "sctp_header \<Rightarrow> sctp_chunk \<Rightarrow> sctp \<Rightarrow> sctp" where
  "sctp_on_heartbeat_ack header chunk s = emit (sa_on_heartbeat s) Ev_heartbeat s"

definition sctp_on_abort :: "sctp_header \<Rightarrow> sctp_chunk \<Rightarrow> sctp \<Rightarrow> sctp cxx" where
  "sctp_on_abort header chunk s =
     (let s = sctp_set_state sctp_closed s in do {
      (r, _) \<leftarrow> sctp_abort_chunk_deserialize \<lparr>ab_parameters = []\<rparr> (ck_payload chunk);
      if \<not> r then Some (sctp_send_error ec_protocol_violation s)
      else
        let s = sctp_notify_close_loop s;
            s = s\<lparr>sa_streams := []\<rparr>
        in Some (emit (sa_on_disconnected s) Ev_disconnected s) })"

definition sctp_on_shutdown :: "sctp_header \<Rightarrow> sctp_chunk \<Rightarrow> sctp \<Rightarrow> sctp" where
  "sctp_on_shutdown header chunk s =
     (let s = sctp_notify_close_loop s;
          s = s\<lparr>sa_streams := []\<rparr>;
          s = sctp_set_state sctp_closed s;
          (_, s) = sctp_send_data ct_shutdown_ack cf_none [] s
      in emit (sa_on_disconnected s) Ev_disconnected s)"

definition sctp_on_shutdown_ack :: "sctp_header \<Rightarrow> sctp_chunk \<Rightarrow> sctp \<Rightarrow> sctp" where
  "sctp_on_shutdown_ack header chunk s =
     (let s = sctp_notify_close_loop s;
          s = s\<lparr>sa_streams := []\<rparr>;
          s = sctp_set_state sctp_closed s
      in emit (sa_on_disconnected s) Ev_disconnected s)"

definition sctp_on_operational_error :: "sctp_header \<Rightarrow> sctp_chunk \<Rightarrow> sctp \<Rightarrow> sctp" where
  "sctp_on_operational_error header chunk s =
     (let s = sctp_notify_close_loop s;
          s = s\<lparr>sa_streams := []\<rparr>;
          s = sctp_set_state sctp_closed s
      in emit (sa_on_disconnected s) Ev_disconnected s)"

section \<open>Received data\<close>

text \<open>\<open>buf[0]\<close> of an empty message is undefined. \<open>sid\<close> names the stream object passed in.\<close>

definition sctp_on_dcep_message :: "u16 \<Rightarrow> sctp_message \<Rightarrow> sctp \<Rightarrow> sctp cxx" where
  "sctp_on_dcep_message sid msg s =
     (let (r, buf) = sctp_message_serialize msg in
      if \<not> r then Some s
      else do {
        msg_type \<leftarrow> rd8 buf 0;
        if msg_type = dcep_data_channel_open then do {
          (ok, _) \<leftarrow> sctp_dcep_open_deserialize sctp_dcep_open_new buf;
          if ok then do {
            st \<leftarrow> map_find (sa_streams s) sid;
            let (_, s) = sctp_stream_send_on sid st [dcep_data_channel_ack] ppid_dcep s;
            Some (emit (sa_on_stream_opened s) (Ev_stream_opened (ms_stream_id msg)) s) }
          else Some s }
        else if msg_type = dcep_data_channel_ack then
          Some (emit (sa_on_stream_opened s) (Ev_stream_opened (ms_stream_id msg)) s)
        else Some s })"

definition sctp_on_user_message :: "u16 \<Rightarrow> sctp_message \<Rightarrow> sctp \<Rightarrow> sctp cxx" where
  "sctp_on_user_message sid msg s =
     (case ms_blocks msg of
        [] \<Rightarrow> Some s
      | (_, first_block) # _ \<Rightarrow>
          let ppid = dc_ppid (bk_chunk first_block) in
          if ppid = ppid_dcep then sctp_on_dcep_message sid msg s
          else if ppid = ppid_empty_binary \<or> ppid = ppid_empty_string then
            (case map_find (sa_streams s) (ms_stream_id msg) of
               None \<Rightarrow> Some s
             | Some st \<Rightarrow>
                 let s = emit (sa_on_stream_closed s) (Ev_stream_closed (ms_stream_id msg)) s;
                     s = sctp_stream_close_on (ms_stream_id msg) st s
                 in Some (s\<lparr>sa_streams := map_erase (ms_stream_id msg) (sa_streams s)\<rparr>))
          else if ppid = ppid_binary \<or> ppid = ppid_string then
            let (r, buf) = sctp_message_serialize msg in
            if \<not> r then Some s
            else Some (emit (sa_on_stream_message s) (Ev_stream_message (ms_stream_id msg) buf) s)
          else Some s)"

section \<open>Frame lemmas\<close>

text \<open>Sending changes nothing but the trace; what is appended depends on the frame only.\<close>

definition sent :: "sctp \<Rightarrow> sctp_send \<Rightarrow> sctp_event list" where
  "sent s out = (case out of (ty, fl, pl) \<Rightarrow>
     let buf = fst (sctp_packet_serialize \<lparr>pk_header = \<lparr>hd_src_port = sa_local_port s,
                  hd_dst_port = sa_remote_port s, hd_verification_tag = sa_remote_tag s,
                  hd_checksum = 0\<rparr>, pk_chunks = [sctp_chunk_new ty fl pl]\<rparr>)
     in if fst (sctp_packet_sign_crc32 buf) \<and> sa_on_send_data s
        then [Ev_send_data (snd (sctp_packet_sign_crc32 buf)) (sa_remote_endpoint s)] else [])"

lemma send_data_eq:
  "snd (sctp_send_data ty fl pl s) = s\<lparr>sa_trace := sa_trace s @ sent s (ty, fl, pl)\<rparr>"
  by (auto simp: sctp_send_data_def sctp_send_chunk_def sent_def sctp_packet_new_def
      sctp_header_new_def emit_def Let_def split: prod.splits)

lemma sent_trace [simp]: "sent (s\<lparr>sa_trace := t\<rparr>) = sent s"
  by (simp add: sent_def fun_eq_iff Let_def split: prod.splits)

lemma send_all_eq:
  "sctp_send_all outs s = s\<lparr>sa_trace := sa_trace s @ concat (map (sent s) outs)\<rparr>"
  by (induction outs arbitrary: s) (auto simp: sctp_send_all_def send_data_eq)

lemma send_error_eq: "\<exists>t. sctp_send_error cause s = s\<lparr>sa_trace := sa_trace s @ t\<rparr>"
  by (auto simp: sctp_send_error_def send_data_eq split: prod.splits)

lemma send_sack_eq:
  "\<exists>t. sctp_send_sack msg s = (sctp_message_calc_gaps msg, s\<lparr>sa_trace := sa_trace s @ t\<rparr>)"
  by (auto simp: sctp_send_sack_def Let_def send_data_eq)

lemma emit_eq: "emit b e s = s\<lparr>sa_trace := sa_trace s @ (if b then [e] else [])\<rparr>"
  by (simp add: emit_def)

lemma calc_gaps_frame [simp]:
  "ms_blocks (sctp_message_calc_gaps m) = ms_blocks m"
  "ms_stream_id (sctp_message_calc_gaps m) = ms_stream_id m"
  "ms_begin_tsn (sctp_message_calc_gaps m) = ms_begin_tsn m"
  "ms_ssn (sctp_message_calc_gaps m) = ms_ssn m"
  by (auto simp: sctp_message_calc_gaps_def Let_def split: prod.splits list.splits)

lemma save_sent_recv_frame [simp]:
  "st_messages (snd (sctp_stream_save_sent_message now fl c st)) = st_messages st"
  "st_next_recv_ssn (snd (sctp_stream_save_sent_message now fl c st)) = st_next_recv_ssn st"
  by (auto simp: sctp_stream_save_sent_message_def split: prod.splits)

lemma send_fragments_frame:
  "send_fragments clk ppid ssn first frs tsn st = (tsn', outs, st') \<Longrightarrow>
   st_messages st' = st_messages st \<and> st_stream_id st' = st_stream_id st \<and>
   st_next_recv_ssn st' = st_next_recv_ssn st"
proof (induction frs arbitrary: clk first tsn st tsn' outs st')
  case (Cons f frs)
  then show ?case
    by (auto simp: Let_def split: prod.splits dest!: Cons.IH)
      (metis save_sent_recv_frame save_sent_frame(1) snd_conv)+
qed simp

lemma stream_send_frame:
  "sctp_stream_send clk tsn data ppid st = (r, tsn', outs, st') \<Longrightarrow>
   st_messages st' = st_messages st \<and> st_stream_id st' = st_stream_id st \<and>
   st_next_recv_ssn st' = st_next_recv_ssn st"
  by (auto simp: sctp_stream_send_def Let_def split: prod.splits if_splits
      dest!: send_fragments_frame)
    (auto simp: sctp_stream_save_sent_message_def split: prod.splits)

lemma map_find_write:
  "map_find (map_write k v m) k' = (if k' = k \<and> map_find m k \<noteq> None then Some v else map_find m k')"
  by (induction m) (auto simp: map_find_def map_write_def)

lemma stream_send_on_streams:
  "sctp_stream_send_on sid st data ppid s = (r, s') \<Longrightarrow>
   \<exists>st'. sa_streams s' = map_write sid st' (sa_streams s) \<and> st_messages st' = st_messages st \<and>
         st_stream_id st' = st_stream_id st \<and> st_next_recv_ssn st' = st_next_recv_ssn st"
  by (auto simp: sctp_stream_send_on_def Let_def send_all_eq sctp_tick_def split: prod.splits
      dest!: stream_send_frame)

lemma close_on_streams:
  "\<exists>st'. sa_streams (sctp_stream_close_on sid st s) = map_write sid st' (sa_streams s)"
  by (auto simp: sctp_stream_close_on_def Let_def send_all_eq split: prod.splits)

text \<open>
  A delivered message leaves the reassembly buffer of its stream alone, or removes the stream.
\<close>

lemma on_dcep_message_streams:
  assumes "sctp_on_dcep_message sid msg s = Some s'" and "map_find (sa_streams s) sid = Some st"
  shows "\<exists>st'. map_find (sa_streams s') sid = Some st' \<and> st_messages st' = st_messages st \<and>
               st_next_recv_ssn st' = st_next_recv_ssn st"
  using assms
  by (auto simp: sctp_on_dcep_message_def Let_def emit_eq bind_eq_Some_conv map_find_write
      split: prod.splits if_splits option.splits dest!: stream_send_on_streams)

lemma close_erase_find:
  "map_find (map_erase k (sa_streams (sctp_stream_close_on k st s))) sid =
     (if sid = k then None else map_find (sa_streams s) sid)"
proof -
  have "map_find (map_erase k (map_write k v m)) sid = (if sid = k then None else map_find m sid)"
    for v and m :: "(u16, sctp_stream) std_map"
    by (induction m) (auto simp: map_find_def map_erase_def map_write_def)
  then show ?thesis
    using close_on_streams [of k st s] by auto
qed

lemma on_user_message_streams:
  assumes "sctp_on_user_message sid msg s = Some s'" and "map_find (sa_streams s) sid = Some st"
  shows "map_find (sa_streams s') sid = None \<or>
         (\<exists>st'. map_find (sa_streams s') sid = Some st' \<and> st_messages st' = st_messages st \<and>
                st_next_recv_ssn st' = st_next_recv_ssn st)"
proof (cases "ms_blocks msg")
  case Nil
  with assms show ?thesis by (simp add: sctp_on_user_message_def)
next
  case (Cons e es)
  obtain t b where e: "e = (t, b)" by fastforce
  show ?thesis
  proof (cases "dc_ppid (bk_chunk b) = ppid_dcep")
    case True
    with assms Cons e show ?thesis
      by (auto simp: sctp_on_user_message_def dest: on_dcep_message_streams)
  next
    case False
    with assms Cons e show ?thesis
      by (cases "sid = ms_stream_id msg")
        (auto simp: sctp_on_user_message_def Let_def emit_eq close_erase_find
          split: prod.splits if_splits option.splits)
  qed
qed

section \<open>Delivery and the timers\<close>

text \<open>
  The loop of \<open>insert_data_chunk\<close>: deliver messages while \<open>next_message\<close> finds one. When a
  delivered message closed the stream, the iterator of the loop is dangling: undefined.
\<close>

function sctp_deliver_loop :: "u16 \<Rightarrow> sctp \<Rightarrow> sctp cxx" where
  "sctp_deliver_loop sid s =
     (case map_find (sa_streams s) sid of
        None \<Rightarrow> None
      | Some st \<Rightarrow>
          (case sctp_stream_next_message st of
             (None, st') \<Rightarrow> Some s
           | (Some msg, st') \<Rightarrow>
               let s = s\<lparr>sa_streams := map_write sid st' (sa_streams s)\<rparr>;
                   (msg, s) = sctp_send_sack msg s
               in (case sctp_on_user_message sid msg s of
                     None \<Rightarrow> None
                   | Some s \<Rightarrow> sctp_deliver_loop sid s)))"
  by pat_completeness auto

definition pending :: "u16 \<Rightarrow> sctp \<Rightarrow> nat" where
  "pending sid s =
     (case map_find (sa_streams s) sid of None \<Rightarrow> 0 | Some st \<Rightarrow> length (st_messages st))"

lemma next_message_shorter:
  assumes "sctp_stream_next_message st = (Some msg, st')"
  shows "length (st_messages st') < length (st_messages st)"
proof -
  have "length (map_erase k m) < length m" if "map_find m k \<noteq> None"
    for k and m :: "(u16, sctp_message) std_map"
    using that by (induction m) (auto simp: map_find_def map_erase_def less_Suc_eq_le
        split: if_splits)
  then show ?thesis
    using assms by (auto simp: sctp_stream_next_message_def split: option.splits if_splits)
qed

lemma deliver_decreases:
  assumes "map_find (sa_streams s) sid = Some st"
    and "sctp_stream_next_message st = (Some msg, st')"
    and "sctp_send_sack msg (s\<lparr>sa_streams := map_write sid st' (sa_streams s)\<rparr>) = (msg', s1)"
    and "sctp_on_user_message sid msg' s1 = Some s2"
  shows "pending sid s2 < pending sid s"
proof -
  have "map_find (sa_streams s1) sid = Some st'"
    using send_sack_eq [of msg "s\<lparr>sa_streams := map_write sid st' (sa_streams s)\<rparr>"] assms(1,3)
    by (auto simp: map_find_write)
  from on_user_message_streams [OF assms(4) this] show ?thesis
    using assms(1) next_message_shorter [OF assms(2)] by (auto simp: pending_def)
qed

termination sctp_deliver_loop
  by (relation "measure (\<lambda>(sid, s). pending sid s)") (auto intro: deliver_decreases [OF _ sym sym])

declare sctp_deliver_loop.simps [simp del]

definition sctp_insert_data_chunk ::
  "sctp_chunk_flags \<Rightarrow> sctp_data_chunk \<Rightarrow> sctp \<Rightarrow> (bool \<times> sctp) cxx" where
  "sctp_insert_data_chunk flags chunk s =
     (let sid = dc_stream_id chunk;
          (st, s) = (case map_find (sa_streams s) sid of
              None \<Rightarrow>
                let st = sctp_stream_new sid (sa_remote_init_tsn s) True
                in (st, s\<lparr>sa_streams := map_insert sid st (sa_streams s)\<rparr>)
            | Some st \<Rightarrow> (st, s));
          (r, st) = sctp_stream_insert (sctp_now s) flags chunk st;
          s = sctp_tick (if r then 1 else 0) s;
          s = s\<lparr>sa_streams := map_write sid st (sa_streams s)\<rparr>
      in do { s \<leftarrow> sctp_deliver_loop sid s; Some (True, s) })"

definition sctp_on_data :: "sctp_header \<Rightarrow> sctp_chunk \<Rightarrow> sctp \<Rightarrow> sctp cxx" where
  "sctp_on_data header chunk s = do {
     (r, data_chunk) \<leftarrow> sctp_data_chunk_deserialize sctp_data_chunk_new (ck_payload chunk);
     if \<not> r then Some (sctp_send_error ec_protocol_violation s)
     else do { (_, s) \<leftarrow> sctp_insert_data_chunk (ck_flags chunk) data_chunk s; Some s } }"

definition sctp_on_chunk :: "sctp_header \<Rightarrow> sctp_chunk \<Rightarrow> sctp \<Rightarrow> sctp cxx" where
  "sctp_on_chunk header chunk s =
     (let ty = ck_type chunk in
      if ty = ct_init then sctp_on_init header chunk s
      else if ty = ct_init_ack then sctp_on_init_ack header chunk s
      else if ty = ct_cookie_echo then sctp_on_cookie_echo header chunk s
      else if ty = ct_cookie_ack then Some (sctp_on_cookie_ack header chunk s)
      else if ty = ct_data then sctp_on_data header chunk s
      else if ty = ct_sack then sctp_on_sack header chunk s
      else if ty = ct_heartbeat then sctp_on_heartbeat header chunk s
      else if ty = ct_heartbeat_ack then Some (sctp_on_heartbeat_ack header chunk s)
      else if ty = ct_shutdown then Some (sctp_on_shutdown header chunk s)
      else if ty = ct_shutdown_ack then Some (sctp_on_shutdown_ack header chunk s)
      else if ty = ct_abort then sctp_on_abort header chunk s
      else if ty = ct_operational_error then Some (sctp_on_operational_error header chunk s)
      else Some s)"

fun sctp_on_chunks :: "sctp_header \<Rightarrow> sctp_chunk list \<Rightarrow> sctp \<Rightarrow> sctp cxx" where
  "sctp_on_chunks header [] s = Some s"
| "sctp_on_chunks header (c # cs) s = do { s \<leftarrow> sctp_on_chunk header c s; sctp_on_chunks header cs s }"

definition sctp_conn_input :: "bytes \<Rightarrow> sctp \<Rightarrow> sctp cxx" where
  "sctp_conn_input data s = do {
     (r, pkt) \<leftarrow> sctp_packet_deserialize sctp_packet_new data;
     if \<not> r then Some s
     else if hd_checksum (pk_header pkt) > 0 \<and>
             hd_checksum (pk_header pkt) \<noteq> sctp_packet_check_crc32 data then Some s
     else sctp_on_chunks (pk_header pkt) (pk_chunks pkt) s }"

text \<open>
  The handlers of the two timers. \<open>ec\<close> is the error code of the wait: set when the wait was
  cancelled, and then the record of it is already cleared or replaced by what cancelled it. A wait
  that expired is over before its handler runs, so the handler starts with no wait pending and
  leaves one pending only if it calls \<open>async_wait\<close> again.
\<close>

definition sctp_on_state_timer :: "bool \<Rightarrow> sctp \<Rightarrow> sctp" where
  "sctp_on_state_timer ec s =
     (if ec then s else
        let s = s\<lparr>sa_state_timer := None\<rparr> in
        if \<not> sa_active s then s else
        let ((state, timeout), s) = sctp_get_last_state s in
        if state = sctp_connecting then
          let s = (if timeout then snd (sctp_send_init s) else s)
          in s\<lparr>sa_state_timer := Some 3\<rparr>
        else if sa_state s = sctp_connected then
          let s = sctp_set_state sctp_connected s;
              sec = word_of_int (sctp_now s sdiv 1000) :: u32;
              s = sctp_tick 2 s;
              tlv = sctp_chunk_tlv_new\<lparr>tlv_type := 1, tlv_value :=
                [ucast (drop_bit 24 sec), ucast (drop_bit 16 sec), ucast (drop_bit 8 sec), ucast sec]\<rparr>;
              (buf, _) = sctp_heartbeat_chunk_serialize \<lparr>hb_parameters = [tlv]\<rparr>;
              (_, s) = sctp_send_data ct_heartbeat cf_none buf s
          in s\<lparr>sa_state_timer := Some 5\<rparr>
        else s\<lparr>sa_state_timer := Some 3\<rparr>)"

text \<open>One round of the loop of \<open>on_ack_timer\<close>, for the stream \<open>st\<close> registered under \<open>sid\<close>.\<close>

definition sctp_ack_stream :: "u16 \<Rightarrow> sctp_stream \<Rightarrow> sctp \<Rightarrow> sctp" where
  "sctp_ack_stream sid st s =
     (let reads = length (st_messages st);
          st = sctp_stream_clear_timeout_recv_messages (sa_clock s) st;
          s = sctp_tick reads s;
          (outs, st) = sctp_stream_resend_messages st;
          s = s\<lparr>sa_streams := map_write sid st (sa_streams s)\<rparr>;
          s = sctp_send_all outs s
      in case sctp_stream_first_message st of
           None \<Rightarrow> s
         | Some msg \<Rightarrow> snd (sctp_send_sack msg s))"

definition sctp_on_ack_timer :: "bool \<Rightarrow> sctp \<Rightarrow> sctp" where
  "sctp_on_ack_timer ec s =
     (if ec then s else
        let s = s\<lparr>sa_ack_timer := None\<rparr> in
        if \<not> sa_active s then s
        else (fold (\<lambda>(sid, st) s. sctp_ack_stream sid st s) (sa_streams s) s)\<lparr>sa_ack_timer := Some 1\<rparr>)"

end
