(* ===== verification/Sctp_Invariant.thy ===== *)
theory Sctp_Invariant
  imports Sctp_Assoc
begin

text \<open>
  The well-formedness invariant of an association and the step relation of its public
  operations, received packets and timers; every reachable association satisfies it.
\<close>

unbundle bit_operations_syntax

section \<open>Messages and streams\<close>

text \<open>A message keeps, under each TSN, a block of its own stream and sequence number.\<close>

definition block_ok :: "u16 \<Rightarrow> u16 \<Rightarrow> u32 \<Rightarrow> block_t \<Rightarrow> bool" where
  "block_ok sid ssn tsn b \<longleftrightarrow> dc_tsn (bk_chunk b) = tsn \<and> dc_stream_id (bk_chunk b) = sid \<and>
     dc_stream_sequence (bk_chunk b) = ssn"

definition message_ok :: "u16 \<Rightarrow> u16 \<Rightarrow> sctp_message \<Rightarrow> bool" where
  "message_ok sid ssn m \<longleftrightarrow> ms_stream_id m = sid \<and> ms_ssn m = ssn \<and> map_ok (ms_blocks m) \<and>
     map_all (block_ok sid ssn) (ms_blocks m)"

definition messages_ok :: "u16 \<Rightarrow> (u16, sctp_message) std_map \<Rightarrow> bool" where
  "messages_ok sid ms \<longleftrightarrow> map_ok ms \<and> map_all (message_ok sid) ms"

definition stream_ok :: "u16 \<Rightarrow> sctp_stream \<Rightarrow> bool" where
  "stream_ok sid st \<longleftrightarrow> st_stream_id st = sid \<and> st_on_send_data st \<and>
     messages_ok sid (st_messages st) \<and> messages_ok sid (st_sent_messages st)"

definition streams_ok :: "(u16, sctp_stream) std_map \<Rightarrow> bool" where
  "streams_ok ss \<longleftrightarrow> map_ok ss \<and> map_all stream_ok ss"

lemma messages_ok_Nil [simp]: "messages_ok sid []"
  by (simp add: messages_ok_def)

lemma streams_ok_Nil [simp]: "streams_ok []"
  by (simp add: streams_ok_def)

lemma messages_ok_insert:
  "messages_ok sid ms \<Longrightarrow> message_ok sid ssn m \<Longrightarrow> messages_ok sid (map_insert ssn m ms)"
  by (simp add: messages_ok_def sm.invar_ins map_all_insert)

lemma messages_ok_write:
  "messages_ok sid ms \<Longrightarrow> message_ok sid ssn m \<Longrightarrow> messages_ok sid (map_write ssn m ms)"
  by (simp add: messages_ok_def sm.invar_put map_all_write)

lemma messages_ok_erase: "messages_ok sid ms \<Longrightarrow> messages_ok sid (map_erase ssn ms)"
  by (simp add: messages_ok_def sm.invar_erase map_all_erase)

lemma streams_ok_insert:
  "streams_ok ss \<Longrightarrow> stream_ok sid st \<Longrightarrow> streams_ok (map_insert sid st ss)"
  by (simp add: streams_ok_def sm.invar_ins map_all_insert)

lemma streams_ok_write:
  "streams_ok ss \<Longrightarrow> stream_ok sid st \<Longrightarrow> streams_ok (map_write sid st ss)"
  by (simp add: streams_ok_def sm.invar_put map_all_write)

lemma streams_ok_erase: "streams_ok ss \<Longrightarrow> streams_ok (map_erase sid ss)"
  by (simp add: streams_ok_def sm.invar_erase map_all_erase)

lemma streams_ok_find: "streams_ok ss \<Longrightarrow> map_find ss sid = Some st \<Longrightarrow> stream_ok sid st"
  by (auto simp: streams_ok_def dest: map_all_find)

lemma message_ok_new:
  "message_ok sid ssn ((sctp_message_new init)\<lparr>ms_stream_id := sid, ms_ssn := ssn\<rparr>)"
  by (simp add: message_ok_def sctp_message_new_def Let_def)

lemma message_ok_insert:
  "message_ok sid ssn m \<Longrightarrow> message_ok sid ssn (snd (sctp_message_insert now fl c m))"
  by (auto simp: message_ok_def sctp_message_insert_def Let_def block_ok_def
      intro!: sm.invar_ins map_all_insert)

lemma message_map_insert_ok:
  assumes "messages_ok sid ms"
  shows "messages_ok sid (snd (message_map_insert now sid init fl c ms))"
proof (cases "map_find ms (dc_stream_sequence c)")
  case None
  then show ?thesis
    using assms
    by (auto simp: message_map_insert_def Let_def split_beta intro!: messages_ok_write
        messages_ok_insert message_ok_insert message_ok_new)
next
  case (Some m)
  then have "message_ok sid (dc_stream_sequence c) m"
    using assms by (auto simp: messages_ok_def dest: map_all_find)
  with Some assms show ?thesis
    by (auto simp: message_map_insert_def Let_def split_beta intro!: messages_ok_write message_ok_insert)
qed

lemma message_map_insert_accepts:
  assumes "messages_ok sid ms" and "dc_stream_id c = sid"
  shows "fst (message_map_insert now sid init fl c ms)"
proof (cases "map_find ms (dc_stream_sequence c)")
  case (Some m)
  then have "message_ok sid (dc_stream_sequence c) m"
    using assms by (auto simp: messages_ok_def dest: map_all_find)
  with Some assms(2) show ?thesis
    by (simp add: message_map_insert_def split_beta sctp_message_insert_def message_ok_def Let_def)
qed (use assms(2) in \<open>simp add: message_map_insert_def split_beta sctp_message_insert_def Let_def\<close>)

lemma sent_messages_all_ok: "messages_ok sid ms \<Longrightarrow> messages_ok sid (msgs_all clk sid init fcs ms)"
proof (induction fcs arbitrary: clk ms)
  case (Cons fc fcs)
  then show ?case by (cases fc) (simp add: message_map_insert_ok)
qed simp

lemma stream_ok_new: "stream_ok sid (sctp_stream_new sid init True)"
  by (simp add: stream_ok_def sctp_stream_new_def)

lemma stream_ok_insert: "stream_ok sid st \<Longrightarrow> stream_ok sid (snd (sctp_stream_insert now fl c st))"
  by (auto simp: stream_ok_def sctp_stream_insert_def split_beta message_map_insert_ok)

lemma stream_ok_send:
  assumes "stream_ok sid st" and "sctp_stream_send clk tsn data ppid st = (r, tsn', outs, st')"
  shows "stream_ok sid st'"
proof (cases "length (st_sent_messages st) \<le> 10000")
  case True
  then have "st' = save_all clk (stream_send_chunks st tsn data ppid)
      (st\<lparr>st_next_send_ssn := st_next_send_ssn st + 1\<rparr>)"
    using assms stream_send_eq [OF True] by (simp add: stream_ok_def)
  then show ?thesis
    using assms(1) by (auto simp: stream_ok_def save_all_def sent_messages_all_ok)
next
  case False
  with assms show ?thesis by (simp add: sctp_stream_send_def)
qed

lemma stream_ok_close:
  "stream_ok sid st \<Longrightarrow> stream_ok sid (snd (snd (sctp_stream_close tsn st)))"
  by (simp add: stream_ok_def sctp_stream_close_def Let_def)

lemma stream_ok_next_message:
  "stream_ok sid st \<Longrightarrow> stream_ok sid (snd (sctp_stream_next_message st))"
  by (auto simp: stream_ok_def sctp_stream_next_message_def messages_ok_erase split: option.splits)

lemma messages_ok_sack_loop: "messages_ok sid ms \<Longrightarrow> messages_ok sid (sack_loop tsns ms)"
proof -
  have "map_all (message_ok sid) ms \<Longrightarrow> map_all (message_ok sid) (sack_loop tsns ms)"
    by (induction tsns ms rule: sack_loop.induct)
      (auto simp: Let_def message_ok_def map_ok_filter map_all_filter)
  then show "messages_ok sid ms \<Longrightarrow> messages_ok sid (sack_loop tsns ms)"
    by (simp add: messages_ok_def map_ok_sack_loop)
qed

lemma stream_ok_process_sack: "stream_ok sid st \<Longrightarrow> stream_ok sid (sctp_stream_process_sack sack st)"
  by (simp add: stream_ok_def sctp_stream_process_sack_def messages_ok_sack_loop)

lemma resend_blocks_ok:
  "message_ok sid ssn m \<Longrightarrow>
   message_ok sid ssn (m\<lparr>ms_blocks := snd (resend_blocks st (ms_blocks m))\<rparr>)"
proof -
  let ?up = "map (\<lambda>(t :: u32, b :: block_t). (t, b\<lparr>bk_sent_times := bk_sent_times b + 1\<rparr>))"
  have "map fst (?up bs) = map fst bs" for bs
    by auto
  then have "map_ok (?up bs) \<longleftrightarrow> map_ok bs" for bs
    unfolding map_ok_def by (rule arg_cong)
  moreover have "map_all (block_ok sid ssn) (?up bs) \<longleftrightarrow> map_all (block_ok sid ssn) bs" for bs
    by (induction bs) (auto simp: block_ok_def)
  ultimately show "message_ok sid ssn m \<Longrightarrow> ?thesis"
    by (simp add: message_ok_def resend_blocks_eq map_ok_filter map_all_filter)
qed

lemma resend_loop_ok: "messages_ok sid ms \<Longrightarrow> messages_ok sid (snd (resend_loop st ms))"
proof -
  have sub: "fst ` set (snd (resend_loop st ms)) \<subseteq> fst ` set ms" for ms
  proof (induction ms)
    case (Cons e ms)
    then show ?case by (cases e) (auto simp: Let_def split_beta)
  qed simp
  show "messages_ok sid ms \<Longrightarrow> messages_ok sid (snd (resend_loop st ms))"
  proof (induction ms)
    case (Cons e ms)
    obtain ssn m where e: "e = (ssn, m)" by (cases e)
    have "messages_ok sid (snd (resend_loop st ms))" "message_ok sid ssn m"
        "\<forall>k \<in> fst ` set ms. ssn < k"
      using Cons by (auto simp: e messages_ok_def)
    moreover from this sub have "\<forall>k \<in> fst ` set (snd (resend_loop st ms)). ssn < k"
      by blast
    moreover have "message_ok sid ssn (m\<lparr>ms_blocks := snd (resend_blocks st (ms_blocks m))\<rparr>)"
      using \<open>message_ok sid ssn m\<close> by (rule resend_blocks_ok)
    ultimately show ?case
      by (auto simp: e messages_ok_def split_beta Let_def)
  qed simp
qed

lemma stream_ok_resend: "stream_ok sid st \<Longrightarrow> stream_ok sid (snd (sctp_stream_resend_messages st))"
  by (simp add: stream_ok_def sctp_stream_resend_messages_def split_beta resend_loop_ok)

lemma clear_timeout_ok: "messages_ok sid ms \<Longrightarrow> messages_ok sid (clear_timeout_loop clk t ms)"
proof -
  have sub: "fst ` set (clear_timeout_loop clk t ms) \<subseteq> fst ` set ms" for clk ms
    by (induction clk t ms rule: clear_timeout_loop.induct) auto
  show "messages_ok sid ms \<Longrightarrow> messages_ok sid (clear_timeout_loop clk t ms)"
    using sub by (induction clk t ms rule: clear_timeout_loop.induct)
      (fastforce simp: messages_ok_def)+
qed

lemma stream_ok_clear_timeout:
  "stream_ok sid st \<Longrightarrow> stream_ok sid (sctp_stream_clear_timeout_recv_messages clk st)"
  by (simp add: stream_ok_def sctp_stream_clear_timeout_recv_messages_def clear_timeout_ok)

section \<open>Associations\<close>

definition assoc_ok :: "sctp \<Rightarrow> bool" where
  "assoc_ok s \<longleftrightarrow> streams_ok (sa_streams s) \<and>
     sa_state_timer s \<in> (if sa_active s then {Some 3, Some 5} else {None}) \<and>
     sa_ack_timer s = (if sa_active s then Some 1 else None)"

text \<open>What every handler keeps: the timers, the active flag, and well-formed streams.\<close>

definition keeps :: "sctp \<Rightarrow> sctp \<Rightarrow> bool" where
  "keeps s s' \<longleftrightarrow> sa_active s' = sa_active s \<and> sa_state_timer s' = sa_state_timer s \<and>
     sa_ack_timer s' = sa_ack_timer s \<and> (streams_ok (sa_streams s) \<longrightarrow> streams_ok (sa_streams s'))"

lemma keeps_refl [simp]: "keeps s s"
  by (simp add: keeps_def)

lemma keeps_trans: "keeps s s' \<Longrightarrow> keeps s' s'' \<Longrightarrow> keeps s s''"
  by (auto simp: keeps_def)

lemma assoc_ok_keeps: "assoc_ok s \<Longrightarrow> keeps s s' \<Longrightarrow> assoc_ok s'"
  by (auto simp: keeps_def assoc_ok_def)

lemma keeps_trace [simp]: "keeps s (s\<lparr>sa_trace := t\<rparr>)"
  by (simp add: keeps_def)

lemma keeps_emit [simp]: "keeps s (emit b e s)"
  by (simp add: emit_eq)

lemma keeps_send_data [simp]: "keeps s (snd (sctp_send_data ty fl pl s))"
  by (simp add: send_data_eq)

lemma keeps_send_all [simp]: "keeps s (sctp_send_all outs s)"
  by (simp add: send_all_eq)

lemma keeps_send_error [simp]: "keeps s (sctp_send_error c s)"
  using send_error_eq [of c s] by auto

lemma keeps_send_sack [simp]: "keeps s (snd (sctp_send_sack msg s))"
  using send_sack_eq [of msg s] by auto

lemma keeps_tick [simp]: "keeps s (sctp_tick n s)"
  by (simp add: keeps_def sctp_tick_def)

lemma keeps_set_state [simp]: "keeps s (sctp_set_state st s)"
  by (simp add: keeps_def sctp_set_state_def sctp_tick_def)

lemma keeps_clear [simp]: "keeps s (s\<lparr>sa_streams := []\<rparr>)"
  by (simp add: keeps_def)

lemma keeps_send_on:
  assumes "stream_ok sid st"
  shows "keeps s (snd (sctp_stream_send_on sid st data ppid s))"
proof -
  obtain r tsn outs st' where st': "sctp_stream_send (sa_clock s) (sa_local_tsn s) data ppid st =
      (r, tsn, outs, st')"
    by (metis prod_cases4)
  with assms have "stream_ok sid st'" by (rule stream_ok_send)
  with st' show ?thesis
    by (simp add: sctp_stream_send_on_def send_all_eq keeps_def sctp_tick_def streams_ok_write Let_def)
qed

lemma keeps_close_on: "stream_ok sid st \<Longrightarrow> keeps s (sctp_stream_close_on sid st s)"
  using stream_ok_close [of sid st "sa_local_tsn s"]
  by (simp add: sctp_stream_close_on_def split_beta Let_def send_all_eq keeps_def streams_ok_write)

lemma keeps_fold:
  assumes "\<And>k v s. P k v \<Longrightarrow> keeps s (f k v s)" and "map_all P m"
  shows "keeps s (fold (\<lambda>(k, v). f k v) m s)"
  using assms(2) by (induction m arbitrary: s) (auto intro: keeps_trans [OF assms(1)])

lemma keeps_close_all:
  "streams_ok (sa_streams s) \<Longrightarrow> keeps s (sctp_close_loop s)"
  "streams_ok (sa_streams s) \<Longrightarrow> keeps s (sctp_notify_close_loop s)"
  unfolding sctp_close_loop_def sctp_notify_close_loop_def streams_ok_def
  by (auto intro!: keeps_fold [where P = stream_ok] intro: keeps_close_on keeps_trans [OF keeps_emit])

lemma on_dcep_message_keeps:
  assumes "sctp_on_dcep_message sid msg s = Some s'" and "streams_ok (sa_streams s)"
  shows "keeps s s'"
  using assms keeps_send_on [OF streams_ok_find, of "sa_streams s" sid _ s]
  by (auto simp: sctp_on_dcep_message_def Let_def bind_eq_Some_conv split_beta
      split: if_splits intro: keeps_trans [OF _ keeps_emit])

lemma on_user_message_keeps:
  assumes "sctp_on_user_message sid msg s = Some s'" and "streams_ok (sa_streams s)"
  shows "keeps s s'"
proof -
  have close: "keeps s ((sctp_stream_close_on k st (emit b e s))\<lparr>sa_streams :=
      map_erase k (sa_streams (sctp_stream_close_on k st (emit b e s)))\<rparr>)"
    if "map_find (sa_streams s) k = Some st" for k st b e
    using keeps_close_on [OF streams_ok_find [OF assms(2) that], of "emit b e s"] assms(2)
    by (auto simp: keeps_def emit_eq streams_ok_erase)
  show ?thesis
    using assms on_dcep_message_keeps [of sid msg s s'] close
    by (auto simp: sctp_on_user_message_def Let_def split: list.splits if_splits option.splits prod.splits)
qed

lemma deliver_loop_keeps:
  "sctp_deliver_loop sid s = Some s' \<Longrightarrow> streams_ok (sa_streams s) \<Longrightarrow> keeps s s'"
proof (induction sid s arbitrary: s' rule: sctp_deliver_loop.induct)
  case (1 sid s)
  obtain st where st: "map_find (sa_streams s) sid = Some st"
    using "1.prems" by (subst (asm) sctp_deliver_loop.simps) (auto split: option.splits)
  then have ok: "stream_ok sid st"
    using "1.prems"(2) streams_ok_find by blast
  show ?case
  proof (cases "sctp_stream_next_message st")
    case (Pair mo st')
    show ?thesis
    proof (cases mo)
      case None
      with "1.prems" Pair st show ?thesis
        by (subst (asm) sctp_deliver_loop.simps) simp
    next
      case (Some msg)
      let ?s1 = "s\<lparr>sa_streams := map_write sid st' (sa_streams s)\<rparr>"
      obtain msg' s2 where s2: "sctp_send_sack msg ?s1 = (msg', s2)" by fastforce
      obtain s3 where s3: "sctp_on_user_message sid msg' s2 = Some s3" "sctp_deliver_loop sid s3 = Some s'"
        using "1.prems"(1) Pair Some st s2
        by (subst (asm) sctp_deliver_loop.simps) (auto split: option.splits)
      have "keeps s ?s1"
        using stream_ok_next_message [OF ok] Pair by (simp add: keeps_def streams_ok_write)
      moreover have "keeps ?s1 s2"
        using keeps_send_sack [of ?s1 msg] s2 by simp
      ultimately have k2: "keeps s s2" by (rule keeps_trans)
      with s3 on_user_message_keeps "1.prems"(2) have k3: "keeps s2 s3"
        by (auto simp: keeps_def)
      have "keeps s3 s'"
        using "1.IH" [OF st Pair [symmetric] Some refl s2 [symmetric] refl s3(1) s3(2)]
          k2 k3 "1.prems"(2) by (auto simp: keeps_def)
      with k2 k3 show ?thesis by (blast intro: keeps_trans)
    qed
  qed
qed

lemma insert_data_chunk_keeps:
  assumes "sctp_insert_data_chunk fl c s = Some (r, s')" and "streams_ok (sa_streams s)"
  shows "keeps s s'"
proof -
  let ?sid = "dc_stream_id c"
  obtain st s0 where s0: "(st, s0) = (case map_find (sa_streams s) ?sid of
      None \<Rightarrow> let st = sctp_stream_new ?sid (sa_remote_init_tsn s) True
              in (st, s\<lparr>sa_streams := map_insert ?sid st (sa_streams s)\<rparr>)
    | Some st \<Rightarrow> (st, s))"
    by (metis surj_pair)
  then have k0: "keeps s s0" and ok: "stream_ok ?sid st"
    using assms(2) by (auto simp: keeps_def streams_ok_insert stream_ok_new
        streams_ok_find Let_def split: option.splits)
  obtain q st1 where st1: "sctp_stream_insert (sctp_now s0) fl c st = (q, st1)" by fastforce
  let ?s1 = "(sctp_tick (if q then 1 else 0) s0)\<lparr>sa_streams :=
      map_write ?sid st1 (sa_streams (sctp_tick (if q then 1 else 0) s0))\<rparr>"
  have "stream_ok ?sid st1"
    using stream_ok_insert [OF ok, of "sctp_now s0" fl c] st1 by simp
  then have k1: "keeps s ?s1"
    using k0 by (auto simp: keeps_def sctp_tick_def streams_ok_write)
  have "sctp_deliver_loop ?sid ?s1 = Some s'"
    using assms(1) s0 [symmetric] st1
    by (simp add: sctp_insert_data_chunk_def bind_eq_Some_conv Let_def split_beta) 
  then have "keeps ?s1 s'"
    using deliver_loop_keeps k1 assms(2) by (auto simp: keeps_def)
  with k1 show ?thesis by (rule keeps_trans)
qed

text \<open>Every received chunk keeps the frame.\<close>

lemma keeps_notify_clear:
  "streams_ok (sa_streams s) \<Longrightarrow> keeps s ((sctp_notify_close_loop s)\<lparr>sa_streams := []\<rparr>)"
  using keeps_close_all(2) [of s] by (auto simp: keeps_def)

lemma on_sack_keeps:
  assumes "sctp_on_sack h c s = Some s'"
  shows "keeps s s'"
proof -
  have "streams_ok (map (\<lambda>(sid, st). (sid, sctp_stream_process_sack sack st)) ss)"
    if "streams_ok ss" for sack ss
  proof -
    have "map fst (map (\<lambda>(sid, st). (sid, sctp_stream_process_sack sack st)) ss) = map fst ss"
      by auto
    then have "map_ok (map (\<lambda>(sid, st). (sid, sctp_stream_process_sack sack st)) ss) = map_ok ss"
      unfolding map_ok_def by (rule arg_cong)
    moreover have "map_all stream_ok ss \<Longrightarrow>
        map_all stream_ok (map (\<lambda>(sid, st). (sid, sctp_stream_process_sack sack st)) ss)"
      by (induction ss) (auto simp: stream_ok_process_sack)
    ultimately show ?thesis
      using that by (simp add: streams_ok_def)
  qed
  then show ?thesis
    using assms by (auto simp: sctp_on_sack_def bind_eq_Some_conv keeps_def [of _ "s\<lparr>sa_streams := _\<rparr>"]
        split: if_splits)
qed

lemma on_init_keeps: "sctp_on_init h c s = Some s' \<Longrightarrow> keeps s s'"
  by (auto simp: sctp_on_init_def bind_eq_Some_conv send_data_eq Let_def split_beta keeps_def
      split: if_splits) (use keeps_send_error [of s 13] in \<open>auto simp: keeps_def\<close>)

lemma on_init_ack_keeps: "sctp_on_init_ack h c s = Some s' \<Longrightarrow> keeps s s'"
  by (auto simp: sctp_on_init_ack_def bind_eq_Some_conv send_data_eq Let_def split_beta
      split: if_splits option.splits) (simp add: keeps_def)

lemma on_cookie_echo_keeps: "sctp_on_cookie_echo h c s = Some s' \<Longrightarrow> keeps s s'"
  by (auto simp: sctp_on_cookie_echo_def bind_eq_Some_conv Let_def split_beta
      split: if_splits intro!: keeps_trans [OF _ keeps_emit] keeps_trans [OF _ keeps_set_state])

lemma on_heartbeat_keeps: "sctp_on_heartbeat h c s = Some s' \<Longrightarrow> keeps s s'"
  by (auto simp: sctp_on_heartbeat_def bind_eq_Some_conv Let_def split_beta
      split: if_splits intro!: keeps_trans [OF _ keeps_emit])

lemma on_abort_keeps:
  assumes "sctp_on_abort h c s = Some s'" and "streams_ok (sa_streams s)"
  shows "keeps s s'"
proof -
  let ?s = "sctp_set_state sctp_closed s"
  have "streams_ok (sa_streams ?s)"
    using keeps_set_state [of s sctp_closed] assms(2) by (simp add: keeps_def)
  then have "keeps ?s s'"
    using assms(1)
    by (auto simp: sctp_on_abort_def Let_def bind_eq_Some_conv split: if_splits
        intro!: keeps_trans [OF _ keeps_emit] keeps_notify_clear)
  then show ?thesis by (rule keeps_trans [OF keeps_set_state])
qed

lemma on_close_keeps:
  assumes "streams_ok (sa_streams s)"
  shows "keeps s (sctp_on_shutdown h c s)" and "keeps s (sctp_on_shutdown_ack h c s)"
    and "keeps s (sctp_on_operational_error h c s)"
  unfolding sctp_on_shutdown_def sctp_on_shutdown_ack_def sctp_on_operational_error_def Let_def split_beta
  by (intro keeps_trans [OF _ keeps_emit] keeps_trans [OF _ keeps_send_data]
      keeps_trans [OF _ keeps_set_state] keeps_notify_clear assms)+

lemma on_chunk_keeps:
  assumes "sctp_on_chunk h c s = Some s'" and "streams_ok (sa_streams s)"
  shows "keeps s s'"
proof -
  have data: "sctp_on_data h c s = Some s' \<Longrightarrow> keeps s s'"
    using assms(2) insert_data_chunk_keeps
    by (auto simp: sctp_on_data_def bind_eq_Some_conv split: if_splits)
  show ?thesis
    using assms(1) on_close_keeps [OF assms(2)]
    by (auto simp: sctp_on_chunk_def Let_def sctp_on_cookie_ack_def sctp_on_heartbeat_ack_def
        split: if_splits intro: data on_init_keeps on_init_ack_keeps on_cookie_echo_keeps on_sack_keeps
          on_heartbeat_keeps on_abort_keeps [OF _ assms(2)] keeps_trans [OF keeps_set_state keeps_emit])
qed

lemma on_chunks_keeps:
  "sctp_on_chunks h cs s = Some s' \<Longrightarrow> streams_ok (sa_streams s) \<Longrightarrow> keeps s s'"
proof (induction cs arbitrary: s)
  case (Cons c cs)
  then obtain s1 where "sctp_on_chunk h c s = Some s1" "sctp_on_chunks h cs s1 = Some s'"
    by (auto simp: bind_eq_Some_conv)
  with Cons on_chunk_keeps show ?case
    by (metis keeps_def keeps_trans)
qed simp

lemma conn_input_keeps:
  "sctp_conn_input data s = Some s' \<Longrightarrow> streams_ok (sa_streams s) \<Longrightarrow> keeps s s'"
  by (auto simp: sctp_conn_input_def bind_eq_Some_conv split: if_splits intro: on_chunks_keeps)

section \<open>Reachable associations\<close>

text \<open>The public operations, the packets that arrive and the two timers.\<close>

inductive sctp_step :: "sctp \<Rightarrow> sctp \<Rightarrow> bool" where
  step_bind: "h \<in> {sctp_bind_connected_handler v, sctp_bind_disconnected_handler v,
      sctp_bind_send_data_handler v, sctp_bind_heartbeat_handler v,
      sctp_bind_stream_opened_handler v, sctp_bind_stream_closed_handler v,
      sctp_bind_stream_message_handler v} \<Longrightarrow> sctp_step s (h s)"
| step_endpoint: "sctp_step s (sctp_set_remote_endpoint ep s)"
| step_init_stream_id: "sctp_step s (sctp_set_init_stream_id sid s)"
| step_open: "sctp_step s (snd (sctp_open port uuid tag tsn s))"
| step_connect: "sctp_step s (snd (sctp_connect port s))"
| step_close: "sctp_step s (sctp_close s)"
| step_create_stream: "sctp_step s (snd (snd (sctp_create_stream label s)))"
| step_close_stream: "sctp_close_stream sid s = Some s' \<Longrightarrow> sctp_step s s'"
| step_send: "sctp_step s (snd (sctp_send_user_message sid data s))"
| step_input: "sctp_conn_input data s = Some s' \<Longrightarrow> sctp_step s s'"
| step_state_timer: "sctp_step s (sctp_on_state_timer ec s)"
| step_ack_timer: "sctp_step s (sctp_on_ack_timer ec s)"

inductive_cases sctp_stepE: "sctp_step s s'"

inductive sctp_reachable :: "sctp \<Rightarrow> bool" where
  reach_new: "sctp_reachable (sctp_new clk)"
| reach_step: "sctp_reachable s \<Longrightarrow> sctp_step s s' \<Longrightarrow> sctp_reachable s'"

lemma assoc_ok_new: "assoc_ok (sctp_new clk)"
  by (simp add: assoc_ok_def sctp_new_def)

lemma keeps_connect: "keeps s (snd (sctp_connect port s))"
proof -
  have "keeps s (s\<lparr>sa_remote_port := port, sa_streams := []\<rparr>)"
    by (simp add: keeps_def)
  then show ?thesis
    by (auto simp: sctp_connect_def Let_def split_beta sctp_send_init_def
        intro!: keeps_trans [OF _ keeps_set_state] keeps_trans [OF _ keeps_send_data])
qed

lemma next_stream_id_keeps: "keeps s (snd (next_stream_id_loop n s))"
proof (induction n arbitrary: s)
  case (Suc n)
  let ?s = "s\<lparr>sa_init_stream_id := sa_init_stream_id s + 2\<rparr>"
  have "keeps s ?s" by (simp add: keeps_def)
  with Suc [of ?s] show ?case
    by (auto simp: Let_def intro: keeps_trans)
qed simp

lemma ensure_stream_ok:
  assumes "streams_ok (sa_streams s)" and "sctp_ensure_stream sid s = (st, s')"
  shows "keeps s s'" and "stream_ok sid st"
  using assms by (auto simp: sctp_ensure_stream_def Let_def keeps_def streams_ok_insert stream_ok_new
      streams_ok_find split: option.splits)

lemma keeps_create_stream:
  assumes "streams_ok (sa_streams s)"
  shows "keeps s (snd (snd (sctp_create_stream label s)))"
proof -
  obtain id s1 where 1: "sctp_make_next_stream_id s = (id, s1)" by fastforce
  obtain st s2 where 2: "sctp_ensure_stream (ucast id) s1 = (st, s2)" by fastforce
  have k1: "keeps s s1"
    using next_stream_id_keeps [of s "0x7FFF"] 1 by (simp add: sctp_make_next_stream_id_def)
  then have "streams_ok (sa_streams s1)"
    using assms by (simp add: keeps_def)
  note e = ensure_stream_ok [OF this 2]
  show ?thesis
    using 1 2 keeps_send_on [OF e(2)] keeps_trans [OF k1 e(1)]
    by (auto simp: sctp_create_stream_def Let_def split_beta intro: keeps_trans)
qed

lemma keeps_close_stream:
  assumes "sctp_close_stream sid s = Some s'" and "streams_ok (sa_streams s)"
  shows "keeps s s'"
proof -
  from assms(1) obtain st where st: "map_find (sa_streams s) sid = Some st"
    by (auto simp: sctp_close_stream_def split: option.splits)
  with assms show ?thesis
    using keeps_close_on [OF streams_ok_find [OF assms(2) st], of s]
    by (auto simp: sctp_close_stream_def Let_def emit_eq keeps_def streams_ok_erase)
qed

lemma keeps_send_user_message:
  "streams_ok (sa_streams s) \<Longrightarrow> keeps s (snd (sctp_send_user_message sid data s))"
  by (auto simp: sctp_send_user_message_def keeps_send_on streams_ok_find split: option.splits)

lemma keeps_ack_stream:
  assumes "stream_ok sid st"
  shows "keeps s (sctp_ack_stream sid st s)"
proof -
  let ?st1 = "sctp_stream_clear_timeout_recv_messages (sa_clock s) st"
  let ?st2 = "snd (sctp_stream_resend_messages ?st1)"
  let ?s1 = "sctp_tick (length (st_messages st)) s"
  let ?s2 = "?s1\<lparr>sa_streams := map_write sid ?st2 (sa_streams ?s1)\<rparr>"
  have "stream_ok sid ?st2"
    using assms by (intro stream_ok_resend stream_ok_clear_timeout)
  then have "keeps s ?s2"
    by (auto simp: keeps_def sctp_tick_def streams_ok_write)
  then show ?thesis
    by (auto simp: sctp_ack_stream_def Let_def split_beta split: option.splits
        intro!: keeps_trans [OF _ keeps_send_all] keeps_trans [OF _ keeps_send_sack])
qed

lemma ack_timer_ok:
  assumes "assoc_ok s"
  shows "assoc_ok (sctp_on_ack_timer ec s)"
proof -
  let ?s = "s\<lparr>sa_ack_timer := None\<rparr>"
  have "keeps ?s (fold (\<lambda>(sid, st). sctp_ack_stream sid st) (sa_streams ?s) ?s)"
    using assms by (intro keeps_fold [where P = stream_ok] keeps_ack_stream)
      (auto simp: assoc_ok_def streams_ok_def)
  with assms show ?thesis
    by (auto simp: sctp_on_ack_timer_def assoc_ok_def keeps_def Let_def)
qed

lemma state_timer_ok: "assoc_ok s \<Longrightarrow> assoc_ok (sctp_on_state_timer ec s)"
  by (auto simp: sctp_on_state_timer_def sctp_get_last_state_def sctp_send_init_def Let_def split_beta
      send_data_eq sctp_tick_def sctp_set_state_def assoc_ok_def)

lemma close_ok:
  assumes "streams_ok (sa_streams s)"
  shows "assoc_ok (sctp_close s)"
proof -
  let ?s = "(snd (sctp_send_data ct_init cf_none (sctp_shutdown_chunk_serialize \<lparr>sd_tsn = sa_local_tsn s\<rparr>)
      (s\<lparr>sa_state := sctp_none, sa_state_updated_at := 0, sa_active := False\<rparr>)))
      \<lparr>sa_state_timer := None, sa_ack_timer := None\<rparr>"
  have "keeps ?s (sctp_close_loop ?s)"
    using assms by (intro keeps_close_all) (simp add: send_data_eq)
  then show ?thesis
    by (simp add: sctp_close_def Let_def split_beta assoc_ok_def keeps_def) (simp add: send_data_eq)
qed

lemma keeps_bind:
  "keeps s (sctp_bind_connected_handler v s)" "keeps s (sctp_bind_disconnected_handler v s)"
  "keeps s (sctp_bind_send_data_handler v s)" "keeps s (sctp_bind_heartbeat_handler v s)"
  "keeps s (sctp_bind_stream_opened_handler v s)" "keeps s (sctp_bind_stream_closed_handler v s)"
  "keeps s (sctp_bind_stream_message_handler v s)" "keeps s (sctp_set_remote_endpoint ep s)"
  "keeps s (sctp_set_init_stream_id sid s)"
  by (simp_all add: keeps_def sctp_bind_connected_handler_def
        sctp_bind_disconnected_handler_def sctp_bind_send_data_handler_def
        sctp_bind_heartbeat_handler_def sctp_bind_stream_opened_handler_def
        sctp_bind_stream_closed_handler_def sctp_bind_stream_message_handler_def
        sctp_set_remote_endpoint_def sctp_set_init_stream_id_def)

lemma sctp_step_ok:
  assumes "sctp_step s s'" and "assoc_ok s"
  shows "assoc_ok s'"
proof -
  have ss: "streams_ok (sa_streams s)"
    using assms(2) by (simp add: assoc_ok_def)
  note keeping = keeps_bind keeps_connect keeps_create_stream [OF ss] keeps_close_stream [OF _ ss]
    keeps_send_user_message [OF ss] conn_input_keeps [OF _ ss]
  show ?thesis
    using assms(1)
  proof cases
    case step_open
    with assms(2) show ?thesis by (auto simp: sctp_open_def assoc_ok_def)
  next
    case step_close
    with ss show ?thesis by (simp add: close_ok)
  next
    case step_state_timer
    with assms(2) show ?thesis by (simp add: state_timer_ok)
  next
    case step_ack_timer
    with assms(2) show ?thesis by (simp add: ack_timer_ok)
  qed (use assms(2) in \<open>auto intro: assoc_ok_keeps keeping\<close>)
qed

text \<open>
  C5: in every state reachable by the association's operations, received datagrams and timers,
  the stream, message and block maps are ordered by their keys, every stream, message and block
  is stored under its own identifier, sequence number and TSN, every stream can send, and each
  timer has a wait pending (3 or 5 seconds for the state timer, 1 second for the acknowledgement
  timer) exactly while the association is active. An expired wait is over when its handler
  starts, so this rests on the handlers arming the timer again on every path.
\<close>

theorem reachable_assoc_ok: "sctp_reachable s \<Longrightarrow> assoc_ok s"
  by (induction rule: sctp_reachable.induct) (auto intro: assoc_ok_new sctp_step_ok)

section \<open>A sample association\<close>

text \<open>An opened association with its handlers set and stream 1 in place.\<close>

definition assoc_sample :: sctp where
  "assoc_sample = snd (sctp_ensure_stream 1 (sctp_bind_stream_message_handler True
     (sctp_bind_send_data_handler True (snd (sctp_open 5000 [1, 2] 7 9 (sctp_new (\<lambda>_. 0)))))))"

lemma assoc_sample_eq:
  "assoc_sample = (sctp_new (\<lambda>_. 0))\<lparr>sa_on_stream_message := True, sa_on_send_data := True,
     sa_active := True, sa_local_port := 5000, sa_local_cookie := [1, 2], sa_local_tag := 7,
     sa_local_tsn := 9, sa_state_timer := Some 3, sa_ack_timer := Some 1,
     sa_streams := [(1, sctp_stream_new 1 0 True)]\<rparr>"
  by (simp add: assoc_sample_def sctp_ensure_stream_def sctp_open_def sctp_new_def Let_def
     sctp_bind_stream_message_handler_def sctp_bind_send_data_handler_def map_find_def)

lemma assoc_sample_ok: "assoc_ok assoc_sample" 
   "map_find (sa_streams assoc_sample) 1 = Some (sctp_stream_new 1 0 True)" 
   "sa_on_send_data assoc_sample"
  by (simp_all add: assoc_sample_eq assoc_ok_def streams_ok_def stream_ok_def sctp_stream_new_def map_ok_def map_all_def
     map_find_def)

theorem reachable_assoc_ok_witness:
  "assoc_ok (snd (sctp_connect 5001 (snd (sctp_open 5000 [1, 2] 7 9 (sctp_new (\<lambda>_. 0))))))"
  by (intro reachable_assoc_ok reach_step [OF reach_step [OF reach_new step_open] step_connect])

end
