(* ===== verification/Sctp_Protocol.thy ===== *)
theory Sctp_Protocol
  imports Sctp_Invariant
begin

text \<open>
  What two associations do over a wire: a packet that \<open>send_data\<close> emits is the packet
  \<open>conn_input\<close> reads, a corrupted one is dropped, the four-way handshake, the delivery of user
  messages, and the states an association can reach.
\<close>

unbundle bit_operations_syntax

section \<open>From \<open>send_data\<close> to \<open>conn_input\<close>\<close>

lemma sign_serialize:
  assumes "sctp_packet_sign_crc32 (fst (sctp_packet_serialize p)) = (True, buf)"
  shows "buf = fst (sctp_packet_serialize
           (p\<lparr>pk_header := (pk_header p)\<lparr>hd_checksum := sctp_packet_check_crc32 buf\<rparr>\<rparr>))"
proof -
  let ?d = "fst (sctp_packet_serialize p)" and ?c = "sctp_packet_check_crc32 buf"
  have "?c = sctp_packet_check_crc32 ?d"
    using sign_then_check(3) [OF assms] .
  then have "buf = ?d[8 := ucast (drop_bit 24 ?c), 9 := ucast (drop_bit 16 ?c),
                  10 := ucast (drop_bit 8 ?c), 11 := ucast ?c]"
    using assms by (auto simp: sctp_packet_sign_crc32_def Let_def split: if_splits)
  also have "\<dots> = fst (sctp_packet_serialize
           (p\<lparr>pk_header := (pk_header p)\<lparr>hd_checksum := ?c\<rparr>\<rparr>))"
    by (simp add: sctp_packet_serialize_def sctp_header_serialize_def b16_def b32_def)
  finally show ?thesis .
qed

lemma conn_input_signed:
  assumes "sctp_packet_sign_crc32 (fst (sctp_packet_serialize p)) = (True, buf)"
    and "pk_chunks p \<noteq> []" and "length buf \<le> 12 + SCTP_MAX_CHUNK_SIZE"
  shows "sctp_conn_input buf t =
         sctp_on_chunks ((pk_header p)\<lparr>hd_checksum := sctp_packet_check_crc32 buf\<rparr>)
           (map (snd \<circ> sctp_chunk_serialize) (pk_chunks p)) t"
proof -
  let ?p = "p\<lparr>pk_header := (pk_header p)\<lparr>hd_checksum := sctp_packet_check_crc32 buf\<rparr>\<rparr>"
  have buf: "fst (sctp_packet_serialize ?p) = buf"
    using sign_serialize [OF assms(1)] by simp
  have "sctp_packet_deserialize sctp_packet_new buf = Some (True, snd (sctp_packet_serialize ?p))"
    using packet_deserialize_serialize [of ?p] assms(2,3) unfolding buf by simp
  then show ?thesis
    by (simp add: sctp_conn_input_def sctp_packet_serialize_def)
qed

text \<open>The header and the bytes of a packet with one chunk.\<close>

definition send_header :: "sctp \<Rightarrow> sctp_header" where
  "send_header s = \<lparr>hd_src_port = sa_local_port s, hd_dst_port = sa_remote_port s,
     hd_verification_tag = sa_remote_tag s, hd_checksum = 0\<rparr>"

definition wire :: "sctp \<Rightarrow> sctp_send \<Rightarrow> bytes option" where
  "wire s out = (case out of (ty, fl, pl) \<Rightarrow>
     let (r, buf) = sctp_packet_sign_crc32 (fst (sctp_packet_serialize
                      \<lparr>pk_header = send_header s, pk_chunks = [sctp_chunk_new ty fl pl]\<rparr>))
     in if r then Some buf else None)"

lemma sent_wire:
  "sa_on_send_data s \<Longrightarrow>
   sent s out = (case wire s out of None \<Rightarrow> [] | Some buf \<Rightarrow> [Ev_send_data buf (sa_remote_endpoint s)])"
  by (auto simp: sent_def wire_def send_header_def Let_def split: prod.splits)

lemma wire_checksum: "wire s out = Some buf \<Longrightarrow> rd32 buf 8 = Some (sctp_packet_check_crc32 buf)"
  using sign_then_check(2) by (fastforce simp: wire_def Let_def split: prod.splits if_splits)

lemma wire_length:
  assumes "wire s (ty, fl, pl) = Some buf" and "length pl \<le> 4092"
  shows "length buf = 12 + length (fst (sctp_chunk_serialize (sctp_chunk_new ty fl pl)))"
    and "length buf \<le> 12 + SCTP_MAX_CHUNK_SIZE"
proof -
  have "length buf = length (fst (sctp_packet_serialize
          \<lparr>pk_header = send_header s, pk_chunks = [sctp_chunk_new ty fl pl]\<rparr>))"
    using assms(1) sign_then_check(1) by (auto simp: wire_def split: prod.splits if_splits)
  then show len: "length buf = 12 + length (fst (sctp_chunk_serialize (sctp_chunk_new ty fl pl)))"
    by (simp add: sctp_packet_serialize_def)
  have "length pl + pad4 (length pl) \<le> 4092"
    using assms(2) by (simp add: pad4_def Let_def) presburger
  then show "length buf \<le> 12 + SCTP_MAX_CHUNK_SIZE"
    using assms(2) unat_4_plus [of "length pl"] unfolding len
    by (simp add: sctp_chunk_serialize_def sctp_chunk_new_def Let_def)
qed

lemma on_chunks_Nil: "sctp_on_chunks h [] = Some"
  by (simp add: fun_eq_iff)

lemma conn_input_wire:
  assumes "wire s (ty, fl, pl) = Some buf" and "length pl \<le> 4092"
  shows "sctp_conn_input buf t =
         sctp_on_chunk ((send_header s)\<lparr>hd_checksum := sctp_packet_check_crc32 buf\<rparr>)
           \<lparr>ck_type = ty, ck_flags = fl, ck_len = word_of_nat (4 + length pl), ck_payload = pl\<rparr> t"
proof -
  have "sctp_packet_sign_crc32 (fst (sctp_packet_serialize
          \<lparr>pk_header = send_header s, pk_chunks = [sctp_chunk_new ty fl pl]\<rparr>)) = (True, buf)"
    using assms(1) by (auto simp: wire_def split: prod.splits if_splits)
  from conn_input_signed [OF this _ wire_length(2) [OF assms]] show ?thesis
    by (simp add: sctp_chunk_serialize_def sctp_chunk_new_def sctp_chunk_default_def on_chunks_Nil
        Let_def del: sctp_on_chunks.simps(1))
qed

section \<open>Corrupted packets\<close>

lemma packet_checksum:
  assumes "sctp_packet_deserialize sctp_packet_new data = Some (True, pkt)"
  shows "rd32 data 8 = Some (hd_checksum (pk_header pkt))"
  using assms
  by (auto simp: sctp_packet_deserialize_def sctp_header_deserialize_def bind_eq_Some_conv Let_def
      split: if_splits)

lemma rd32_update:
  "i < 8 \<or> 12 \<le> i \<Longrightarrow> rd32 (data[i := b]) 8 = rd32 data 8"
  by (auto simp: rd32_def rd8_def)

lemma conn_input_bad_checksum:
  assumes "rd32 data 8 = Some c" and "c \<noteq> 0" and "c \<noteq> sctp_packet_check_crc32 data"
    and "sctp_packet_deserialize sctp_packet_new data \<noteq> None"
  shows "sctp_conn_input data s = Some s"
proof -
  obtain r pkt where p: "sctp_packet_deserialize sctp_packet_new data = Some (r, pkt)"
    using assms(4) by auto
  show ?thesis
  proof (cases r)
    case True
    with p assms(1) have "hd_checksum (pk_header pkt) = c"
      using packet_checksum by fastforce
    with p assms(2,3) show ?thesis
      by (auto simp: sctp_conn_input_def word_gt_0)
  next
    case False
    with p show ?thesis by (simp add: sctp_conn_input_def)
  qed
qed

text \<open>
  C7: a datagram with a correct nonzero checksum in which any single byte outside the checksum
  field is replaced, and which still parses without undefined behaviour, leaves the association
  unchanged.
\<close>

theorem conn_input_drops_corrupted:
  assumes "12 \<le> length data" and "rd32 data 8 = Some (sctp_packet_check_crc32 data)"
    and "sctp_packet_check_crc32 data \<noteq> 0"
    and "i < length data" and "i < 8 \<or> 12 \<le> i" and "b \<noteq> data ! i"
    and "sctp_packet_deserialize sctp_packet_new (data[i := b]) \<noteq> None"
  shows "sctp_conn_input (data[i := b]) s = Some s"
  using assms check_crc32_detects_byte [OF assms(1,4,5,6)]
  by (intro conn_input_bad_checksum [where c = "sctp_packet_check_crc32 data"])
    (auto simp: rd32_update)

section \<open>Handshake\<close>

text \<open>The INIT or INIT ACK an association sends, with the given parameters.\<close>

definition init_payload :: "sctp \<Rightarrow> sctp_chunk_tlv list \<Rightarrow> bytes" where
  "init_payload s ps = fst (sctp_init_chunk_serialize
     \<lparr>in_init_tag = sa_local_tag s, in_arwnd = sa_local_arwnd s, in_num_out_stream = 16,
      in_num_in_stream = 16, in_init_tsn = sa_local_tsn s, in_parameters = ps\<rparr>)"

definition cookie_param :: "sctp \<Rightarrow> sctp_chunk_tlv" where
  "cookie_param s = \<lparr>tlv_type = ipt_state_cookie, tlv_len = 0, tlv_value = sa_local_cookie s\<rparr>"

lemma length_init_payload_Nil [simp]: "length (init_payload s []) = 16"
  by (simp add: init_payload_def sctp_init_chunk_serialize_def tlv_print_def)

lemma length_init_payload_cookie:
  assumes "length (sa_local_cookie s) \<le> 4000"
  shows "length (init_payload s [cookie_param s]) \<le> 4092"
  using assms length_tlv_serialize [of "cookie_param s"] pad4_less [of "length (sa_local_cookie s)"]
  by (simp add: init_payload_def sctp_init_chunk_serialize_def tlv_print_def cookie_param_def)

lemma send_init_eq: "sctp_send_init s = sctp_send_data ct_init cf_none (init_payload s []) s"
  by (simp add: sctp_send_init_def init_payload_def sctp_init_chunk_new_def split_beta)

lemma send_data_wire:
  "sa_on_send_data s \<Longrightarrow> wire s (ty, fl, pl) = Some buf \<Longrightarrow>
   sctp_send_data ty fl pl s =
     (True, s\<lparr>sa_trace := sa_trace s @ [Ev_send_data buf (sa_remote_endpoint s)]\<rparr>)"
  by (auto simp: sctp_send_data_def sctp_send_chunk_def wire_def send_header_def emit_def
      sctp_packet_new_def sctp_header_new_def Let_def split: prod.splits if_splits)

lemma init_payload_deserialize:
  assumes "length (init_payload s ps) \<le> SCTP_MAX_CHUNK_SIZE"
  shows "sctp_init_chunk_deserialize sctp_init_chunk_new (init_payload s ps) =
     Some (True, \<lparr>in_init_tag = sa_local_tag s, in_arwnd = sa_local_arwnd s, in_num_out_stream = 16,
      in_num_in_stream = 16, in_init_tsn = sa_local_tsn s, in_parameters = snd (tlv_print ps)\<rparr>)"
  using init_chunk_roundtrip [OF assms [unfolded init_payload_def]]
  unfolding init_payload_def by (simp add: sctp_init_chunk_serialize_def split_beta)

text \<open>The four steps, each from the packet the step before put on the wire.\<close>

lemma on_init_wire:
  assumes "wire a (ct_init, cf_none, init_payload a []) = Some p"
    and "b' = b\<lparr>sa_streams := [], sa_remote_tag := sa_local_tag a,
                 sa_remote_init_tsn := sa_local_tsn a, sa_remote_port := sa_local_port a\<rparr>"
    and "sa_on_send_data b"
    and "wire b' (ct_init_ack, cf_none, init_payload b [cookie_param b]) = Some q"
  shows "sctp_conn_input p b =
     Some (b'\<lparr>sa_trace := sa_trace b @ [Ev_send_data q (sa_remote_endpoint b)]\<rparr>)"
proof -
  have "init_payload b' ps = init_payload b ps" for ps
    by (simp add: init_payload_def assms(2))
  then have "sctp_send_data ct_init_ack cf_none (init_payload b' [cookie_param b]) b' =
      (True, b'\<lparr>sa_trace := sa_trace b @ [Ev_send_data q (sa_remote_endpoint b)]\<rparr>)"
    using send_data_wire [OF _ assms(4)] assms(2,3) by simp
  then show ?thesis
    using conn_input_wire [OF assms(1), of b, simplified]
      init_payload_deserialize [of a "[]", simplified] assms(2)
    by (simp add: sctp_on_chunk_def sctp_on_init_def tlv_print_def Let_def send_header_def
        init_payload_def cookie_param_def sctp_chunk_tlv_new_def sctp_init_chunk_new_def split_beta)
qed

lemma on_init_ack_wire:
  assumes "wire b' (ct_init_ack, cf_none, init_payload b [cookie_param b]) = Some q"
    and "length (sa_local_cookie b) \<le> 4000" and "sa_on_send_data a"
    and "wire a (ct_cookie_echo, cf_none, sa_local_cookie b) = Some p"
  shows "sctp_conn_input q a =
     Some (a\<lparr>sa_remote_cookie := sa_local_cookie b,
             sa_trace := sa_trace a @ [Ev_send_data p (sa_remote_endpoint a)]\<rparr>)"
proof -
  let ?a = "a\<lparr>sa_remote_cookie := sa_local_cookie b\<rparr>"
  have len: "length (init_payload b [cookie_param b]) \<le> 4092"
    using assms(2) by (rule length_init_payload_cookie)
  have "wire ?a = wire a"
    by (simp add: wire_def send_header_def fun_eq_iff)
  then have "sctp_send_data ct_cookie_echo cf_none (sa_local_cookie b) ?a =
      (True, ?a\<lparr>sa_trace := sa_trace a @ [Ev_send_data p (sa_remote_endpoint a)]\<rparr>)"
    using send_data_wire [of ?a] assms(3,4) by simp
  then show ?thesis
    using conn_input_wire [OF assms(1) len, of a] init_payload_deserialize [of b "[cookie_param b]"] len
    by (simp add: sctp_on_chunk_def sctp_on_init_ack_def tlv_print_def cookie_param_def
        sctp_chunk_tlv_serialize_def sctp_init_chunk_find_paramter_def
        sctp_cookie_echo_chunk_serialize_def Let_def)
qed

lemma on_cookie_echo_wire:
  assumes "wire a (ct_cookie_echo, cf_none, sa_local_cookie b) = Some p"
    and "length (sa_local_cookie b) \<le> 4000" and "sa_on_send_data b"
    and "wire b (ct_cookie_ack, cf_none, []) = Some q"
  shows "sctp_conn_input p b =
     Some (emit (sa_on_connected b) Ev_connected (sctp_set_state sctp_connected
        (b\<lparr>sa_trace := sa_trace b @ [Ev_send_data q (sa_remote_endpoint b)]\<rparr>)))"
proof -
  have "unat (word_of_nat (length (sa_local_cookie b)) :: u16) = length (sa_local_cookie b)"
    using assms(2) by (simp add: unat_of_nat_small)
  then show ?thesis
    using conn_input_wire [OF assms(1), of b] assms(2) send_data_wire [OF assms(3,4)]
    by (simp add: sctp_on_chunk_def sctp_on_cookie_echo_def sctp_cookie_echo_chunk_deserialize_def
        sctp_chunk_payload_length_def rd_range_def Let_def sctp_set_state_def sctp_tick_def)
qed

lemma on_cookie_ack_wire:
  assumes "wire b (ct_cookie_ack, cf_none, []) = Some q"
  shows "sctp_conn_input q a =
     Some (emit (sa_on_connected a) Ev_connected (sctp_set_state sctp_connected a))"
  using conn_input_wire [OF assms, of a]
  by (simp add: sctp_on_chunk_def sctp_on_cookie_ack_def Let_def sctp_set_state_def sctp_tick_def)


lemma connect_wire:
  assumes "sa_local_port a \<noteq> 0" and "sa_state a = sctp_none" and "sa_on_send_data a"
    and "wire (a\<lparr>sa_remote_port := rp\<rparr>) (ct_init, cf_none, init_payload a []) = Some p"
  shows "sctp_connect rp a = (True, sctp_set_state sctp_connecting (a\<lparr>sa_remote_port := rp,
     sa_streams := [], sa_trace := sa_trace a @ [Ev_send_data p (sa_remote_endpoint a)]\<rparr>))"
proof -
  let ?a = "a\<lparr>sa_remote_port := rp, sa_streams := []\<rparr>"
  have "wire ?a = wire (a\<lparr>sa_remote_port := rp\<rparr>)" "init_payload ?a [] = init_payload a []"
    by (simp_all add: wire_def send_header_def fun_eq_iff init_payload_def)
  then show ?thesis
    using send_data_wire [of ?a] assms by (simp add: sctp_connect_def send_init_eq)
qed

text \<open>
  The handshake: four packets, each the one the peer emitted, take both ends to \<open>connected\<close>.
  The hypotheses name the four packets: that \<open>sign_crc32\<close> did not compute the checksum 0.
\<close>

text \<open>
  C2: the four-way handshake completes. connect emits INIT; feeding each emitted packet to the
  other end produces INIT ACK, COOKIE ECHO and COOKIE ACK in turn, both ends reach the connected
  state and call their connected handler, the responder learns the initiator's tag, TSN and
  port, and the initiator holds the responder's cookie; the initiator's own remote tag is left
  unchanged.
\<close>

theorem handshake_connects:
  assumes port: "sa_local_port a \<noteq> 0" and st: "sa_state a = sctp_none"
    and handlers: "sa_on_send_data a" "sa_on_send_data b"
    and cookie: "length (sa_local_cookie b) \<le> 4000"
    and b0: "b0 = b\<lparr>sa_streams := [], sa_remote_tag := sa_local_tag a,
       sa_remote_init_tsn := sa_local_tsn a, sa_remote_port := sa_local_port a\<rparr>"
    and p1: "wire (a\<lparr>sa_remote_port := rp\<rparr>) (ct_init, cf_none, init_payload a []) = Some p1"
    and p2: "wire b0 (ct_init_ack, cf_none, init_payload b [cookie_param b]) = Some p2"
    and p3: "wire (a\<lparr>sa_remote_port := rp\<rparr>) (ct_cookie_echo, cf_none, sa_local_cookie b) = Some p3"
    and p4: "wire b0 (ct_cookie_ack, cf_none, []) = Some p4"
  shows "\<exists>a1 a2 a3 b1 b2.
     sctp_connect rp a = (True, a1) \<and>
     sa_trace a1 = sa_trace a @ [Ev_send_data p1 (sa_remote_endpoint a)] \<and>
     sctp_conn_input p1 b = Some b1 \<and>
     sa_trace b1 = sa_trace b @ [Ev_send_data p2 (sa_remote_endpoint b)] \<and>
     sctp_conn_input p2 a1 = Some a2 \<and>
     sa_trace a2 = sa_trace a1 @ [Ev_send_data p3 (sa_remote_endpoint a)] \<and>
     sctp_conn_input p3 b1 = Some b2 \<and>
     sa_trace b2 = sa_trace b1 @ Ev_send_data p4 (sa_remote_endpoint b) #
       (if sa_on_connected b then [Ev_connected] else []) \<and>
     sctp_conn_input p4 a2 = Some a3 \<and>
     sa_trace a3 = sa_trace a2 @ (if sa_on_connected a then [Ev_connected] else []) \<and>
     sa_state a3 = sctp_connected \<and> sa_state b2 = sctp_connected \<and>
     sa_remote_cookie a3 = sa_local_cookie b \<and>
     sa_remote_tag b2 = sa_local_tag a \<and> sa_remote_init_tsn b2 = sa_local_tsn a \<and>
     sa_remote_port b2 = sa_local_port a \<and> sa_remote_tag a3 = sa_remote_tag a"
proof -
  let ?a = "a\<lparr>sa_remote_port := rp\<rparr>"
  note c = connect_wire [OF port st handlers(1) p1]
  obtain a1 where a1: "sctp_connect rp a = (True, a1)"
      "sa_trace a1 = sa_trace a @ [Ev_send_data p1 (sa_remote_endpoint a)]"
      "sa_remote_endpoint a1 = sa_remote_endpoint a" "sa_on_connected a1 = sa_on_connected a"
      "sa_on_send_data a1" "sa_remote_tag a1 = sa_remote_tag a" "wire a1 = wire ?a"
    using c handlers by (auto simp: sctp_set_state_def sctp_tick_def wire_def send_header_def fun_eq_iff)
  obtain b1 where b1: "sctp_conn_input p1 b = Some b1"
      "sa_trace b1 = sa_trace b @ [Ev_send_data p2 (sa_remote_endpoint b)]"
      "sa_remote_endpoint b1 = sa_remote_endpoint b" "sa_on_connected b1 = sa_on_connected b"
      "sa_on_send_data b1" "wire b1 = wire b0" "sa_local_cookie b1 = sa_local_cookie b"
      "sa_remote_tag b1 = sa_local_tag a" "sa_remote_init_tsn b1 = sa_local_tsn a"
      "sa_remote_port b1 = sa_local_port a"
    using on_init_wire [of ?a p1 b0 b p2] p1 p2 b0 handlers
    by (auto simp: init_payload_def wire_def send_header_def fun_eq_iff)
  have a2: "sctp_conn_input p2 a1 = Some (a1\<lparr>sa_remote_cookie := sa_local_cookie b,
             sa_trace := sa_trace a1 @ [Ev_send_data p3 (sa_remote_endpoint a1)]\<rparr>)"
    using a1 p3 by (intro on_init_ack_wire [OF p2 cookie]) auto
  have b2: "sctp_conn_input p3 b1 = Some (emit (sa_on_connected b1) Ev_connected
      (sctp_set_state sctp_connected
        (b1\<lparr>sa_trace := sa_trace b1 @ [Ev_send_data p4 (sa_remote_endpoint b1)]\<rparr>)))"
    using b1 p3 p4 cookie by (intro on_cookie_echo_wire [of ?a]) auto
  note a3 = on_cookie_ack_wire [OF p4]
  show ?thesis
    using a1 b1 by (auto simp: a2 b2 a3 emit_eq sctp_set_state_def sctp_tick_def)
qed

section \<open>Witnesses\<close>

lemma assoc_sample_handshake:
  "sa_local_port assoc_sample \<noteq> 0" "sa_state assoc_sample = sctp_none"
  "length (sa_local_cookie assoc_sample) \<le> 4000"
  by (simp_all add: assoc_sample_eq sctp_new_def)

theorem handshake_connects_witness:
  "\<exists>p1 p2 p3 p4 a1 a2 a3 b1 b2. sctp_connect 5001 assoc_sample = (True, a1) \<and>
     sctp_conn_input p1 assoc_sample = Some b1 \<and> sctp_conn_input p2 a1 = Some a2 \<and>
     sctp_conn_input p3 b1 = Some b2 \<and> sctp_conn_input p4 a2 = Some a3 \<and>
     sa_state a3 = sctp_connected \<and> sa_state b2 = sctp_connected"
proof -
  let ?a = "assoc_sample" and ?ar = "assoc_sample\<lparr>sa_remote_port := 5001\<rparr>"
  let ?b = "?a\<lparr>sa_streams := [], sa_remote_tag := sa_local_tag ?a,
       sa_remote_init_tsn := sa_local_tsn ?a, sa_remote_port := sa_local_port ?a\<rparr>"
  have w: "wire ?ar (ct_init, cf_none, init_payload ?a []) \<noteq> None"
      "wire ?b (ct_init_ack, cf_none, init_payload ?a [cookie_param ?a]) \<noteq> None"
      "wire ?ar (ct_cookie_echo, cf_none, sa_local_cookie ?a) \<noteq> None"
      "wire ?b (ct_cookie_ack, cf_none, []) \<noteq> None"
    by code_simp+
  then obtain p1 p2 p3 p4 where
      "wire ?ar (ct_init, cf_none, init_payload ?a []) = Some p1"
      "wire ?b (ct_init_ack, cf_none, init_payload ?a [cookie_param ?a]) = Some p2"
      "wire ?ar (ct_cookie_echo, cf_none, sa_local_cookie ?a) = Some p3"
      "wire ?b (ct_cookie_ack, cf_none, []) = Some p4"
    by auto
  from handshake_connects [OF assoc_sample_handshake(1,2) assoc_sample_ok(3,3)
      assoc_sample_handshake(3) refl this] show ?thesis by blast
qed

theorem conn_input_drops_corrupted_witness:
  "let data = snd (sctp_packet_sign_crc32 ([0, 1, 0, 2, 0, 0, 0, 0, 0, 0, 0, 0] @ [11, 0, 0, 4]))
   in sctp_conn_input (data[13 := 1]) assoc_sample = Some assoc_sample"
proof -
  let ?d = "snd (sctp_packet_sign_crc32 ([0, 1, 0, 2, 0, 0, 0, 0, 0, 0, 0, 0] @ [11, 0, 0, 4]))"
  have "12 \<le> length ?d" "rd32 ?d 8 = Some (sctp_packet_check_crc32 ?d)"
      "sctp_packet_check_crc32 ?d \<noteq> 0" "13 < length ?d" "1 \<noteq> ?d ! 13"
      "sctp_packet_deserialize sctp_packet_new (?d[13 := 1]) \<noteq> None"
    by code_simp+
  from conn_input_drops_corrupted [OF this(1,2,3,4) _ this(5,6)] show ?thesis
    by (simp add: Let_def)
qed

end
