(* ===== verification/Sctp_Delivery.thy ===== *)
theory Sctp_Delivery
  imports Sctp_Protocol
begin

text \<open>
  User messages between two associations: packets of a fragmented message in any order, what
  the receiver buffers and delivers, the chunk that closes a stream, and the identifiers given
  to new streams.
\<close>

unbundle bit_operations_syntax

section \<open>Delivery of user messages\<close>

lemma assoc_ok_map_ok: "assoc_ok s \<Longrightarrow> map_ok (sa_streams s)"
  by (simp add: assoc_ok_def streams_ok_def)

lemma assoc_ok_find: "assoc_ok s \<Longrightarrow> map_find (sa_streams s) sid = Some st \<Longrightarrow> stream_ok sid st"
  by (auto simp: assoc_ok_def intro: streams_ok_find)

lemma on_data_wire:
  assumes "wire a (chunk_send (fl, c)) = Some buf" and "length (dc_payload c) \<le> 4000"
  shows "sctp_conn_input buf b = do { (_, s) \<leftarrow> sctp_insert_data_chunk fl c b; Some s }"
proof -
  have len: "length (sctp_data_chunk_serialize c) \<le> 4092"
    using assms(2) by (simp add: sctp_data_chunk_serialize_def)
  then show ?thesis
    using conn_input_wire [OF assms(1) [unfolded chunk_send_def, simplified] len, of b]
      data_chunk_roundtrip [of c]
    by (simp add: sctp_on_chunk_def sctp_on_data_def)
qed

lemma insert_data_chunk_present:
  assumes "map_find (sa_streams b) sid = Some st" and "dc_stream_id c = sid" and "stream_ok sid st"
  shows "sctp_insert_data_chunk fl c b = do {
     s \<leftarrow> sctp_deliver_loop sid (b\<lparr>sa_clock := (\<lambda>i. sa_clock b (Suc i)), sa_streams :=
            map_write sid (snd (sctp_stream_insert (sa_clock b 0) fl c st)) (sa_streams b)\<rparr>);
     Some (True, s) }"
proof -
  have "fst (sctp_stream_insert now fl c st)" for now
    using assms(2,3) message_map_insert_accepts [of sid "st_messages st" c]
    by (simp add: sctp_stream_insert_def split_beta stream_ok_def)
  then show ?thesis
    using assms(1,2) by (simp add: sctp_insert_data_chunk_def split_beta Let_def sctp_tick_def sctp_now_def)
qed

text \<open>A stream that does not exist yet is created by the first chunk.\<close>

lemma insert_data_chunk_ensure:
  assumes "map_ok (sa_streams b)" and "dc_stream_id c = sid"
  shows "sctp_insert_data_chunk fl c b = sctp_insert_data_chunk fl c (snd (sctp_ensure_stream sid b))"
  using assms
  by (auto simp: sctp_insert_data_chunk_def sctp_ensure_stream_def Let_def sm.find_ins_same
      split: option.splits)

fun recv_packets :: "bytes list \<Rightarrow> sctp \<Rightarrow> sctp cxx" where
  "recv_packets [] s = Some s"
| "recv_packets (p # ps) s = do { s \<leftarrow> sctp_conn_input p s; recv_packets ps s }"

lemma recv_packets_append:
  "recv_packets (ps @ qs) s = do { s \<leftarrow> recv_packets ps s; recv_packets qs s }"
proof (induction ps arbitrary: s)
  case (Cons p ps)
  then show ?case by (cases "sctp_conn_input p s") simp_all
qed simp

lemma recv_all_snoc:
  "recv_all clk (fcs @ [(fl, c)]) st =
     snd (sctp_stream_insert (clk (length fcs)) fl c (recv_all clk fcs st))"
proof (induction fcs arbitrary: clk st)
  case (Cons fc fcs)
  then show ?case by (cases fc) simp
qed simp

lemma stream_ok_recv_all: "stream_ok sid st \<Longrightarrow> stream_ok sid (recv_all clk fcs st)"
proof (induction fcs arbitrary: clk st)
  case (Cons fc fcs)
  then show ?case by (cases fc) (simp add: stream_ok_insert)
qed simp

lemma map_write_write [simp]: "map_write k v (map_write k w m) = map_write k v m"
  by (auto simp: map_write_def)

lemma map_write_id: "map_ok m \<Longrightarrow> map_find m k = Some v \<Longrightarrow> map_write k v m = m"
  by (auto simp: map_write_def map_find_iff intro!: map_idI)
    (metis map_find_iff option.inject)

text \<open>The association after the chunks \<open>zs\<close> arrived, as long as none of them completed a message.\<close>

definition buffered :: "u16 \<Rightarrow> sctp_stream \<Rightarrow> (sctp_chunk_flags \<times> sctp_data_chunk) list \<Rightarrow> sctp \<Rightarrow> sctp"
  where "buffered sid st zs b = b\<lparr>sa_clock := (\<lambda>i. sa_clock b (length zs + i)),
           sa_streams := map_write sid (recv_all (sa_clock b) zs st) (sa_streams b)\<rparr>"

lemma insert_buffered:
  assumes "map_find (sa_streams b) sid = Some st" and "stream_ok sid st" and "dc_stream_id c = sid"
  shows "sctp_insert_data_chunk fl c (buffered sid st zs b) = do {
     s \<leftarrow> sctp_deliver_loop sid (buffered sid st (zs @ [(fl, c)]) b);
     Some (True, s) }"
proof -
  have "map_find (sa_streams (buffered sid st zs b)) sid = Some (recv_all (sa_clock b) zs st)"
    using assms(1) by (simp add: buffered_def map_find_write)
  from insert_data_chunk_present [OF this assms(3) stream_ok_recv_all [OF assms(2)], of fl] show ?thesis
    by (simp add: buffered_def recv_all_snoc)
qed

lemma deliver_none:
  assumes "map_find (sa_streams b) sid = Some st" and "sctp_stream_next_message st = (None, st')"
  shows "sctp_deliver_loop sid b = Some b"
  using assms by (subst sctp_deliver_loop.simps) simp

lemma recv_prefix:
  assumes st: "map_find (sa_streams b) sid = Some st" "stream_ok sid st" "map_ok (sa_streams b)"
    and new: "map_find (st_messages st) (st_next_recv_ssn st) = None"
    and frs: "length frs \<le> 256" "\<forall>f \<in> set frs. length f \<le> 4000"
    and w: "\<forall>fc \<in> set zs. wire a (chunk_send fc) = Some (pk fc)"
    and zs: "distinct zs" "set zs \<subset> set (frag_chunks sid (st_next_recv_ssn st) ppid True frs tsn)"
  shows "recv_packets (map pk zs) b = Some (buffered sid st zs b)"
  using w zs
proof (induction zs rule: rev_induct)
  case Nil
  then show ?case
    using map_write_id [OF st(3,1)] by (simp add: buffered_def)
next
  case (snoc z zs)
  let ?L = "frag_chunks sid (st_next_recv_ssn st) ppid True frs tsn"
  obtain fl c where z: "z = (fl, c)" by (cases z)
  have "z \<in> set ?L" using snoc.prems by auto
  then obtain i where "i < length frs" "z = ?L ! i"
    by (metis in_set_conv_nth length_frag_chunks)
  then have c: "dc_stream_id c = sid" "length (dc_payload c) \<le> 4000"
    using frs(2) z by (simp_all add: frag_chunks_nth)
  have "recv_packets (map pk zs) b = Some (buffered sid st zs b)"
    using snoc by auto
  moreover have "sctp_conn_input (pk z) (buffered sid st zs b) = do {
      (_, s) \<leftarrow> sctp_insert_data_chunk fl c (buffered sid st zs b); Some s }"
    using snoc.prems(1) c(2) z by (intro on_data_wire) auto
  moreover have "sctp_deliver_loop sid (buffered sid st (zs @ [z]) b) = Some (buffered sid st (zs @ [z]) b)"
  proof (rule deliver_none)
    show "map_find (sa_streams (buffered sid st (zs @ [z]) b)) sid =
        Some (recv_all (sa_clock b) (zs @ [z]) st)"
      using st(1) by (simp add: buffered_def map_find_write)
    show "sctp_stream_next_message (recv_all (sa_clock b) (zs @ [z]) st) =
        (None, recv_all (sa_clock b) (zs @ [z]) st)"
      using st(2) new frs(1) snoc.prems(2,3)
      by (intro partial_next_message [where frs = frs and tsn = tsn and ppid = ppid])
        (auto simp: stream_ok_def messages_ok_def)
  qed
  ultimately show ?case
    using insert_buffered [OF st(1,2) c(1), of fl zs] z by (simp add: recv_packets_append)
qed

text \<open>No fragment arrives twice: nothing is recorded as a duplicate.\<close>

lemma msg_all_dups:
  assumes "list_all (chunk_for (ms_stream_id m) (ms_ssn m)) fcs" and "map_ok (ms_blocks m)"
    and "distinct (map (dc_tsn \<circ> snd) fcs)"
    and "\<forall>fc \<in> set fcs. map_find (ms_blocks m) (dc_tsn (snd fc)) = None"
  shows "ms_dups (msg_all clk fcs m) = ms_dups m"
  using assms
proof (induction fcs arbitrary: clk m)
  case (Cons fc fcs)
  obtain fl c where fc: "fc = (fl, c)" by (cases fc)
  let ?m = "snd (sctp_message_insert (clk 0) fl c m)"
  let ?b = "\<lparr>bk_is_begin = fl AND cf_begin \<noteq> 0, bk_is_end = fl AND cf_end \<noteq> 0, bk_chunk = c,
             bk_sent_times = 0\<rparr>"
  have m: "ms_dups ?m = ms_dups m" "ms_blocks ?m = map_insert (dc_tsn c) ?b (ms_blocks m)"
    using Cons.prems by (simp_all add: fc chunk_for_def sctp_message_insert_def Let_def)
  have "ms_dups (msg_all (\<lambda>i. clk (Suc i)) fcs ?m) = ms_dups ?m"
  proof (rule Cons.IH)
    show "\<forall>fc \<in> set fcs. map_find (ms_blocks ?m) (dc_tsn (snd fc)) = None"
    proof
      fix fc' assume "fc' \<in> set fcs"
      with Cons.prems have "dc_tsn (snd fc') \<noteq> dc_tsn c" "map_find (ms_blocks m) (dc_tsn (snd fc')) = None"
        by (force simp: fc)+
      with Cons.prems(2) show "map_find (ms_blocks ?m) (dc_tsn (snd fc')) = None"
        unfolding m by (simp add: sm.find_ins_other)
    qed
  qed (use Cons.prems in \<open>simp_all add: m sm.invar_ins fc\<close>)
  with m show ?case by (simp add: fc)
qed simp


lemma complete_message:
  assumes st: "stream_ok sid st" "map_find (st_messages st) (st_next_recv_ssn st) = None"
    and frs: "frs \<noteq> []" "length frs \<le> 256"
    and perm: "mset fcs = mset (frag_chunks sid (st_next_recv_ssn st) ppid True frs tsn)"
    and r: "r = recv_all clk fcs st"
  obtains m where "sctp_stream_next_message r = (Some m, r\<lparr>
        st_messages := map_erase (st_next_recv_ssn st) (st_messages r),
        st_next_recv_ssn := st_next_recv_ssn st + 1\<rparr>)"
    and "ms_stream_id m = sid" and "ms_dups m = []" and "sctp_message_serialize m = (True, concat frs)"
    and "sctp_message_calc_gaps m =
           m\<lparr>ms_cumulative_tsn := tsn + word_of_nat (length frs - 1), ms_gaps := []\<rparr>"
    and "\<exists>t b rest. ms_blocks m = (t, b) # rest \<and> dc_ppid (bk_chunk b) = ppid"
    and "map_find (st_messages r) (st_next_recv_ssn st + 1) = map_find (st_messages st) (st_next_recv_ssn st + 1)"
proof -
  let ?ssn = "st_next_recv_ssn st" and ?ms = "st_messages st"
  let ?L = "frag_chunks sid ?ssn ppid True frs tsn" and ?m0 = "msg_entry sid (st_init_tsn st) ?ssn ?ms"
  have ok: "map_ok ?ms" and sid: "st_stream_id st = sid"
    using st(1) by (simp_all add: stream_ok_def messages_ok_def)
  obtain m where m: "map_find (st_messages r) ?ssn = Some m" "ms_stream_id m = sid"
      "ms_begin_tsn m = tsn" "has_frags (ms_blocks m) tsn True frs"
      "map_find (ms_blocks m) = map_of (map block_entry ?L)"
    using msgs_all_has_frags [OF ok st(2) frs perm, of clk "st_init_tsn st"]
    by (auto simp: r recv_all_eq sid)
  have fcs: "list_all (chunk_for sid ?ssn) fcs" "fcs \<noteq> []" "set fcs = set ?L"
    using perm frs frag_chunks_for [of sid ?ssn ppid True frs tsn]
    by (auto simp: list_all_iff dest!: mset_eq_setD) (cases frs; auto)
  have find: "map_find (st_messages r) = (map_find ?ms)(?ssn \<mapsto> msg_all clk fcs ?m0)"
    using find_msgs_all [OF ok fcs(1,2)] by (simp add: r recv_all_eq sid)
  have "mset (map (dc_tsn \<circ> snd) fcs) = mset (map (dc_tsn \<circ> snd) ?L)"
    using perm by simp
  moreover have "distinct (map (dc_tsn \<circ> snd) ?L)"
    unfolding frag_chunks_tsns using frs(2) by (intro distinct_tsns) simp
  ultimately have "distinct (map (dc_tsn \<circ> snd) fcs)"
    using mset_eq_imp_distinct_iff by blast
  then have dups: "ms_dups m = []"
    using find m(1) fcs(1) st(2) msg_all_dups [of ?m0 fcs clk]
    by (simp add: msg_entry_def sctp_message_new_def Let_def)
  have ser: "sctp_message_serialize m = (True, concat frs)"
    using serialize_scan_has_frags [OF m(4) frs] m(3) by (simp add: sctp_message_serialize_def)
  then have "sctp_message_is_completed m"
    by (metis fst_conv serialize_iff_completed)
  moreover have "st_next_recv_ssn r = ?ssn"
    by (simp add: r recv_all_eq)
  ultimately have nm: "sctp_stream_next_message r = (Some m, r\<lparr>
        st_messages := map_erase ?ssn (st_messages r), st_next_recv_ssn := ?ssn + 1\<rparr>)"
    using m(1) by (simp add: sctp_stream_next_message_def)
  have "ms_blocks m \<noteq> []"
    using m(4) frs(1) by (cases frs) auto
  then obtain t b rest where b: "ms_blocks m = (t, b) # rest"
    by (cases "ms_blocks m") auto
  then have "map_of (map block_entry ?L) t = Some b"
    by (simp add: m(5) [symmetric])
  then have "dc_ppid (bk_chunk b) = ppid"
    using frag_chunks_ppid by (fastforce dest!: map_of_SomeD simp: block_entry_def)
  with b show ?thesis
    using that nm m(2) dups ser calc_gaps_complete [of m frs] m(3,4) frs find by auto
qed

text \<open>The state in which the last fragment of a user message leaves its receiver.\<close>

definition delivered ::
  "u16 \<Rightarrow> sctp_stream \<Rightarrow> (sctp_chunk_flags \<times> sctp_data_chunk) list \<Rightarrow> u32 \<Rightarrow> bytes \<Rightarrow> sctp \<Rightarrow> sctp" where
  "delivered sid st fcs cum data b =
     (let s = buffered sid st fcs b; r = recv_all (sa_clock b) fcs st;
          r' = r\<lparr>st_messages := map_erase (st_next_recv_ssn st) (st_messages r),
                 st_next_recv_ssn := st_next_recv_ssn st + 1\<rparr>
      in s\<lparr>sa_streams := map_write sid r' (sa_streams s),
           sa_trace := sa_trace b @
             sent b (ct_sack, cf_unordered, sctp_sack_chunk_serialize
               \<lparr>sk_tsn = cum, sk_arwnd = sa_local_arwnd b, sk_gaps = [], sk_dups = []\<rparr>) @
             (if sa_on_stream_message b then [Ev_stream_message sid data] else [])\<rparr>)"

lemma deliver_complete:
  assumes b: "map_find (sa_streams b) sid = Some st"
    and st: "stream_ok sid st" "map_find (st_messages st) (st_next_recv_ssn st) = None"
      "map_find (st_messages st) (st_next_recv_ssn st + 1) = None"
    and frs: "frs \<noteq> []" "length frs \<le> 256"
    and perm: "mset fcs = mset (frag_chunks sid (st_next_recv_ssn st) ppid True frs tsn)"
    and ppid: "ppid = ppid_binary \<or> ppid = ppid_string"
  shows "sctp_deliver_loop sid (buffered sid st fcs b) =
         Some (delivered sid st fcs (tsn + word_of_nat (length frs - 1)) (concat frs) b)"
proof -
  let ?r = "recv_all (sa_clock b) fcs st" and ?s = "buffered sid st fcs b"
  let ?r' = "?r\<lparr>st_messages := map_erase (st_next_recv_ssn st) (st_messages ?r),
                 st_next_recv_ssn := st_next_recv_ssn st + 1\<rparr>"
  let ?s1 = "?s\<lparr>sa_streams := map_write sid ?r' (sa_streams ?s)\<rparr>"
  let ?d = "delivered sid st fcs (tsn + word_of_nat (length frs - 1)) (concat frs) b"
  obtain m where m: "sctp_stream_next_message ?r = (Some m, ?r')" "ms_stream_id m = sid"
      "ms_dups m = []" "sctp_message_serialize m = (True, concat frs)"
      "sctp_message_calc_gaps m =
         m\<lparr>ms_cumulative_tsn := tsn + word_of_nat (length frs - 1), ms_gaps := []\<rparr>"
      "\<exists>t b rest. ms_blocks m = (t, b) # rest \<and> dc_ppid (bk_chunk b) = ppid"
      "map_find (st_messages ?r) (st_next_recv_ssn st + 1) = None"
    using complete_message [OF st(1,2) frs perm refl, of "sa_clock b"] st(3) by metis
  have find: "map_find (sa_streams ?s) sid = Some ?r"
    using b by (simp add: buffered_def map_find_write)
  have same: "sent ?s1 = sent b"
    by (simp add: sent_def buffered_def fun_eq_iff Let_def split: prod.splits)
  obtain m' s2 where s2: "sctp_send_sack m ?s1 = (m', s2)" by fastforce
  have user: "sctp_on_user_message sid m' s2 = Some ?d"
    using m ppid s2 same
    by (auto simp: sctp_on_user_message_def sctp_send_sack_def send_data_eq emit_eq delivered_def
        sctp_message_serialize_def sctp_sack_chunk_new_def buffered_def Let_def)
  have "sctp_deliver_loop sid ?d = Some ?d"
  proof (rule deliver_none)
    show "map_find (sa_streams ?d) sid = Some ?r'"
      using b by (simp add: delivered_def buffered_def map_find_write Let_def)
    have "map_find (map_erase k ms) k' = (if k' = k then None else map_find ms k')"
      for k k' and ms :: "(u16, sctp_message) std_map"
      by (induction ms) (auto simp: map_erase_def)
    then show "sctp_stream_next_message ?r' = (None, ?r')"
      using m(7) by (simp add: sctp_stream_next_message_def)
  qed
  then show ?thesis
    using find m(1) s2 user by (subst sctp_deliver_loop.simps) simp
qed


lemma recv_message:
  assumes b: "map_find (sa_streams b) sid = Some st" "map_ok (sa_streams b)"
    and st: "stream_ok sid st" "map_find (st_messages st) (st_next_recv_ssn st) = None"
      "map_find (st_messages st) (st_next_recv_ssn st + 1) = None"
    and frs: "frs \<noteq> []" "length frs \<le> 256" "\<forall>f \<in> set frs. length f \<le> 4000"
    and perm: "mset fcs = mset (frag_chunks sid (st_next_recv_ssn st) ppid True frs tsn)"
    and ppid: "ppid = ppid_binary \<or> ppid = ppid_string"
    and w: "\<forall>fc \<in> set fcs. wire a (chunk_send fc) = Some (pk fc)"
  shows "recv_packets (map pk fcs) b =
         Some (delivered sid st fcs (tsn + word_of_nat (length frs - 1)) (concat frs) b)"
proof -
  let ?L = "frag_chunks sid (st_next_recv_ssn st) ppid True frs tsn"
  have "length fcs = length frs"
    using perm by (metis length_frag_chunks mset_eq_length)
  then obtain zs fl c where fcs: "fcs = zs @ [(fl, c)]"
    using frs(1) by (cases fcs rule: rev_cases) auto
  have "distinct (map (dc_tsn \<circ> snd) ?L)"
    unfolding frag_chunks_tsns using frs(2) by (intro distinct_tsns) simp
  then have "distinct fcs" and set: "set fcs = set ?L"
    using perm mset_eq_imp_distinct_iff mset_eq_setD by (metis distinct_map)+
  then have zs: "distinct zs" "set zs \<subset> set ?L"
    unfolding set [symmetric] by (auto simp: fcs)
  obtain i where "i < length frs" "(fl, c) = ?L ! i"
    using set fcs by (metis in_set_conv_decomp in_set_conv_nth length_frag_chunks)
  then have c: "dc_stream_id c = sid" "length (dc_payload c) \<le> 4000"
    using frs(3) by (simp_all add: frag_chunks_nth)
  have "recv_packets (map pk zs) b = Some (buffered sid st zs b)"
    using w fcs zs by (intro recv_prefix [OF b(1) st(1) b(2) st(2) frs(2,3)]) auto
  moreover have "sctp_conn_input (pk (fl, c)) (buffered sid st zs b) = do {
      (_, s) \<leftarrow> sctp_insert_data_chunk fl c (buffered sid st zs b); Some s }"
    using w fcs c(2) by (intro on_data_wire) auto
  ultimately show ?thesis
    using insert_buffered [OF b(1) st(1) c(1), of fl zs] fcs
      deliver_complete [OF b(1) st frs(1,2) perm ppid] by (simp add: recv_packets_append on_chunks_Nil)
qed

section \<open>Sending a user message\<close>

lemma send_frags_bound: "\<forall>f \<in> set (send_frags data). length f \<le> 1200"
  using split_data_bounds by (auto simp: send_frags_def)

lemma send_user_message_wire:
  assumes "map_find (sa_streams a) sid = Some st" and "stream_ok sid st"
    and "length (st_sent_messages st) \<le> 10000" and "sa_on_send_data a"
    and "\<forall>fc \<in> set (stream_send_chunks st (sa_local_tsn a) data ppid_binary).
           wire a (chunk_send fc) = Some (pk fc)"
  shows "\<exists>a'. sctp_send_user_message sid data a = (True, a') \<and>
     sa_local_tsn a' = sa_local_tsn a + word_of_nat (length (send_frags data)) \<and>
     sa_trace a' = sa_trace a @ map (\<lambda>fc. Ev_send_data (pk fc) (sa_remote_endpoint a))
       (stream_send_chunks st (sa_local_tsn a) data ppid_binary)"
proof -
  let ?C = "stream_send_chunks st (sa_local_tsn a) data ppid_binary"
  let ?st = "save_all (sa_clock a) ?C (st\<lparr>st_next_send_ssn := st_next_send_ssn st + 1\<rparr>)"
  let ?a = "(sctp_tick (stream_send_reads st data) a)\<lparr>sa_local_tsn :=
      sa_local_tsn a + word_of_nat (length (send_frags data)), sa_streams := map_write sid ?st (sa_streams a)\<rparr>"
  have "sent ?a = sent a"
    by (simp add: sent_def fun_eq_iff Let_def sctp_tick_def split: prod.splits)
  moreover have "map (sent a) (map chunk_send ?C) =
      map (\<lambda>fc. [Ev_send_data (pk fc) (sa_remote_endpoint a)]) ?C"
    using assms(5) by (simp add: sent_wire [OF assms(4)])
  moreover have "concat (map (\<lambda>x. [g x]) xs) = map g xs" for g :: "_ \<Rightarrow> sctp_event" and xs
    by (induction xs) simp_all
  ultimately have "sa_trace (sctp_send_all (map chunk_send ?C) ?a) =
      sa_trace a @ map (\<lambda>fc. Ev_send_data (pk fc) (sa_remote_endpoint a)) ?C"
    by (simp only: send_all_eq) (simp add: sctp_tick_def)
  moreover have "sctp_send_user_message sid data a = (True, sctp_send_all (map chunk_send ?C) ?a)"
    using assms(1,2) stream_send_eq [OF assms(3)]
    by (simp add: sctp_send_user_message_def sctp_stream_send_on_def stream_ok_def Let_def sctp_tick_def)
  ultimately show ?thesis
    by (auto simp: send_all_eq sctp_tick_def)
qed

lemma mset_map_permute:
  "mset ys = mset (map f xs) \<Longrightarrow> \<exists>xs'. mset xs' = mset xs \<and> ys = map f xs'"
proof (induction ys arbitrary: xs)
  case (Cons y ys)
  then obtain us x vs where x: "xs = us @ x # vs" "y = f x"
    by (metis (no_types, opaque_lifting) image_iff list.set_intros(1) list.set_map mset_eq_setD split_list)
  with Cons.prems have "mset ys = mset (map f (us @ vs))" by simp
  from Cons.IH [OF this] obtain xs' where "mset xs' = mset (us @ vs)" "ys = map f xs'" by blast
  with x show ?case by (intro exI [of _ "x # xs'"]) simp
qed simp


text \<open>
  The whole way of a user message: \<open>send_user_message\<close> emits its packets, and whatever order they
  arrive in, the receiver hands over exactly the bytes that were sent and acknowledges them.
\<close>

text \<open>
  C1: a user message of at most 307200 bytes sent on a stream that is open at both ends arrives
  whole. Assumed are: well-formed states at both ends; at the sender a bound send handler, at
  most 10000 messages awaiting acknowledgement, and packets that can be signed (no checksum is
  0); at the peer bound send and message handlers, the sender's next sequence number as the next
  one expected, and nothing buffered under it or the one after it. The sender then emits exactly
  one packet per fragment of 1200 bytes (one for a shorter message), each with a checksum that
  verifies. In whatever order these packets reach the peer, its conn_input is defined on each;
  altogether it emits one SACK, whose cumulative TSN is the last one sent (none if the checksum
  of the SACK computes to 0), and hands exactly the sent bytes to its message handler, once.
\<close>

theorem message_transfer:
  assumes a: "assoc_ok a" "map_find (sa_streams a) sid = Some sa" "sa_on_send_data a"
      "length (st_sent_messages sa) \<le> 10000"
    and data: "length data \<le> 307200"
    and signed: "\<forall>fc \<in> set (stream_send_chunks sa (sa_local_tsn a) data ppid_binary).
           wire a (chunk_send fc) \<noteq> None"
    and b: "assoc_ok b" "map_find (sa_streams b) sid = Some sb" "sa_on_send_data b"
      "sa_on_stream_message b" "st_next_recv_ssn sb = st_next_send_ssn sa"
      "map_find (st_messages sb) (st_next_recv_ssn sb) = None"
      "map_find (st_messages sb) (st_next_recv_ssn sb + 1) = None"
  shows "\<exists>a' ps. sctp_send_user_message sid data a = (True, a') \<and>
     sa_trace a' = sa_trace a @ map (\<lambda>p. Ev_send_data p (sa_remote_endpoint a)) ps \<and>
     length ps = (if length data < 1200 then 1 else (length data + 1199) div 1200) \<and>
     sa_local_tsn a' = sa_local_tsn a + word_of_nat (length ps) \<and>
     (\<forall>p \<in> set ps. rd32 p 8 = Some (sctp_packet_check_crc32 p)) \<and>
     (\<forall>qs. mset qs = mset ps \<longrightarrow> (\<exists>b'. recv_packets qs b = Some b' \<and>
        sa_trace b' = sa_trace b @
          (case wire b (ct_sack, cf_unordered, sctp_sack_chunk_serialize
            \<lparr>sk_tsn = sa_local_tsn a' - 1, sk_arwnd = sa_local_arwnd b, sk_gaps = [], sk_dups = []\<rparr>) of
             None \<Rightarrow> [] | Some q \<Rightarrow> [Ev_send_data q (sa_remote_endpoint b)]) @
          [Ev_stream_message sid data]))"
proof -
  let ?pk = "\<lambda>fc. the (wire a (chunk_send fc))" and ?tsn = "sa_local_tsn a"
  let ?C = "stream_send_chunks sa ?tsn data ppid_binary"
  have oks: "stream_ok sid sa" "stream_ok sid sb" "map_ok (sa_streams b)"
    using a(1,2) b(1,2) by (auto intro: assoc_ok_map_ok assoc_ok_find)
  have C: "?C = frag_chunks sid (st_next_recv_ssn sb) ppid_binary True (send_frags data) ?tsn"
    using oks(1) b(5) by (simp add: stream_send_chunks_def stream_ok_def)
  have w: "\<forall>fc \<in> set ?C. wire a (chunk_send fc) = Some (?pk fc)"
    using signed by auto
  from send_user_message_wire [OF a(2) oks(1) a(4,3) w] obtain a' where a':
      "sctp_send_user_message sid data a = (True, a')"
      "sa_local_tsn a' = ?tsn + word_of_nat (length (send_frags data))"
      "sa_trace a' = sa_trace a @ map (\<lambda>p. Ev_send_data p (sa_remote_endpoint a)) (map ?pk ?C)"
    by (auto simp: comp_def)
  have len: "length (map ?pk ?C) = length (send_frags data)"
    by (simp add: C)
  have crc: "\<forall>p \<in> set (map ?pk ?C). rd32 p 8 = Some (sctp_packet_check_crc32 p)"
    using w by (auto intro: wire_checksum [of a])
  obtain k where k: "length (send_frags data) = Suc k"
    using send_frags_nonempty [of data] by (cases "send_frags data") auto
  have "\<exists>b'. recv_packets qs b = Some b' \<and> sa_trace b' = sa_trace b @
          sent b (ct_sack, cf_unordered, sctp_sack_chunk_serialize
            \<lparr>sk_tsn = sa_local_tsn a' - 1, sk_arwnd = sa_local_arwnd b, sk_gaps = [], sk_dups = []\<rparr>) @
          [Ev_stream_message sid data]"
    if perm: "mset qs = mset (map ?pk ?C)" for qs
  proof -
    from mset_map_permute [OF perm] obtain fcs where fcs: "mset fcs = mset ?C" "qs = map ?pk fcs"
      by blast
    have "\<forall>fc \<in> set fcs. wire a (chunk_send fc) = Some (?pk fc)"
        "\<forall>f \<in> set (send_frags data). length f \<le> 4000"
      using w mset_eq_setD [OF fcs(1)] send_frags_bound [of data] by auto
    then have "recv_packets qs b = Some (delivered sid sb fcs (?tsn + word_of_nat k) data b)"
      using recv_message [OF b(2) oks(3,2) b(6,7) send_frags_nonempty length_send_frags [OF data],
          of fcs ppid_binary ?tsn a ?pk] fcs C k
      by (simp add: concat_send_frags)
    with b(4) show ?thesis
      by (simp add: delivered_def a'(2) k Let_def)
  qed
  with a' len crc show ?thesis
    unfolding sent_wire [OF b(3)]
    by (intro exI [of _ a'] exI [of _ "map ?pk ?C"]) (auto simp: length_send_frags_eq)
qed

text \<open>
  A stream closed by one end: the chunk its \<open>close\<close> sends makes the other end erase the stream
  inside the loop that iterates it, so that \<open>conn_input\<close> is undefined.
\<close>

text \<open>The flags and the chunk that \<open>close\<close> sends.\<close>

definition close_chunk :: "sctp \<Rightarrow> u16 \<Rightarrow> sctp_stream \<Rightarrow> sctp_chunk_flags \<times> sctp_data_chunk" where
  "close_chunk a sid st = (sctp_chunk_flags_or cf_begin cf_end,
     \<lparr>dc_tsn = sa_local_tsn a, dc_stream_id = sid, dc_stream_sequence = st_next_send_ssn st,
      dc_ppid = ppid_empty_string, dc_payload = []\<rparr>)"

lemma close_chunk_undefined:
  assumes a: "assoc_ok a" "map_find (sa_streams a) sid = Some sa"
    and p: "wire a (chunk_send (close_chunk a sid sa)) = Some p"
    and b: "assoc_ok b" "map_find (sa_streams b) sid = Some sb"
      "st_next_recv_ssn sb = st_next_send_ssn sa"
      "map_find (st_messages sb) (st_next_recv_ssn sb) = None"
  shows "sctp_conn_input p b = None"
proof -
  let ?c = "\<lparr>dc_tsn = sa_local_tsn a, dc_stream_id = sid, dc_stream_sequence = st_next_send_ssn sa,
         dc_ppid = ppid_empty_string, dc_payload = []\<rparr>"
  let ?fc = "(sctp_chunk_flags_or cf_begin cf_end, ?c)"
  have sb: "stream_ok sid sb" and ok: "map_ok (sa_streams b)"
    using b(1,2) by (auto intro: assoc_ok_map_ok assoc_ok_find)
  have C: "frag_chunks sid (st_next_recv_ssn sb) ppid_empty_string True [[]] (sa_local_tsn a) = [?fc]"
    using b(3) by (simp add: frag_flags_def sctp_chunk_flags_or_def)
  let ?r = "recv_all (sa_clock b) [?fc] sb" and ?s = "buffered sid sb [?fc] b"
  obtain m r' where m: "sctp_stream_next_message ?r = (Some m, r')" "ms_stream_id m = sid"
      "\<exists>t b rest. ms_blocks m = (t, b) # rest \<and> dc_ppid (bk_chunk b) = ppid_empty_string"
    using complete_message [OF sb b(4), of "[[]]" "[?fc]" ppid_empty_string "sa_local_tsn a" ?r "sa_clock b"]
    unfolding C by (metis length_Cons list.distinct(1) list.size(3) one_le_numeral One_nat_def)
  have find: "map_find (sa_streams ?s) sid = Some ?r"
    using b(2) by (simp add: buffered_def map_find_write)
  let ?s1 = "?s\<lparr>sa_streams := map_write sid r' (sa_streams ?s)\<rparr>"
  obtain m' s2 where s2: "sctp_send_sack m ?s1 = (m', s2)" by fastforce
  obtain t where "m' = sctp_message_calc_gaps m" "s2 = ?s1\<lparr>sa_trace := sa_trace ?s1 @ t\<rparr>"
    using s2 send_sack_eq [of m ?s1] by auto
  then have m': "ms_stream_id m' = sid" "ms_blocks m' = ms_blocks m"
      "map_find (sa_streams s2) sid = Some r'"
    using m(2) find by (simp_all add: map_find_write)
  obtain s3 where s3: "sctp_on_user_message sid m' s2 = Some s3" "map_find (sa_streams s3) sid = None"
    using m(3) m' by (auto simp: sctp_on_user_message_def Let_def close_erase_find)
  have "sctp_deliver_loop sid s3 = None"
    using s3(2) by (subst sctp_deliver_loop.simps) simp
  then have "sctp_deliver_loop sid ?s = None"
    using find m(1) s2 s3(1) by (subst sctp_deliver_loop.simps) simp
  moreover have "b = buffered sid sb [] b"
    using map_write_id [OF ok b(2)] by (simp add: buffered_def)
  ultimately have "sctp_insert_data_chunk (sctp_chunk_flags_or cf_begin cf_end) ?c b = None"
    using insert_buffered [OF b(2) sb, of ?c "sctp_chunk_flags_or cf_begin cf_end" "[]"] by simp
  then show ?thesis
    using on_data_wire [of a "sctp_chunk_flags_or cf_begin cf_end" ?c p b] p by (simp add: chunk_send_def close_chunk_def)
qed

text \<open>The events of closing a stream: its packet, if that can be signed and sent, and the callback.\<close>

lemma close_stream_trace:
  assumes "assoc_ok a" and "map_find (sa_streams a) sid = Some sa"
    and "sctp_close_stream sid a = Some a'"
  shows "sa_trace a' = sa_trace a @ sent a (chunk_send (close_chunk a sid sa)) @
     (if sa_on_stream_closed a then [Ev_stream_closed sid] else [])"
proof -
  have "stream_ok sid sa" using assms(1,2) by (rule assoc_ok_find)
  moreover have "sent (a\<lparr>sa_local_tsn := n, sa_streams := m\<rparr>) = sent a" for n m
    by (simp add: sent_def fun_eq_iff Let_def split: prod.splits)
  ultimately show ?thesis
    using assms(2,3)
    by (auto simp: sctp_close_stream_def sctp_stream_close_on_def sctp_stream_close_def Let_def
        send_all_eq emit_eq stream_ok_def sctp_stream_on_send_data_def close_chunk_def chunk_send_def
        sctp_data_chunk_new_def)
qed

text \<open>
  C19: the packet that close_stream emits makes the peer's conn_input undefined: the peer's
  handler erases the stream while its delivery loop still holds an iterator to it. Assumed:
  well-formed states, the stream is open at both ends, the peer expects the sender's next
  sequence number and has nothing buffered under it, and the packet is sent (it is the only one
  close_stream sends).
\<close>

theorem close_undefined:
  assumes a: "assoc_ok a" "map_find (sa_streams a) sid = Some sa"
    and close: "sctp_close_stream sid a = Some a'" "sa_trace a' = sa_trace a @ Ev_send_data p ep # evs"
    and b: "assoc_ok b" "map_find (sa_streams b) sid = Some sb"
      "st_next_recv_ssn sb = st_next_send_ssn sa"
      "map_find (st_messages sb) (st_next_recv_ssn sb) = None"
  shows "sctp_conn_input p b = None \<and> ep = sa_remote_endpoint a \<and>
    evs = (if sa_on_stream_closed a then [Ev_stream_closed sid] else [])"
proof -
  let ?c = "chunk_send (close_chunk a sid sa)"
  have *: "sent a ?c @ (if sa_on_stream_closed a then [Ev_stream_closed sid] else []) =
      Ev_send_data p ep # evs"
    using close_stream_trace [OF a close(1)] close(2) by simp
  then have "sent a ?c \<noteq> []" by (auto split: if_splits)
  then have "sa_on_send_data a" by (auto simp: sent_def Let_def split: prod.splits if_splits)
  from sent_wire [OF this, of ?c] * \<open>sent a ?c \<noteq> []\<close>
  have "wire a ?c = Some p \<and> ep = sa_remote_endpoint a \<and>
      evs = (if sa_on_stream_closed a then [Ev_stream_closed sid] else [])"
    by (auto split: option.splits)
  with close_chunk_undefined [OF a _ b] show ?thesis by blast
qed

section \<open>Stream identifiers\<close>

lemma next_stream_id_loop_free:
  assumes "\<exists>i < n. map_find (sa_streams s) (sa_init_stream_id s + 2 * word_of_nat i) = None"
  shows "\<exists>i < n. next_stream_id_loop n s =
      (ucast (sa_init_stream_id s + 2 * word_of_nat i),
       s\<lparr>sa_init_stream_id := sa_init_stream_id s + 2 * word_of_nat (Suc i)\<rparr>) \<and>
     map_find (sa_streams s) (sa_init_stream_id s + 2 * word_of_nat i) = None"
  using assms
proof (induction n arbitrary: s)
  case (Suc n)
  let ?s = "s\<lparr>sa_init_stream_id := sa_init_stream_id s + 2\<rparr>"
  have shift: "sa_init_stream_id s + 2 * word_of_nat (Suc i) = sa_init_stream_id ?s + 2 * word_of_nat i" for i
    by (simp add: algebra_simps)
  show ?case
  proof (cases "map_find (sa_streams s) (sa_init_stream_id s) = None")
    case True
    then show ?thesis by (intro exI [of _ 0]) (simp add: Let_def)
  next
    case False
    then have "\<exists>i < n. map_find (sa_streams ?s) (sa_init_stream_id ?s + 2 * word_of_nat i) = None"
      using Suc.prems unfolding ex_less_Suc by (auto simp: algebra_simps)
    from Suc.IH [OF this] obtain i where i: "i < n" "next_stream_id_loop n ?s =
        (ucast (sa_init_stream_id ?s + 2 * word_of_nat i),
         ?s\<lparr>sa_init_stream_id := sa_init_stream_id ?s + 2 * word_of_nat (Suc i)\<rparr>)"
        "map_find (sa_streams ?s) (sa_init_stream_id ?s + 2 * word_of_nat i) = None" by blast
    with False show ?thesis
      by (intro exI [of _ "Suc i"]) (auto simp: Let_def algebra_simps)
  qed
qed simp

lemma stream_ids_distinct:
  assumes "i < 0x7FFF" and "j < 0x7FFF" and "(k :: u16) + 2 * word_of_nat i = k + 2 * word_of_nat j"
  shows "i = j"
proof -
  have "unat (2 * word_of_nat n :: u16) = 2 * n" if "n < 0x7FFF" for n
    using that unat_of_nat_small [of "2 * n", where 'a = 16] by simp
  with assms show ?thesis
    by (metis add_left_cancel mult_cancel1 zero_neq_numeral)
qed

text \<open>
  C20: with fewer than 0x7FFF streams make_next_stream_id returns an identifier no stream has,
  of the parity of the initial identifier, and moves the initial identifier past it.
\<close>

theorem next_stream_id_fresh:
  assumes "length (sa_streams s) < 0x7FFF"
  shows "\<exists>sid. sctp_make_next_stream_id s = (ucast sid, s\<lparr>sa_init_stream_id := sid + 2\<rparr>) \<and>
     map_find (sa_streams s) sid = None \<and> bit sid 0 = bit (sa_init_stream_id s) 0"
proof -
  let ?f = "\<lambda>i. sa_init_stream_id s + 2 * word_of_nat i"
  have "\<exists>i < 0x7FFF. map_find (sa_streams s) (?f i) = None"
  proof (rule ccontr)
    assume "\<not> (\<exists>i < 0x7FFF. map_find (sa_streams s) (?f i) = None)"
    then have sub: "?f ` {0..<0x7FFF} \<subseteq> fst ` set (sa_streams s)"
      by (auto simp: map_find_None_iff)
    have "card (?f ` {0..<0x7FFF}) = 0x7FFF"
      by (subst card_image) (auto simp: inj_on_def intro: stream_ids_distinct)
    moreover have "card (?f ` {0..<0x7FFF}) \<le> card (fst ` set (sa_streams s))"
      using sub by (intro card_mono) simp_all
    moreover have "card (fst ` set (sa_streams s)) \<le> length (sa_streams s)"
      by (metis card_length length_map list.set_map)
    ultimately show False using assms by simp
  qed
  from next_stream_id_loop_free [OF this] obtain i where i: "i < 0x7FFF"
      "next_stream_id_loop 0x7FFF s = (ucast (?f i), s\<lparr>sa_init_stream_id := ?f (Suc i)\<rparr>)"
      "map_find (sa_streams s) (?f i) = None" by blast
  have "bit (?f i) 0 = bit (sa_init_stream_id s) 0"
    by (simp add: bit_0 even_add)
  with i show ?thesis
    by (intro exI [of _ "?f i"]) (simp add: sctp_make_next_stream_id_def algebra_simps)
qed

section \<open>Witnesses\<close>

theorem message_transfer_witness:
  "\<exists>a' p. sctp_send_user_message 1 [104, 105] assoc_sample = (True, a') \<and>
     sa_trace a' = sa_trace assoc_sample @ [Ev_send_data p (sa_remote_endpoint assoc_sample)] \<and>
     (\<exists>b'. recv_packets [p] assoc_sample = Some b' \<and>
        sa_trace b' = sa_trace assoc_sample @
          (case wire assoc_sample (ct_sack, cf_unordered, sctp_sack_chunk_serialize
            \<lparr>sk_tsn = sa_local_tsn a' - 1, sk_arwnd = sa_local_arwnd assoc_sample, sk_gaps = [], sk_dups = []\<rparr>) of
             None \<Rightarrow> [] | Some q \<Rightarrow> [Ev_send_data q (sa_remote_endpoint assoc_sample)]) @
          [Ev_stream_message 1 [104, 105]])"
proof -
  have *: "\<forall>fc \<in> set (stream_send_chunks (sctp_stream_new 1 0 True) (sa_local_tsn assoc_sample)
      [104, 105] ppid_binary). wire assoc_sample (chunk_send fc) \<noteq> None"
    unfolding list_all_iff [symmetric] by code_simp
  have "sa_on_stream_message assoc_sample" by (simp add: assoc_sample_eq)
  from message_transfer [OF assoc_sample_ok _ _ * assoc_sample_ok this]
  obtain a' ps where ps: "length ps = 1" and
    r: "sctp_send_user_message 1 [104, 105] assoc_sample = (True, a')"
     "sa_trace a' = sa_trace assoc_sample @ map (\<lambda>p. Ev_send_data p (sa_remote_endpoint assoc_sample)) ps"
     "\<And>qs. mset qs = mset ps \<Longrightarrow> (\<exists>b'. recv_packets qs assoc_sample = Some b' \<and>
        sa_trace b' = sa_trace assoc_sample @
          (case wire assoc_sample (ct_sack, cf_unordered, sctp_sack_chunk_serialize
            \<lparr>sk_tsn = sa_local_tsn a' - 1, sk_arwnd = sa_local_arwnd assoc_sample, sk_gaps = [], sk_dups = []\<rparr>) of
             None \<Rightarrow> [] | Some q \<Rightarrow> [Ev_send_data q (sa_remote_endpoint assoc_sample)]) @
          [Ev_stream_message 1 [104, 105]])"
    by (auto simp: sctp_stream_new_def map_find_def)
  from ps obtain p where p: "ps = [p]" by (cases ps) auto
  show ?thesis
    using r(1,2) r(3) [OF refl] unfolding p by (intro exI [of _ a'] exI [of _ p]) simp
qed

theorem close_undefined_witness:
  "\<exists>a' p evs. sctp_close_stream 1 assoc_sample = Some a' \<and>
     sa_trace a' = sa_trace assoc_sample @ Ev_send_data p (sa_remote_endpoint assoc_sample) # evs \<and>
     sctp_conn_input p assoc_sample = None"
proof -
  let ?c = "chunk_send (close_chunk assoc_sample 1 (sctp_stream_new 1 0 True))"
  have "wire assoc_sample ?c \<noteq> None" by code_simp
  then obtain p where p: "sent assoc_sample ?c = [Ev_send_data p (sa_remote_endpoint assoc_sample)]"
    using sent_wire [OF assoc_sample_ok(3)] by auto
  obtain a' where a': "sctp_close_stream 1 assoc_sample = Some a'"
    using assoc_sample_ok(2) by (simp add: sctp_close_stream_def Let_def)
  from close_stream_trace [OF assoc_sample_ok(1,2) a'] have tr: "sa_trace a' = sa_trace assoc_sample @
      Ev_send_data p (sa_remote_endpoint assoc_sample) #
      (if sa_on_stream_closed assoc_sample then [Ev_stream_closed 1] else [])"
    unfolding p by simp
  from close_undefined [OF assoc_sample_ok(1,2) a' tr assoc_sample_ok(1,2)] a' tr show ?thesis
    by (auto simp: sctp_stream_new_def map_find_def)
qed

theorem next_stream_id_fresh_witness:
  "\<exists>sid. sctp_make_next_stream_id assoc_sample =
       (ucast sid, assoc_sample\<lparr>sa_init_stream_id := sid + 2\<rparr>) \<and>
     map_find (sa_streams assoc_sample) sid = None \<and> bit sid 0 = bit (sa_init_stream_id assoc_sample) 0"
  by (rule next_stream_id_fresh) (simp add: assoc_sample_eq)

end
