(* ===== verification/Crc32.thy ===== *)
theory Crc32
  imports Crc_Table
begin

text \<open>
  The Ethernet CRC of \<open>sys2/security/crc32.c\<close> behind the STUN fingerprint, with the two routines
  that run the CRC backwards. A second instance of the tables of theory \<open>Crc_Table\<close>.
\<close>

unbundle bit_operations_syntax

section \<open>The code\<close>

definition crc32_tab :: "u32 list" where
  "crc32_tab =
    [0x00000000, 0x77073096, 0xee0e612c, 0x990951ba, 0x076dc419, 0x706af48f,
     0xe963a535, 0x9e6495a3, 0x0edb8832, 0x79dcb8a4, 0xe0d5e91e, 0x97d2d988,
     0x09b64c2b, 0x7eb17cbd, 0xe7b82d07, 0x90bf1d91, 0x1db71064, 0x6ab020f2,
     0xf3b97148, 0x84be41de, 0x1adad47d, 0x6ddde4eb, 0xf4d4b551, 0x83d385c7,
     0x136c9856, 0x646ba8c0, 0xfd62f97a, 0x8a65c9ec, 0x14015c4f, 0x63066cd9,
     0xfa0f3d63, 0x8d080df5, 0x3b6e20c8, 0x4c69105e, 0xd56041e4, 0xa2677172,
     0x3c03e4d1, 0x4b04d447, 0xd20d85fd, 0xa50ab56b, 0x35b5a8fa, 0x42b2986c,
     0xdbbbc9d6, 0xacbcf940, 0x32d86ce3, 0x45df5c75, 0xdcd60dcf, 0xabd13d59,
     0x26d930ac, 0x51de003a, 0xc8d75180, 0xbfd06116, 0x21b4f4b5, 0x56b3c423,
     0xcfba9599, 0xb8bda50f, 0x2802b89e, 0x5f058808, 0xc60cd9b2, 0xb10be924,
     0x2f6f7c87, 0x58684c11, 0xc1611dab, 0xb6662d3d, 0x76dc4190, 0x01db7106,
     0x98d220bc, 0xefd5102a, 0x71b18589, 0x06b6b51f, 0x9fbfe4a5, 0xe8b8d433,
     0x7807c9a2, 0x0f00f934, 0x9609a88e, 0xe10e9818, 0x7f6a0dbb, 0x086d3d2d,
     0x91646c97, 0xe6635c01, 0x6b6b51f4, 0x1c6c6162, 0x856530d8, 0xf262004e,
     0x6c0695ed, 0x1b01a57b, 0x8208f4c1, 0xf50fc457, 0x65b0d9c6, 0x12b7e950,
     0x8bbeb8ea, 0xfcb9887c, 0x62dd1ddf, 0x15da2d49, 0x8cd37cf3, 0xfbd44c65,
     0x4db26158, 0x3ab551ce, 0xa3bc0074, 0xd4bb30e2, 0x4adfa541, 0x3dd895d7,
     0xa4d1c46d, 0xd3d6f4fb, 0x4369e96a, 0x346ed9fc, 0xad678846, 0xda60b8d0,
     0x44042d73, 0x33031de5, 0xaa0a4c5f, 0xdd0d7cc9, 0x5005713c, 0x270241aa,
     0xbe0b1010, 0xc90c2086, 0x5768b525, 0x206f85b3, 0xb966d409, 0xce61e49f,
     0x5edef90e, 0x29d9c998, 0xb0d09822, 0xc7d7a8b4, 0x59b33d17, 0x2eb40d81,
     0xb7bd5c3b, 0xc0ba6cad, 0xedb88320, 0x9abfb3b6, 0x03b6e20c, 0x74b1d29a,
     0xead54739, 0x9dd277af, 0x04db2615, 0x73dc1683, 0xe3630b12, 0x94643b84,
     0x0d6d6a3e, 0x7a6a5aa8, 0xe40ecf0b, 0x9309ff9d, 0x0a00ae27, 0x7d079eb1,
     0xf00f9344, 0x8708a3d2, 0x1e01f268, 0x6906c2fe, 0xf762575d, 0x806567cb,
     0x196c3671, 0x6e6b06e7, 0xfed41b76, 0x89d32be0, 0x10da7a5a, 0x67dd4acc,
     0xf9b9df6f, 0x8ebeeff9, 0x17b7be43, 0x60b08ed5, 0xd6d6a3e8, 0xa1d1937e,
     0x38d8c2c4, 0x4fdff252, 0xd1bb67f1, 0xa6bc5767, 0x3fb506dd, 0x48b2364b,
     0xd80d2bda, 0xaf0a1b4c, 0x36034af6, 0x41047a60, 0xdf60efc3, 0xa867df55,
     0x316e8eef, 0x4669be79, 0xcb61b38c, 0xbc66831a, 0x256fd2a0, 0x5268e236,
     0xcc0c7795, 0xbb0b4703, 0x220216b9, 0x5505262f, 0xc5ba3bbe, 0xb2bd0b28,
     0x2bb45a92, 0x5cb36a04, 0xc2d7ffa7, 0xb5d0cf31, 0x2cd99e8b, 0x5bdeae1d,
     0x9b64c2b0, 0xec63f226, 0x756aa39c, 0x026d930a, 0x9c0906a9, 0xeb0e363f,
     0x72076785, 0x05005713, 0x95bf4a82, 0xe2b87a14, 0x7bb12bae, 0x0cb61b38,
     0x92d28e9b, 0xe5d5be0d, 0x7cdcefb7, 0x0bdbdf21, 0x86d3d2d4, 0xf1d4e242,
     0x68ddb3f8, 0x1fda836e, 0x81be16cd, 0xf6b9265b, 0x6fb077e1, 0x18b74777,
     0x88085ae6, 0xff0f6a70, 0x66063bca, 0x11010b5c, 0x8f659eff, 0xf862ae69,
     0x616bffd3, 0x166ccf45, 0xa00ae278, 0xd70dd2ee, 0x4e048354, 0x3903b3c2,
     0xa7672661, 0xd06016f7, 0x4969474d, 0x3e6e77db, 0xaed16a4a, 0xd9d65adc,
     0x40df0b66, 0x37d83bf0, 0xa9bcae53, 0xdebb9ec5, 0x47b2cf7f, 0x30b5ffe9,
     0xbdbdf21c, 0xcabac28a, 0x53b39330, 0x24b4a3a6, 0xbad03605, 0xcdd70693,
     0x54de5729, 0x23d967bf, 0xb3667a2e, 0xc4614ab8, 0x5d681b02, 0x2a6f2b94,
     0xb40bbe37, 0xc30c8ea1, 0x5a05df1b, 0x2d02ef8d]"

fun cyg_crc32_accumulate :: "u32 \<Rightarrow> bytes \<Rightarrow> u32" where
  "cyg_crc32_accumulate crc32val [] = crc32val"
| "cyg_crc32_accumulate crc32val (x # s) =
     cyg_crc32_accumulate (crc32_tab ! unat ((crc32val XOR ucast x) AND 0xFF) XOR drop_bit 8 crc32val) s"

definition cyg_crc32 :: "bytes \<Rightarrow> u32" where
  "cyg_crc32 s = cyg_crc32_accumulate 0 s"

text \<open>The loop is the one of \<open>cyg_crc32_accumulate\<close>; the buffers passed are never null.\<close>

definition cyg_ether_crc32_accumulate :: "u32 \<Rightarrow> bytes \<Rightarrow> u32" where
  "cyg_ether_crc32_accumulate crc32val s =
     (let crc32val = crc32val XOR 0xFFFFFFFF;
          crc32val = cyg_crc32_accumulate crc32val s
      in crc32val XOR 0xFFFFFFFF)"

definition cyg_ether_crc32 :: "bytes \<Rightarrow> u32" where
  "cyg_ether_crc32 s = cyg_ether_crc32_accumulate 0 s"

text \<open>
  The search reads the table before it compares the index, and compares it with
  \<open>sizeof(crc32_tab)\<close>, 1024: a miss would read behind the table, which is undefined.
\<close>

function crc32_search :: "nat \<Rightarrow> u32 \<Rightarrow> nat cxx" where
  "crc32_search i value =
     (if i < length crc32_tab then
        (if drop_bit 24 (crc32_tab ! i) \<noteq> drop_bit 24 value then crc32_search (i + 1) value else Some i)
      else None)"
  by pat_completeness auto
termination
  by (relation "measure (\<lambda>(i, _). length crc32_tab - i)") auto

declare crc32_search.simps [simp del]

definition cyg_crc32_in_table :: "u32 \<Rightarrow> int cxx" where
  "cyg_crc32_in_table value =
     do { i \<leftarrow> crc32_search 0 value; Some (if i = 1024 then -1 else int i) }"

text \<open>Reading the table at an index behind it, or at the -1 of a failed search, is undefined.\<close>

definition crc32_tab_at :: "int \<Rightarrow> u32 cxx" where
  "crc32_tab_at x = (if 0 \<le> x \<and> x < int (length crc32_tab) then Some (crc32_tab ! nat x) else None)"

text \<open>
  The two loops of \<open>cyg_crc32_change\<close>: \<open>tx\<close> from \<open>crc_dst\<close>, where the inner \<open>None\<close> is the early
  \<open>return -1\<close> of a failed search, then the bytes from \<open>crc_src\<close>.
\<close>

fun crc32_codes :: "nat \<Rightarrow> u32 \<Rightarrow> int list option cxx" where
  "crc32_codes 0 crc_dst = Some (Some [])"
| "crc32_codes (Suc n) crc_dst = do {
     t \<leftarrow> cyg_crc32_in_table crc_dst;
     if t = -1 then Some None
     else do {
       v \<leftarrow> crc32_tab_at t;
       ts \<leftarrow> crc32_codes n (push_bit 8 (crc_dst XOR v));
       Some (map_option (\<lambda>ts. t # ts) ts) }}"

fun crc32_solve :: "int list \<Rightarrow> u32 \<Rightarrow> bytes" where
  "crc32_solve [] crc_src = []"
| "crc32_solve (t # ts) crc_src =
     (let x = ucast (crc_src AND 0xFF) XOR word_of_int t
      in x # crc32_solve ts (cyg_crc32_accumulate crc_src [x]))"

text \<open>The return code, and the four bytes of \<open>num\<close>, which an error leaves as they are.\<close>

definition cyg_crc32_change :: "u32 \<Rightarrow> u32 \<Rightarrow> bytes \<Rightarrow> (int \<times> bytes) cxx" where
  "cyg_crc32_change crc_dst crc_src num = do {
     tx \<leftarrow> crc32_codes 4 crc_dst;
     Some (case tx of None \<Rightarrow> (-1, num) | Some tx \<Rightarrow> (0, crc32_solve (rev tx) crc_src)) }"

text \<open>The bytes are taken off from the last one: the recursion is over the reversed buffer.\<close>

fun crc32_reserve_rev :: "u32 \<Rightarrow> bytes \<Rightarrow> u32 cxx" where
  "crc32_reserve_rev crc [] = Some crc"
| "crc32_reserve_rev crc (p # ps) = do {
     x \<leftarrow> cyg_crc32_in_table crc;
     tx \<leftarrow> crc32_tab_at x;
     let crc = crc XOR tx;
     let crc = (push_bit 8 crc AND 0xFFFFFF00) OR ((word_of_int x XOR ucast p) AND 0xFF);
     crc32_reserve_rev crc ps }"

definition cyg_crc32_reserve :: "u32 \<Rightarrow> bytes \<Rightarrow> u32 cxx" where
  "cyg_crc32_reserve crc data = crc32_reserve_rev crc (rev data)"

section \<open>The table belongs to the polynomial\<close>

definition crc32_poly :: u32 where
  "crc32_poly = 0xEDB88320"

lemma length_crc32_tab [simp]: "length crc32_tab = 256"
  by (simp add: crc32_tab_def)

interpretation ether: crc_table crc32_poly crc32_tab
proof
  show "crc32_tab ! 1 = (crc_bit crc32_poly ^^ 8) 1"
    by code_simp
  show "crc_table_rel crc32_poly (crc32_tab ! 1) crc32_tab crc32_tab"
    by (simp add: crc32_tab_def crc_bit_def crc32_poly_def)
qed (simp_all add: crc32_tab_def crc32_poly_def)

lemma crc32_accumulate_foldl: "cyg_crc32_accumulate c ds = foldl (crc_step crc32_tab) c ds"
  by (induction ds arbitrary: c) (simp_all add: crc_step_def xor.commute)

text \<open>
  C39: the table-driven cyg_crc32_accumulate is the bitwise division by the reflected Ethernet
  polynomial.
\<close>

theorem crc32_accumulate_bitwise: "cyg_crc32_accumulate c ds = foldl (crc_byte crc32_poly) c ds"
  by (simp add: crc32_accumulate_foldl ether.bytes_bitwise)

lemma crc32_accumulate_append:
  "cyg_crc32_accumulate c (xs @ ys) = cyg_crc32_accumulate (cyg_crc32_accumulate c xs) ys"
  by (simp add: crc32_accumulate_foldl)

lemma ether_crc32_single_byte:
  assumes "d \<noteq> d'"
  shows "cyg_ether_crc32 (xs @ d # ys) \<noteq> cyg_ether_crc32 (xs @ d' # ys)"
  unfolding cyg_ether_crc32_def cyg_ether_crc32_accumulate_def crc32_accumulate_foldl Let_def
  using ether.single_byte [OF assms] xor_right_cancel by blast

section \<open>Running the CRC backwards\<close>

text \<open>The leading bytes of the entries are all different, so every one of them occurs.\<close>

lemma crc32_tops_distinct: "distinct (map (\<lambda>x. unat (drop_bit 24 x)) crc32_tab)"
  by (simp add: crc32_tab_def)

lemma unat_top_less: "unat (drop_bit 24 (v :: u32)) < 256"
proof -
  have "unat v < 2 ^ 32"
    using unsigned_less [of v] by simp
  then show ?thesis
    by (simp add: drop_bit_eq_div unat_div)
qed

lemma crc32_top_occurs: "\<exists>i < 256. drop_bit 24 (crc32_tab ! i) = drop_bit 24 v"
proof -
  let ?f = "\<lambda>x :: u32. unat (drop_bit 24 x)"
  have "?f ` set crc32_tab \<subseteq> {0..<256}"
    using unat_top_less by auto
  moreover have "card (?f ` set crc32_tab) = 256"
    using distinct_card [OF crc32_tops_distinct] by simp
  ultimately have "?f ` set crc32_tab = {0..<256}"
    by (intro card_subset_eq) simp_all
  then have "?f v \<in> ?f ` set crc32_tab"
    using unat_top_less [of v] by simp
  then obtain i where "i < 256" "?f (crc32_tab ! i) = ?f v"
    by (metis (no_types, lifting) imageE in_set_conv_nth length_crc32_tab)
  then show ?thesis by (metis word_unat_eq_iff)
qed

lemma crc32_top_inj:
  assumes "i < 256" and "j < 256" and "drop_bit 24 (crc32_tab ! i) = drop_bit 24 (crc32_tab ! j)"
  shows "i = j"
  using crc32_tops_distinct assms nth_eq_iff_index_eq [of "map (\<lambda>x. unat (drop_bit 24 x)) crc32_tab" i j]
  by simp

lemma crc32_search_from:
  assumes "i < 256" and "drop_bit 24 (crc32_tab ! i) = drop_bit 24 v" and "j \<le> i"
  shows "crc32_search j v = Some i"
  using assms(3)
proof (induction rule: inc_induct)
  case base
  with assms show ?case by (subst crc32_search.simps) simp
next
  case (step j)
  then have "drop_bit 24 (crc32_tab ! j) \<noteq> drop_bit 24 v"
    using crc32_top_inj [of i j] assms by auto
  with step assms(1) show ?case by (subst crc32_search.simps) simp
qed

lemma in_table_eq:
  "i < 256 \<Longrightarrow> drop_bit 24 (crc32_tab ! i) = drop_bit 24 v \<Longrightarrow> cyg_crc32_in_table v = Some (int i)"
  using crc32_search_from [of i v 0] by (simp add: cyg_crc32_in_table_def)

lemma crc32_tab_at_int [simp]: "i < 256 \<Longrightarrow> crc32_tab_at (int i) = Some (crc32_tab ! i)"
  by (simp add: crc32_tab_at_def)

lemma crc32_tab_at_byte [simp]:
  "crc32_tab_at (uint (w AND 0xFF :: u32)) = Some (crc32_tab ! unat (w AND 0xFF))"
  using crc32_tab_at_int [of "unat (w AND 0xFF)"] ether.crc_index_less [of w]
  by (simp del: crc32_tab_at_int)

text \<open>Every search succeeds inside the table.\<close>

lemma in_table_defined:
  obtains i where "i < 256" and "cyg_crc32_in_table v = Some (int i)"
    and "drop_bit 24 (crc32_tab ! i) = drop_bit 24 v"
  using crc32_top_occurs [of v] in_table_eq by metis

text \<open>Taking a byte off undoes the step that added it.\<close>

lemma in_table_step:
  "cyg_crc32_in_table (crc_step crc32_tab c d) = Some (int (unat ((c XOR ucast d) AND 0xFF)))"
proof (rule in_table_eq)
  show "unat ((c XOR ucast d :: u32) AND 0xFF) < 256"
    using ether.crc_index_less by simp
  show "drop_bit 24 (crc32_tab ! unat ((c XOR ucast d) AND 0xFF)) = drop_bit 24 (crc_step crc32_tab c d)"
    by (rule bit_word_eqI) (auto simp: crc_step_def bit_simps dest: bit_imp_le_length)
qed

lemma reserve_step:
  fixes c :: u32 and d :: byte
  defines "x \<equiv> (c XOR ucast d) AND 0xFF"
  shows "(push_bit 8 (crc_step crc32_tab c d XOR crc32_tab ! unat x) AND 0xFFFFFF00) OR
         ((x XOR ucast d) AND 0xFF) = c"
proof -
  have "crc_step crc32_tab c d XOR crc32_tab ! unat x = drop_bit 8 c"
    by (simp add: crc_step_def x_def xor.assoc)
  moreover have "(x XOR ucast d) AND 0xFF = take_bit 8 c"
    unfolding x_def and_FF by (rule bit_word_eqI) (auto simp: bit_simps)
  moreover have "push_bit 8 (drop_bit 8 c) AND 0xFFFFFF00 = push_bit 8 (drop_bit 8 c)"
  proof -
    have "(0xFFFFFF00 :: u32) = NOT (mask 8)"
      by (simp add: mask_eq_exp_minus_1)
    then have "bit (0xFFFFFF00 :: u32) n \<longleftrightarrow> 8 \<le> n \<and> n < 32" for n
      by (simp only: bit_not_iff bit_mask_iff) auto
    then show ?thesis
      by (intro bit_word_eqI) (auto simp: bit_simps)
  qed
  moreover have "push_bit 8 (drop_bit 8 c) OR take_bit 8 c = c"
    by (rule bit_word_eqI) (auto simp: bit_simps)
  ultimately show ?thesis by simp
qed

text \<open>\<open>cyg_crc32_reserve\<close> undoes \<open>cyg_crc32_accumulate\<close>: it recovers the register before the data.\<close>

lemma crc32_reserve_accumulate: "cyg_crc32_reserve (cyg_crc32_accumulate c data) data = Some c"
proof (induction data arbitrary: c rule: rev_induct)
  case (snoc d ds)
  let ?c = "cyg_crc32_accumulate c ds"
  have "cyg_crc32_accumulate c (ds @ [d]) = crc_step crc32_tab ?c d"
    by (simp add: crc32_accumulate_foldl)
  then show ?case
    using snoc reserve_step [of ?c d] in_table_step [of ?c d]
    by (simp add: cyg_crc32_reserve_def)
qed (simp add: cyg_crc32_reserve_def)

text \<open>Four bytes lead from any checksum to any other.\<close>

lemma drop_top: "drop_bit 24 (a :: u32) = drop_bit 24 b \<Longrightarrow> drop_bit 8 (push_bit 8 (a XOR b)) = a XOR b"
proof -
  assume "drop_bit 24 a = drop_bit 24 b"
  then have "bit (drop_bit 24 a) (n - 24) = bit (drop_bit 24 b) (n - 24)" for n
    by simp
  then have "bit a (24 + (n - 24)) = bit b (24 + (n - 24))" for n
    by (simp add: bit_simps)
  then have "bit a n = bit b n" if "n \<ge> 24" for n
    using that by (metis le_add_diff_inverse)
  then show ?thesis
    by (intro bit_word_eqI) (auto simp: bit_simps not_less [symmetric])
qed

lemma nat_no_high_bit: "k < 2 ^ 8 \<Longrightarrow> 8 \<le> n \<Longrightarrow> \<not> bit (k :: nat) n"
  by (metis bit_take_bit_iff linorder_not_less take_bit_nat_eq_self_iff)

fun crc32_run :: "int list \<Rightarrow> u32 \<Rightarrow> u32" where
  "crc32_run [] c = c"
| "crc32_run (t # ts) c = crc32_run ts (drop_bit 8 c XOR crc32_tab ! nat t)"

lemma solve_run:
  "list_all (\<lambda>t. 0 \<le> t \<and> t < 256) ts \<Longrightarrow>
   cyg_crc32_accumulate c (crc32_solve ts c) = crc32_run ts c"
proof (induction ts arbitrary: c)
  case (Cons t ts)
  let ?x = "ucast (c AND 0xFF) XOR word_of_int t :: byte"
  obtain k where k: "t = int k" "k < 256"
    using Cons.prems by (cases t) auto
  have "\<not> bit k n" if "8 \<le> n" for n
    using nat_no_high_bit [of k n] k(2) that by simp
  then have "(c XOR ucast ?x) AND 0xFF = word_of_nat k"
    unfolding and_FF k(1) by (intro bit_word_eqI) (auto simp: bit_simps, metis linorder_not_le)
  then have "cyg_crc32_accumulate c [?x] = drop_bit 8 c XOR crc32_tab ! nat t"
    using k unat_of_nat_small [of k, where 'a = 32] by (simp add: xor.commute)
  moreover have "cyg_crc32_accumulate c (crc32_solve (t # ts) c) =
      cyg_crc32_accumulate (cyg_crc32_accumulate c [?x]) (crc32_solve ts (cyg_crc32_accumulate c [?x]))"
    using crc32_accumulate_append [of c "[?x]" "crc32_solve ts (cyg_crc32_accumulate c [?x])"]
    by (simp only: crc32_solve.simps Let_def append_Cons append_Nil)
  ultimately show ?case
    using Cons.IH Cons.prems by simp
qed simp


lemma crc32_run_append: "crc32_run (ts @ us) c = crc32_run us (crc32_run ts c)"
  by (induction ts arbitrary: c) simp_all

text \<open>The codes found from \<open>crc_dst\<close>, run forward from anything, end in \<open>crc_dst\<close>.\<close>

lemma codes_run:
  "\<exists>ts. crc32_codes n dst = Some (Some ts) \<and> length ts = n \<and> list_all (\<lambda>t. 0 \<le> t \<and> t < 256) ts \<and>
        (\<exists>rest. \<forall>c. crc32_run (rev ts) c = dst XOR drop_bit (8 * n) rest XOR drop_bit (8 * n) c)"
proof (induction n arbitrary: dst)
  case 0
  have "\<exists>rest. \<forall>c. c = dst XOR rest XOR c"
    by (rule exI [of _ dst]) simp
  then show ?case by simp
next
  case (Suc n)
  obtain i where i: "i < 256" "cyg_crc32_in_table dst = Some (int i)"
      "drop_bit 24 (crc32_tab ! i) = drop_bit 24 dst"
    by (rule in_table_defined)
  let ?d = "push_bit 8 (dst XOR crc32_tab ! i)"
  from Suc.IH [of ?d] obtain ts rest where ts: "crc32_codes n ?d = Some (Some ts)" "length ts = n"
      "list_all (\<lambda>t. 0 \<le> t \<and> t < 256) ts"
      "\<And>c. crc32_run (rev ts) c = ?d XOR drop_bit (8 * n) rest XOR drop_bit (8 * n) c"
    by blast
  have "crc32_run (rev (int i # ts)) c = dst XOR drop_bit (8 * Suc n) rest XOR drop_bit (8 * Suc n) c" for c
  proof -
    have "crc32_run (rev (int i # ts)) c =
        drop_bit 8 (?d XOR drop_bit (8 * n) rest XOR drop_bit (8 * n) c) XOR crc32_tab ! i"
      by (simp add: crc32_run_append ts(4))
    also have "\<dots> = drop_bit 8 ?d XOR drop_bit (8 + 8 * n) rest XOR drop_bit (8 + 8 * n) c XOR crc32_tab ! i"
      by (simp only: drop_bit_xor drop_bit_drop_bit xor.assoc)
    also have "drop_bit 8 ?d = dst XOR crc32_tab ! i"
      using i(3) by (intro drop_top) simp
    finally show ?thesis
      by (simp add: ac_simps)
  qed
  with i ts show ?case by fastforce
qed

text \<open>The search never fails, so the change succeeds, and its bytes lead from \<open>crc_src\<close> to \<open>crc_dst\<close>.\<close>

lemma crc32_change_correct:
  "\<exists>num'. cyg_crc32_change dst src num = Some (0, num') \<and> length num' = 4 \<and>
     cyg_crc32_accumulate src num' = dst"
proof -
  obtain ts rest where ts: "crc32_codes 4 dst = Some (Some ts)" "length ts = 4"
      "list_all (\<lambda>t. 0 \<le> t \<and> t < 256) ts"
      "\<And>c. crc32_run (rev ts) c = dst XOR drop_bit (8 * 4) rest XOR drop_bit (8 * 4) c"
    using codes_run [of 4 dst] by blast
  have zero: "drop_bit (8 * 4) (c :: u32) = 0" for c
    by (rule bit_word_eqI) (auto simp: bit_simps dest: bit_imp_le_length)
  have "length (crc32_solve us c) = length us" for us c
    by (induction us arbitrary: c) (simp_all add: Let_def)
  then show ?thesis
    using ts solve_run [of "rev ts" src] zero by (simp add: cyg_crc32_change_def)
qed

end
