(* ===== verification/Md5.thy ===== *)
theory Md5
  imports Prelude
begin

text \<open>
  MD5 as in \<open>sys2/security/md5.c\<close> and \<open>md5.h\<close>, used for the long-term credential key of STUN:
  the block filler with its padding, the unrolled compression \<open>md5_cycle\<close>, and the driver. The
  driver is shown to consume exactly the blocks of the padded message of RFC 1321.

  The machine is little-endian: \<open>mc->m[i]\<close> and the 8 bytes of the bit count are read and written
  in that order. \<open>nSize\<close> and \<open>nOffset\<close> are \<open>unsigned long long\<close> and do not wrap for sizes below
  $2^{61}$; they are \<open>nat\<close> here.
\<close>

unbundle bit_operations_syntax

section \<open>The code\<close>

definition ROTATE_LEFT :: "u32 \<Rightarrow> nat \<Rightarrow> u32" where
  "ROTATE_LEFT x n = push_bit n x OR drop_bit (32 - n) x"

text \<open>The functions \<open>F\<close>, \<open>G\<close>, \<open>H\<close>, \<open>I\<close> of the four groups of 16 steps.\<close>

definition md5_f :: "nat \<Rightarrow> u32 \<Rightarrow> u32 \<Rightarrow> u32 \<Rightarrow> u32" where
  "md5_f i x y z =
     (if i < 16 then (x AND y) OR (NOT x AND z)
      else if i < 32 then (x AND z) OR (y AND NOT z)
      else if i < 48 then x XOR y XOR z
      else y XOR (x OR NOT z))"

text \<open>The literals of the 64 steps: index of the word, rotation, constant.\<close>

definition md5_steps :: "(nat \<times> nat \<times> u32) list" where
  "md5_steps =
    [(0, 7, 0xd76aa478), (1, 12, 0xe8c7b756), (2, 17, 0x242070db), (3, 22, 0xc1bdceee),
     (4, 7, 0xf57c0faf), (5, 12, 0x4787c62a), (6, 17, 0xa8304613), (7, 22, 0xfd469501),
     (8, 7, 0x698098d8), (9, 12, 0x8b44f7af), (10, 17, 0xffff5bb1), (11, 22, 0x895cd7be),
     (12, 7, 0x6b901122), (13, 12, 0xfd987193), (14, 17, 0xa679438e), (15, 22, 0x49b40821),
     (1, 5, 0xf61e2562), (6, 9, 0xc040b340), (11, 14, 0x265e5a51), (0, 20, 0xe9b6c7aa),
     (5, 5, 0xd62f105d), (10, 9, 0x02441453), (15, 14, 0xd8a1e681), (4, 20, 0xe7d3fbc8),
     (9, 5, 0x21e1cde6), (14, 9, 0xc33707d6), (3, 14, 0xf4d50d87), (8, 20, 0x455a14ed),
     (13, 5, 0xa9e3e905), (2, 9, 0xfcefa3f8), (7, 14, 0x676f02d9), (12, 20, 0x8d2a4c8a),
     (5, 4, 0xfffa3942), (8, 11, 0x8771f681), (11, 16, 0x6d9d6122), (14, 23, 0xfde5380c),
     (1, 4, 0xa4beea44), (4, 11, 0x4bdecfa9), (7, 16, 0xf6bb4b60), (10, 23, 0xbebfbc70),
     (13, 4, 0x289b7ec6), (0, 11, 0xeaa127fa), (3, 16, 0xd4ef3085), (6, 23, 0x04881d05),
     (9, 4, 0xd9d4d039), (12, 11, 0xe6db99e5), (15, 16, 0x1fa27cf8), (2, 23, 0xc4ac5665),
     (0, 6, 0xf4292244), (7, 10, 0x432aff97), (14, 15, 0xab9423a7), (5, 21, 0xfc93a039),
     (12, 6, 0x655b59c3), (3, 10, 0x8f0ccc92), (10, 15, 0xffeff47d), (1, 21, 0x85845dd1),
     (8, 6, 0x6fa87e4f), (15, 10, 0xfe2ce6e0), (6, 15, 0xa3014314), (13, 21, 0x4e0811a1),
     (4, 6, 0xf7537e82), (11, 10, 0xbd3af235), (2, 15, 0x2ad7d2bb), (9, 21, 0xeb86d391)]"

text \<open>
  Step \<open>i\<close> of the unrolled sequence: its four variables are \<open>a1,b1,c1,d1\<close> rotated by one place
  per step, argument \<open>k\<close> being the variable number \<open>(k + 3 i) mod 4\<close>.
\<close>

definition md5_step :: "u32 list \<Rightarrow> nat \<Rightarrow> u32 list \<Rightarrow> u32 list" where
  "md5_step m i r =
     (let (mi, s, ti) = md5_steps ! i;
          b = r ! ((1 + 3 * i) mod 4); c = r ! ((2 + 3 * i) mod 4); d = r ! ((3 + 3 * i) mod 4);
          a = r ! ((3 * i) mod 4) + md5_f i b c d + m ! mi + ti;
          a = b + ROTATE_LEFT a s
      in r[(3 * i) mod 4 := a])"

definition md5_cycle :: "bytes \<Rightarrow> u32 list \<Rightarrow> u32 list" where
  "md5_cycle mc st =
     (let m = map (\<lambda>i. be32 (mc ! (4 * i + 3)) (mc ! (4 * i + 2)) (mc ! (4 * i + 1)) (mc ! (4 * i))) [0..<16];
          r = fold (md5_step m) [0..<64] st
      in map2 (+) st r)"

definition md5_calc_add_size :: "nat \<Rightarrow> nat" where
  "md5_calc_add_size nSize =
     (let nRemainder = nSize mod 64 in
      if nRemainder < 56 then 56 - nRemainder
      else if nRemainder > 56 then (if nRemainder = 0 then 56 else 120 - nRemainder)
      else 0)"

definition add_data :: bytes where
  "add_data = 0x80 # replicate 63 0"

definition le64 :: "u64 \<Rightarrow> bytes" where
  "le64 w = map (\<lambda>i. ucast (drop_bit (8 * i) w)) [0..<8]"

text \<open>\<open>memcpy((unsigned char*)mc + off, src, n)\<close>.\<close>

definition mc_write :: "nat \<Rightarrow> bytes \<Rightarrow> bytes \<Rightarrow> bytes" where
  "mc_write off src mc = take off mc @ src @ drop (off + length src) mc"

record md5_fill_state =
  mf_mc :: bytes
  mf_nOddOffset :: nat
  mf_nOffset :: nat

definition md5_fill :: "bytes \<Rightarrow> md5_fill_state \<Rightarrow> nat \<times> md5_fill_state" where
  "md5_fill pData s =
     (let nSize = length pData; nOffset = mf_nOffset s; mc = mf_mc s;
          nBits = le64 (word_of_nat nSize * 8) in
      if nOffset < nSize then
        let nFillSize = nSize - nOffset in
        if nFillSize \<ge> 64 then
          (1, s\<lparr>mf_mc := mc_write 0 (take 64 (drop nOffset pData)) mc, mf_nOffset := nOffset + 64,
                mf_nOddOffset := 0\<rparr>)
        else
          let nAddSize = md5_calc_add_size nFillSize;
              mc = mc_write 0 (drop nOffset pData) mc;
              nOffset = nOffset + nFillSize;
              iLeaveSize = 64 - nFillSize
          in if int nAddSize \<le> int iLeaveSize - 8 \<and> nAddSize \<noteq> 0 then
               (0, s\<lparr>mf_mc := mc_write (nFillSize + nAddSize) nBits
                       (mc_write nFillSize (take nAddSize add_data) mc),
                     mf_nOffset := nOffset + 64\<rparr>)
             else
               (1, s\<lparr>mf_mc := mc_write nFillSize (take iLeaveSize add_data) mc,
                     mf_nOddOffset := iLeaveSize, mf_nOffset := nOffset + iLeaveSize\<rparr>)
      else
        (0, s\<lparr>mf_mc := mc_write 56 nBits (mc_write 0 (take 56 (drop (mf_nOddOffset s) add_data)) mc),
              mf_nOffset := nOffset + 64\<rparr>))"

lemma md5_fill_progress:
  assumes "md5_fill pData s = (r, s')" and "r \<noteq> 0"
  shows "mf_nOffset s < length pData" and "mf_nOffset s < mf_nOffset s'"
  using assms by (auto simp: md5_fill_def Let_def split: if_splits)

text \<open>The loop of \<open>md5\<close>: fill, compress, stop after a fill that returned 0.\<close>

function md5_loop :: "bytes \<Rightarrow> md5_fill_state \<Rightarrow> u32 list \<Rightarrow> u32 list" where
  "md5_loop pData s st =
     (let (iResult, s') = md5_fill pData s;
          st = md5_cycle (mf_mc s') st
      in if iResult = 0 then st else md5_loop pData s' st)"
  by pat_completeness auto
termination
proof (relation "measure (\<lambda>(d, s, _). length d - mf_nOffset s)", goal_cases)
  case (2 pData s st p iResult s' st')
  then show ?case
    using md5_fill_progress [of pData s iResult s'] by simp
qed simp

declare md5_loop.simps [simp del]

definition md5_init :: "u32 list" where
  "md5_init = [0x67452301, 0xEFCDAB89, 0x98BADCFE, 0x10325476]"

text \<open>The 16 bytes \<open>bv\<close> of the result.\<close>

definition md5 :: "bytes \<Rightarrow> bytes" where
  "md5 pData =
     (let st = md5_loop pData \<lparr>mf_mc = replicate 64 0, mf_nOddOffset = 0, mf_nOffset = 0\<rparr> md5_init
      in concat (map (\<lambda>w. rev (b32 w)) st))"

text \<open>
  \<open>md5_string\<close>, the branch outside Windows: \<open>snprintf(szMd5, nSize - 1, ...)\<close> returns the 32
  characters it would print and stores at most \<open>nSize - 2\<close> of them before the terminating zero;
  with \<open>nSize = 1\<close> it stores nothing.
\<close>

definition md5_string :: "bytes \<Rightarrow> u32 \<Rightarrow> int \<times> string option" where
  "md5_string bv nSize =
     (let n = unat (nSize - 1); str = hex_bytes bv
      in (int (length str), if n = 0 then None else Some (take (n - 1) str)))"

section \<open>The blocks are those of RFC 1321\<close>

definition md5_zeros :: "nat \<Rightarrow> nat" where
  "md5_zeros n = (if n mod 64 < 56 then 55 - n mod 64 else 119 - n mod 64)"

definition md5_padded :: "bytes \<Rightarrow> bytes" where
  "md5_padded d = d @ [0x80] @ replicate (md5_zeros (length d)) 0 @ le64 (word_of_nat (length d) * 8)"

fun md5_blocks :: "nat \<Rightarrow> bytes \<Rightarrow> u32 list \<Rightarrow> u32 list" where
  "md5_blocks 0 d st = st"
| "md5_blocks (Suc n) d st = md5_blocks n (drop 64 d) (md5_cycle (take 64 d) st)"

lemma length_le64 [simp]: "length (le64 w) = 8"
  by (simp add: le64_def)

lemma length_add_data [simp]: "length add_data = 64"
  by (simp add: add_data_def)

lemma take_add_data: "0 < n \<Longrightarrow> n \<le> 64 \<Longrightarrow> take n add_data = 0x80 # replicate (n - 1) 0"
  by (cases n) (simp_all add: add_data_def min_def)

lemma drop_add_data: "0 < n \<Longrightarrow> n \<le> 64 \<Longrightarrow> drop n add_data = replicate (64 - n) 0"
  by (cases n) (simp_all add: add_data_def)

lemma mc_write_whole [simp]: "length src = length mc \<Longrightarrow> mc_write 0 src mc = src"
  by (simp add: mc_write_def)

lemma mc_write_append [simp]: "mc_write (length a) b (a @ c) = a @ b @ drop (length b) c"
  by (simp add: mc_write_def)

lemma md5_tail_short:
  assumes "length d = mf_nOffset s + f" and "0 < f" and "f < 56" and "length (mf_mc s) = 64"
  shows "\<exists>s'. md5_fill d s = (0, s') \<and> mf_mc s' = drop (mf_nOffset s) d @
     [0x80] @ replicate (55 - f) 0 @ le64 (word_of_nat (length d) * 8)"
proof -
  let ?x = "drop (mf_nOffset s) d" and ?p = "0x80 # replicate (55 - f) 0 :: bytes"
  have add: "md5_calc_add_size f = 56 - f"
    using assms(3) by (simp add: md5_calc_add_size_def Let_def)
  have p: "take (56 - f) add_data = ?p"
    using assms(3) by (subst take_add_data) auto
  have "mc_write f ?p (mc_write 0 ?x (mf_mc s)) = (?x @ ?p) @ drop 56 (mf_mc s)"
    using assms mc_write_append [of ?x ?p "drop f (mf_mc s)"] by (simp add: mc_write_def [of 0])
  then have "mc_write 56 bits (mc_write f ?p (mc_write 0 ?x (mf_mc s))) = ?x @ ?p @ bits"
    if "length bits = 8" for bits
    using assms that mc_write_append [of "?x @ ?p" bits "drop 56 (mf_mc s)"] by simp
  with assms add p show ?thesis
    by (simp add: md5_fill_def Let_def)
qed

lemma md5_tail_long:
  assumes "length d = mf_nOffset s + f" and "56 \<le> f" and "f < 64" and "length (mf_mc s) = 64"
  shows "\<exists>s'. md5_fill d s = (1, s') \<and>
     mf_mc s' = drop (mf_nOffset s) d @ [0x80] @ replicate (63 - f) 0 \<and>
     mf_nOddOffset s' = 64 - f \<and> length d \<le> mf_nOffset s'"
proof -
  let ?x = "drop (mf_nOffset s) d" and ?p = "0x80 # replicate (63 - f) 0 :: bytes"
  have add: "\<not> (int (md5_calc_add_size f) \<le> int (64 - f) - 8 \<and> md5_calc_add_size f \<noteq> 0)"
    using assms(2,3) by (auto simp: md5_calc_add_size_def Let_def)
  have p: "take (64 - f) add_data = ?p"
    using assms(3) by (subst take_add_data) auto
  have "mc_write f ?p (mc_write 0 ?x (mf_mc s)) = ?x @ ?p"
    using assms mc_write_append [of ?x ?p "drop f (mf_mc s)"] by (simp add: mc_write_def [of 0])
  with assms add p show ?thesis
    by (simp add: md5_fill_def Let_def)
qed

lemma md5_tail_end:
  assumes "length d \<le> mf_nOffset s" and "length (mf_mc s) = 64" and "mf_nOddOffset s \<le> 8"
  shows "\<exists>s'. md5_fill d s = (0, s') \<and>
     mf_mc s' = take 56 (drop (mf_nOddOffset s) add_data) @ le64 (word_of_nat (length d) * 8)"
  using assms by (simp add: md5_fill_def Let_def mc_write_def)

lemma md5_full:
  assumes "mf_nOffset s + 64 \<le> length d" and "length (mf_mc s) = 64"
  shows "md5_fill d s = (1, s\<lparr>mf_mc := take 64 (drop (mf_nOffset s) d),
     mf_nOffset := mf_nOffset s + 64, mf_nOddOffset := 0\<rparr>)"
  using assms by (auto simp: md5_fill_def Let_def)

lemma md5_loop_blocks:
  assumes "length d = o1 + 64 * k + f" and "f < 64" and "mf_nOffset s = o1" and "o1 mod 64 = 0"
    and "mf_nOddOffset s = 0" and "length (mf_mc s) = 64"
  shows "md5_loop d s st = md5_blocks (k + (if f < 56 then 1 else 2)) (drop o1 (md5_padded d)) st"
  using assms
proof (induction k arbitrary: o1 s st)
  case (Suc k)
  let ?s = "s\<lparr>mf_mc := take 64 (drop o1 d), mf_nOffset := o1 + 64, mf_nOddOffset := 0\<rparr>"
  have "md5_fill d s = (1, ?s)"
    using md5_full [of s d] Suc.prems by simp
  then have "md5_loop d s st = md5_loop d ?s (md5_cycle (take 64 (drop o1 d)) st)"
    by (subst md5_loop.simps) simp
  also have "\<dots> = md5_blocks (k + (if f < 56 then 1 else 2)) (drop (o1 + 64) (md5_padded d))
      (md5_cycle (take 64 (drop o1 d)) st)"
    using Suc.prems by (intro Suc.IH) simp_all
  also have "take 64 (drop o1 d) = take 64 (drop o1 (md5_padded d))"
    using Suc.prems by (simp add: md5_padded_def)
  finally show ?case by (simp add: add.commute)
next
  case 0
  then have n: "length d = o1 + f" and m: "length d mod 64 = f"
    by (simp_all add: mod_add_left_eq [symmetric])
  let ?bits = "le64 (word_of_nat (length d) * 8)"
  have drop_pad: "drop o1 (md5_padded d) = drop o1 d @ [0x80] @ replicate (md5_zeros (length d)) 0 @ ?bits"
    using n by (simp add: md5_padded_def)
  consider "f = 0" | "0 < f \<and> f < 56" | "56 \<le> f" by linarith
  then show ?case
  proof cases
    case 1
    have z: "md5_zeros (length d) = 55"
      using m 1 by (simp add: md5_zeros_def)
    obtain s' where s': "md5_fill d s = (0, s')" "mf_mc s' = take 56 add_data @ ?bits"
      using md5_tail_end [of d s] 0 n 1 by auto
    have "drop o1 (md5_padded d) = take 56 add_data @ ?bits"
      unfolding drop_pad z using 1 n by (simp add: take_add_data)
    with s' 1 show ?thesis
      by (subst md5_loop.simps) simp
  next
    case 2
    have z: "md5_zeros (length d) = 55 - f"
      using m 2 by (simp add: md5_zeros_def)
    obtain s' where s': "md5_fill d s = (0, s')"
        "mf_mc s' = drop o1 d @ [0x80] @ replicate (55 - f) 0 @ ?bits"
      using md5_tail_short [of d s f] 0 n 2 by auto
    have "drop o1 (md5_padded d) = mf_mc s'" "length (mf_mc s') = 64"
      unfolding drop_pad z s'(2) using n 2 by simp_all
    with s'(1) 2 show ?thesis
      by (subst md5_loop.simps) simp
  next
    case 3
    have z: "md5_zeros (length d) = 63 - f + 56"
      using m 3 "0.prems"(2) by (simp add: md5_zeros_def)
    obtain s' where s': "md5_fill d s = (1, s')" "mf_mc s' = drop o1 d @ [0x80] @ replicate (63 - f) 0"
        "mf_nOddOffset s' = 64 - f" "length d \<le> mf_nOffset s'"
      using md5_tail_long [of d s f] 0 n 3 by auto
    have l': "length (mf_mc s') = 64"
      using s'(2) n 3 "0.prems"(2) by simp
    have odd: "mf_nOddOffset s' \<le> 8"
      using s'(3) 3 by linarith
    obtain s'' where s'': "md5_fill d s' = (0, s'')" "mf_mc s'' = replicate 56 0 @ ?bits"
      using md5_tail_end [OF s'(4) l' odd] s'(3) 3 "0.prems"(2) by (auto simp: drop_add_data min_def)
    have blk: "drop o1 (md5_padded d) = mf_mc s' @ mf_mc s''"
      unfolding drop_pad z s'(2) s''(2) by (simp add: replicate_add)
    have "md5_loop d s st = md5_cycle (mf_mc s'') (md5_cycle (mf_mc s') st)"
      using s'(1) s''(1) by (subst md5_loop.simps, simp, subst md5_loop.simps, simp)
    with 3 l' s''(2) show ?thesis
      unfolding blk by (simp add: numeral_2_eq_2)
  qed
qed

lemma md5_padded_length: "length (md5_padded d) mod 64 = 0"
proof -
  define k where "k = length d mod 64"
  have k: "k < 64" by (simp add: k_def)
  have "length (md5_padded d) = length d + (1 + (if k < 56 then 55 - k else 119 - k) + 8)"
    by (simp add: md5_padded_def md5_zeros_def k_def)
  also have "\<dots> mod 64 = (k + (1 + (if k < 56 then 55 - k else 119 - k) + 8)) mod 64"
    unfolding k_def by (simp add: mod_add_left_eq)
  also have "\<dots> = 0"
    using k by (cases "k < 56") auto
  finally show ?thesis .
qed

lemma md5_eq_blocks:
  "md5 d = concat (map (\<lambda>w. rev (b32 w)) (md5_blocks (length (md5_padded d) div 64) (md5_padded d) md5_init))"
proof -
  define k f where "k = length d div 64" and "f = length d mod 64"
  have n: "length d = 0 + 64 * k + f" "f < 64"
    by (simp_all add: k_def f_def)
  have "length (md5_padded d) = 64 * (k + (if f < 56 then 1 else 2))"
    using n by (simp add: md5_padded_def md5_zeros_def f_def [symmetric])
  then have "length (md5_padded d) div 64 = k + (if f < 56 then 1 else 2)"
    by simp
  then show ?thesis
    using md5_loop_blocks [OF n, of "\<lparr>mf_mc = replicate 64 0, mf_nOddOffset = 0, mf_nOffset = 0\<rparr>" md5_init]
    by (simp add: md5_def Let_def)
qed

lemma length_md5_blocks: "length st = 4 \<Longrightarrow> length (md5_blocks n d st) = 4"
proof (induction n arbitrary: d st)
  case (Suc n)
  have "length (fold (md5_step m) is r) = length r" for m "is" r
    by (induction "is" arbitrary: r) (simp_all add: md5_step_def Let_def split_beta)
  then have "length (md5_cycle b st) = 4" for b
    using Suc.prems by (simp add: md5_cycle_def Let_def)
  then show ?case
    using Suc.IH by simp
qed simp

text \<open>
  C37: the driver with its block filler compresses exactly the 64-byte blocks of the message
  padded as in RFC 1321, for every length of the input.
\<close>

theorem md5_rfc1321:
  "md5 d = concat (map (\<lambda>w. rev (b32 w)) (md5_blocks (length (md5_padded d) div 64) (md5_padded d) md5_init)) \<and>
   length (md5_padded d) mod 64 = 0"
  using md5_eq_blocks md5_padded_length by blast

theorem md5_string_truncates:
  assumes "2 \<le> nSize"
  shows "md5_string (md5 d) nSize = (32, Some (take (unat nSize - 2) (hex_bytes (md5 d)))) \<and>
         (snd (md5_string (md5 d) nSize) = Some (hex_bytes (md5 d)) \<longleftrightarrow> 34 \<le> nSize)"
proof -
  have "length (concat (map (\<lambda>w. rev (b32 w)) ws)) = 4 * length ws" for ws
    by (induction ws) simp_all
  then have len: "length (hex_bytes (md5 d)) = 32"
    by (simp add: md5_eq_blocks length_md5_blocks md5_init_def)
  have "2 \<le> unat nSize"
    using assms by (simp add: word_le_nat_alt)
  moreover from this have "nSize \<noteq> 0" by auto
  ultimately have n: "unat (nSize - 1) = unat nSize - 1" "2 \<le> unat nSize"
    using unat_minus_one [of nSize] by simp_all
  have "take k (hex_bytes (md5 d)) = hex_bytes (md5 d) \<longleftrightarrow> 32 \<le> k" for k
    using len by (metis length_take linorder_not_le min.absorb3 nat_less_le take_all_iff)
  moreover have "md5_string (md5 d) nSize = (32, Some (take (unat nSize - 2) (hex_bytes (md5 d))))"
    using n len by (simp add: md5_string_def Let_def numeral_2_eq_2)
  moreover have "32 \<le> unat nSize - 2 \<longleftrightarrow> 34 \<le> nSize"
    by (simp add: word_le_nat_alt) arith
  ultimately show ?thesis by simp
qed

theorem md5_string_truncates_witness:
  "snd (md5_string (md5 []) 33) \<noteq> Some (hex_bytes (md5 []))"
proof -
  have "\<not> 34 \<le> (33 :: u32)" "2 \<le> (33 :: u32)" by simp_all
  then show ?thesis
    using md5_string_truncates [of 33 "[]"] by blast
qed

end
