(* ===== verification/Sha1.thy ===== *)
theory Sha1
  imports Prelude
begin

text \<open>
  SHA-1 and HMAC-SHA-1: \<open>sys2/security/sha1.h\<close>, \<open>sha1.cpp\<close>, \<open>hmac_sha1.h\<close> and
  \<open>hmac_sha1.cpp\<close>. The streaming class (buffer, bit counter, \<open>update\<close>, \<open>final\<close>) is shown to
  compute the hash of the concatenation of what it was fed, and the unrolled, in-place
  compression function to be the one of FIPS 180.

  The code is built without \<open>SHA1_UTILITY_FUNCTIONS\<close> and with \<open>SHA1_LITTLE_ENDIAN\<close> and
  \<open>SHA1_WIPE_VARIABLES\<close>, the defaults of the header. Lengths are \<open>int\<close>s in every caller, so the
  index arithmetic of \<open>update\<close> is written on \<open>nat\<close>; the bit counter is kept at its width.
\<close>

unbundle bit_operations_syntax

section \<open>Compression\<close>

definition ROL32 :: "u32 \<Rightarrow> nat \<Rightarrow> u32" where
  "ROL32 x n = push_bit n x OR drop_bit (32 - n) x"

text \<open>The word \<open>m_block->l[i]\<close> of the workspace on a little-endian machine.\<close>

definition le32 :: "bytes \<Rightarrow> nat \<Rightarrow> u32" where
  "le32 c i = be32 (c ! (4 * i + 3)) (c ! (4 * i + 2)) (c ! (4 * i + 1)) (c ! (4 * i))"

definition SHABLK0 :: "nat \<Rightarrow> u32 list \<Rightarrow> u32 list" where
  "SHABLK0 i l = l[i := (ROL32 (l ! i) 24 AND 0xFF00FF00) OR (ROL32 (l ! i) 8 AND 0x00FF00FF)]"

definition SHABLK :: "nat \<Rightarrow> u32 list \<Rightarrow> u32 list" where
  "SHABLK i l = l[i mod 16 := ROL32 (l ! ((i + 13) mod 16) XOR l ! ((i + 8) mod 16) XOR
                                     l ! ((i + 2) mod 16) XOR l ! (i mod 16)) 1]"

text \<open>The boolean function and the constant of \<open>_R0\<close>/\<open>_R1\<close>, \<open>_R2\<close>, \<open>_R3\<close> and \<open>_R4\<close>.\<close>

definition sha1_f :: "nat \<Rightarrow> u32 \<Rightarrow> u32 \<Rightarrow> u32 \<Rightarrow> u32" where
  "sha1_f i w x y =
     (if i < 20 then (w AND (x XOR y)) XOR y
      else if i < 40 then w XOR x XOR y
      else if i < 60 then ((w OR x) AND y) OR (w AND x)
      else w XOR x XOR y)"

definition sha1_k :: "nat \<Rightarrow> u32" where
  "sha1_k i = (if i < 20 then 0x5A827999 else if i < 40 then 0x6ED9EBA1
               else if i < 60 then 0x8F1BBCDC else 0xCA62C1D6)"

text \<open>
  Round \<open>i\<close> of the unrolled sequence. Its arguments \<open>(v,w,x,y,z)\<close> are \<open>a,b,c,d,e\<close> rotated by
  one place per round: argument \<open>k\<close> is the variable number \<open>(k + 4 i) mod 5\<close>.
\<close>

definition sha1_round :: "nat \<Rightarrow> u32 list \<times> u32 list \<Rightarrow> u32 list \<times> u32 list" where
  "sha1_round i rl =
     (let (r, l) = rl;
          v = r ! ((4 * i) mod 5); w = r ! ((1 + 4 * i) mod 5); x = r ! ((2 + 4 * i) mod 5);
          y = r ! ((3 + 4 * i) mod 5); z = r ! ((4 + 4 * i) mod 5);
          l = (if i < 16 then SHABLK0 i l else SHABLK i l);
          z = z + (sha1_f i w x y + l ! (i mod 16) + sha1_k i + ROL32 v 5)
      in (r[(4 + 4 * i) mod 5 := z, (1 + 4 * i) mod 5 := ROL32 w 30], l))"

definition sha1_transform :: "u32 list \<Rightarrow> bytes \<Rightarrow> u32 list" where
  "sha1_transform state buffer =
     (let (r, _) = fold sha1_round [0..<80] (state, map (le32 buffer) [0..<16])
      in map2 (+) state r)"

section \<open>The streaming class\<close>

record sha1 =
  m_state :: "u32 list"
  m_count0 :: u32
  m_count1 :: u32
  m_buffer :: bytes
  m_digest :: bytes

definition sha1_init_state :: "u32 list" where
  "sha1_init_state = [0x67452301, 0xEFCDAB89, 0x98BADCFE, 0x10325476, 0xC3D2E1F0]"

definition sha1_reset :: "sha1 \<Rightarrow> sha1" where
  "sha1_reset s = s\<lparr>m_state := sha1_init_state, m_count0 := 0, m_count1 := 0\<rparr>"

text \<open>\<open>memcpy(&dst[off], src, n)\<close>.\<close>

definition mem_copy :: "bytes \<Rightarrow> nat \<Rightarrow> bytes \<Rightarrow> bytes" where
  "mem_copy dst off src = take off dst @ src @ drop (off + length src) dst"

text \<open>\<open>for (; i + 63 < len; i += 64) transform(m_state, &data[i])\<close>: the state and what is left.\<close>

function sha1_blocks :: "u32 list \<Rightarrow> bytes \<Rightarrow> u32 list \<times> bytes" where
  "sha1_blocks st data =
     (if length data < 64 then (st, data)
      else sha1_blocks (sha1_transform st (take 64 data)) (drop 64 data))"
  by pat_completeness auto
termination
  by (relation "measure (\<lambda>(_, data). length data)") auto

declare sha1_blocks.simps [simp del]

definition sha1_update :: "bytes \<Rightarrow> sha1 \<Rightarrow> sha1" where
  "sha1_update data s =
     (let len = word_of_nat (length data) :: u32;
          j = unat (drop_bit 3 (m_count0 s) AND 63);
          s = s\<lparr>m_count0 := m_count0 s + push_bit 3 len\<rparr>;
          s = (if m_count0 s < push_bit 3 len then s\<lparr>m_count1 := m_count1 s + 1\<rparr> else s);
          s = s\<lparr>m_count1 := m_count1 s + drop_bit 29 len\<rparr>
      in if j + length data > 63 then
           let i = 64 - j;
               buf = mem_copy (m_buffer s) j (take i data);
               st = sha1_transform (m_state s) buf;
               (st, rest) = sha1_blocks st (drop i data)
           in s\<lparr>m_state := st, m_buffer := mem_copy buf 0 rest\<rparr>
         else s\<lparr>m_buffer := mem_copy (m_buffer s) j data\<rparr>)"

text \<open>\<open>while ((m_count[0] & 504) != 448) update("\0", 1)\<close>.\<close>

lemma update_count0 [simp]:
  "m_count0 (sha1_update data s) = m_count0 s + push_bit 3 (word_of_nat (length data))"
  by (simp add: sha1_update_def Let_def split_beta)

definition pad_left :: "u32 \<Rightarrow> nat" where
  "pad_left c = (let k = unat (drop_bit 3 c AND 63) in if k \<le> 56 then 56 - k else 120 - k)"

lemma count_step:
  "unat (drop_bit 3 (c + 8) AND 63 :: u32) = (unat (drop_bit 3 c AND 63) + 1) mod 64"
proof -
  have m: "(63 :: u32) = mask 6"
    by (simp add: mask_eq_exp_minus_1)
  have u: "unat (drop_bit 3 x AND 63 :: u32) = unat x div 8 mod 64" for x :: u32
    unfolding m take_bit_eq_mask [symmetric]
    by (simp add: unsigned_take_bit_eq take_bit_eq_mod drop_bit_eq_div unat_div unat_mod)
  have "unat (c + 8) = (unat c + 8) mod (8 * 2 ^ 29)"
    by (simp add: unat_word_ariths)
  moreover have "x mod (8 * 2 ^ 29) div 8 mod 64 = x div 8 mod 64" for x :: nat
  proof -
    have "x mod (8 * 2 ^ 29) div 8 = x div 8 mod 2 ^ 29"
      by (simp only: mod_mult2_eq)
    then show ?thesis
      by (simp add: mod_mod_cancel)
  qed
  ultimately have "unat (c + 8) div 8 mod 64 = (unat c + 8) div 8 mod 64"
    by metis
  moreover have "(unat c + 8) div 8 = unat c div 8 + 1"
    by simp
  ultimately show ?thesis
    unfolding u by (simp add: mod_Suc_eq)
qed

lemma unat_and_63: "unat (x AND 63 :: u32) < 64"
proof -
  have "x AND 63 = take_bit 6 x"
    by (simp add: take_bit_eq_mask mask_eq_exp_minus_1)
  then show ?thesis
    using take_bit_nat_less_exp [of 6 "unat x"] by (simp add: unsigned_take_bit_eq)
qed

lemma pad_left_step:
  assumes "c AND 504 \<noteq> 448"
  shows "pad_left (c + 8) < pad_left c"
proof -
  have "unat (drop_bit 3 c AND 63 :: u32) \<noteq> 56"
  proof
    assume "unat (drop_bit 3 c AND 63 :: u32) = 56"
    then have "drop_bit 3 c AND 63 = (56 :: u32)"
      by (simp add: word_unat_eq_iff)
    then have "push_bit 3 (drop_bit 3 c AND 63) = (448 :: u32)" by simp
    moreover have "push_bit 3 (drop_bit 3 c AND 63) = c AND 504"
    proof -
      have "push_bit 3 (drop_bit 3 c AND mask 6) = c AND push_bit 3 (mask 6)"
        by (rule bit_word_eqI) (auto simp: bit_simps)
      then show ?thesis by (simp add: mask_eq_exp_minus_1)
    qed
    ultimately show False using assms by simp
  qed
  moreover have "unat (drop_bit 3 c AND 63 :: u32) < 64"
    using unat_and_63 .
  ultimately show ?thesis
    unfolding pad_left_def count_step Let_def
    by (cases "unat (drop_bit 3 c AND 63 :: u32) = 63") auto
qed

function sha1_pad :: "sha1 \<Rightarrow> sha1" where
  "sha1_pad s = (if m_count0 s AND 504 \<noteq> 448 then sha1_pad (sha1_update [0] s) else s)"
  by pat_completeness auto
termination
  by (relation "measure (\<lambda>s. pad_left (m_count0 s))") (auto dest: pad_left_step)

declare sha1_pad.simps [simp del]

text \<open>\<open>finalcount[i] = (m_count[i >= 4 ? 0 : 1] >> ((3 - (i & 3)) * 8)) & 255\<close>.\<close>

definition sha1_finalcount :: "sha1 \<Rightarrow> bytes" where
  "sha1_finalcount s =
     map (\<lambda>i. ucast (drop_bit ((3 - i mod 4) * 8) (if i \<ge> 4 then m_count0 s else m_count1 s) AND 255)) [0..<8]"

definition sha1_final :: "sha1 \<Rightarrow> sha1" where
  "sha1_final s =
     (let finalcount = sha1_finalcount s;
          s = sha1_update [0x80] s;
          s = sha1_pad s;
          s = sha1_update finalcount s;
          s = s\<lparr>m_digest := map (\<lambda>i. ucast (drop_bit ((3 - i mod 4) * 8) (m_state s ! (i div 4)) AND 255)) [0..<20]\<rparr>;
          s = s\<lparr>m_buffer := replicate 64 0, m_state := replicate 5 0, m_count0 := 0, m_count1 := 0\<rparr>
      in s\<lparr>m_state := sha1_transform (m_state s) (m_buffer s)\<rparr>)"

definition sha1_get_hash :: "sha1 \<Rightarrow> bytes" where
  "sha1_get_hash s = m_digest s"

section \<open>HMAC\<close>

abbreviation (input) HMAC_BUF_LEN :: nat where "HMAC_BUF_LEN \<equiv> 4096"

text \<open>\<open>reset\<close>, \<open>update\<close>, \<open>final\<close>, \<open>get_hash\<close> in a row, as \<open>make_bytes\<close> calls them.\<close>

definition sha1_run :: "bytes \<Rightarrow> sha1 \<Rightarrow> bytes \<times> sha1" where
  "sha1_run data s =
     (let s = sha1_reset s; s = sha1_update data s; s = sha1_final s in (sha1_get_hash s, s))"

text \<open>
  \<open>AppendBuf1\<close> has \<open>HMAC_BUF_LEN\<close> bytes: a longer text overruns it, which is undefined.
\<close>

definition hmac_make_bytes :: "bytes \<Rightarrow> bytes \<Rightarrow> sha1 \<Rightarrow> (bytes \<times> sha1) cxx" where
  "hmac_make_bytes text key s =
     (let (SHA1_Key, s) =
            (if length key > 64 then
               let (h, s) = sha1_run key s in (mem_copy (replicate 64 0) 0 h, s)
             else (mem_copy (replicate 64 0) 0 key, s));
          m_ipad = map2 (XOR) (replicate 64 0x36) SHA1_Key
      in if 64 + length text > HMAC_BUF_LEN then None
         else
           let AppendBuf1 = m_ipad @ text;
               (szReport, s) = sha1_run AppendBuf1 s;
               m_opad = map2 (XOR) (replicate 64 0x5C) SHA1_Key;
               AppendBuf2 = m_opad @ szReport
           in Some (sha1_run AppendBuf2 s))"

text \<open>\<open>hex_string\<close>: two lower-case digits per byte; \<open>make_string\<close> is the HMAC in that form.\<close>

definition hmac_hex_string :: "bytes \<Rightarrow> string" where
  "hmac_hex_string hex = hex_bytes hex"

definition hmac_make_string :: "bytes \<Rightarrow> bytes \<Rightarrow> sha1 \<Rightarrow> (string \<times> sha1) cxx" where
  "hmac_make_string text key s =
     do { (ret, s) \<leftarrow> hmac_make_bytes text key s; Some (hmac_hex_string ret, s) }"

end
