(* ===== verification/Sha1_Spec.thy ===== *)
theory Sha1_Spec
  imports Sha1
begin

text \<open>
  The reference for \<open>Sha1\<close>: padding, the hash of a whole message, HMAC of RFC 2104, and the
  compression function of FIPS 180 with its message schedule; and that the code computes them.
\<close>

unbundle bit_operations_syntax

section \<open>Streaming\<close>

lemma blocks_short: "length d < 64 \<Longrightarrow> sha1_blocks st d = (st, d)"
  by (subst sha1_blocks.simps) simp

lemma blocks_long:
  "64 \<le> length d \<Longrightarrow> sha1_blocks st d = sha1_blocks (sha1_transform st (take 64 d)) (drop 64 d)"
  by (subst sha1_blocks.simps) simp

lemma blocks_append:
  "sha1_blocks st m = (st', r) \<Longrightarrow> sha1_blocks st (m @ d) = sha1_blocks st' (r @ d)"
proof (induction st m rule: sha1_blocks.induct)
  case (1 st m)
  show ?case
  proof (cases "length m < 64")
    case True
    with "1.prems" show ?thesis by (simp add: blocks_short)
  next
    case False
    then have "sha1_blocks st (m @ d) = sha1_blocks (sha1_transform st (take 64 m)) (drop 64 m @ d)"
      by (subst blocks_long) simp_all
    with False "1.IH" "1.prems" show ?thesis
      by (simp add: blocks_long)
  qed
qed

lemma blocks_rest: "sha1_blocks st m = (st', r) \<Longrightarrow> length r = length m mod 64"
proof (induction st m rule: sha1_blocks.induct)
  case (1 st m)
  show ?case
  proof (cases "length m < 64")
    case True
    with "1.prems" show ?thesis by (simp add: blocks_short)
  next
    case False
    with "1.IH" "1.prems" show ?thesis
      by (simp add: blocks_long le_mod_geq)
  qed
qed

text \<open>What the object has been fed since \<open>reset\<close>.\<close>

definition absorbed :: "sha1 \<Rightarrow> bytes \<Rightarrow> bool" where
  "absorbed s m \<longleftrightarrow> length (m_buffer s) = 64 \<and>
     sha1_blocks sha1_init_state m = (m_state s, take (length m mod 64) (m_buffer s)) \<and>
     m_count0 s = word_of_nat (8 * length m) \<and> m_count1 s = 0"

lemma absorbed_reset: "length (m_buffer s) = 64 \<Longrightarrow> absorbed (sha1_reset s) []"
  by (simp add: absorbed_def sha1_reset_def blocks_short)

lemma length_mem_copy [simp]:
  "off + length src \<le> length dst \<Longrightarrow> length (mem_copy dst off src) = length dst"
  by (simp add: mem_copy_def)

lemma push3_of_nat: "push_bit 3 (word_of_nat n :: u32) = word_of_nat (8 * n)"
  by (simp add: push_bit_eq_mult)

lemma count_index:
  assumes "n < 2 ^ 29"
  shows "unat (drop_bit 3 (word_of_nat (8 * n) :: u32) AND 63) = n mod 64"
proof -
  have u: "unat (word_of_nat (8 * n) :: u32) = 8 * n"
    using assms by (intro unat_of_nat_small) simp
  have "x AND 63 = take_bit 6 x" for x :: u32
    by (simp add: take_bit_eq_mask mask_eq_exp_minus_1)
  then show ?thesis
    using u by (simp add: unsigned_take_bit_eq take_bit_eq_mod drop_bit_eq_div unat_div unat_mod
        del: of_nat_mult)
qed

lemma update_absorbed:
  assumes s: "absorbed s m" and len: "length m + length d < 2 ^ 29"
  shows "absorbed (sha1_update d s) (m @ d)"
proof -
  let ?n = "length m" and ?j = "length m mod 64" and ?buf = "m_buffer s"
  have st: "sha1_blocks sha1_init_state m = (m_state s, take ?j ?buf)" and buf: "length ?buf = 64"
    using s by (simp_all add: absorbed_def)
  have j: "unat (drop_bit 3 (m_count0 s) AND 63) = ?j"
    using s len by (simp add: absorbed_def count_index del: of_nat_mult)
  have c0: "m_count0 s + push_bit 3 (word_of_nat (length d)) = word_of_nat (8 * length (m @ d))"
    using s by (simp add: absorbed_def push_bit_eq_mult algebra_simps)
  have nc: "\<not> (word_of_nat (8 * length (m @ d)) :: u32) < push_bit 3 (word_of_nat (length d))"
    using len unat_of_nat_small [of "8 * length (m @ d)", where 'a = 32]
      unat_of_nat_small [of "8 * length d", where 'a = 32]
    by (simp add: word_less_nat_alt push3_of_nat del: of_nat_mult of_nat_add)
  have d29: "drop_bit 29 (word_of_nat (length d) :: u32) = 0"
    using len unat_of_nat_small [of "length d", where 'a = 32]
    by (simp add: drop_bit_eq_div word_unat_eq_iff unat_div)
  have blocks: "sha1_blocks sha1_init_state (m @ d) = sha1_blocks (m_state s) (take ?j ?buf @ d)"
    using blocks_append [OF st] .
  show ?thesis
  proof (cases "?j + length d > 63")
    case True
    let ?i = "64 - ?j"
    let ?b = "mem_copy ?buf ?j (take ?i d)"
    obtain st2 r where r: "sha1_blocks (sha1_transform (m_state s) ?b) (drop ?i d) = (st2, r)"
      by fastforce
    have b: "?b = take ?j ?buf @ take ?i d" "length ?b = 64"
      using True buf mod_less_divisor [of 64 ?n] by (auto simp: mem_copy_def min_def)
    have "sha1_blocks (m_state s) (take ?j ?buf @ d) = (st2, r)"
      using True buf b(1) r mod_less_divisor [of 64 ?n] by (subst blocks_long) (auto simp: min_def)
    moreover from this have lr: "length r = length (m @ d) mod 64"
      using blocks blocks_rest by metis
    moreover have "take (length r) (mem_copy ?b 0 r) = r"
      by (simp add: mem_copy_def)
    moreover have "length (mem_copy ?b 0 r) = 64"
      using b(2) lr by simp
    ultimately show ?thesis
      using True s j c0 nc d29 r blocks
      by (simp add: absorbed_def sha1_update_def Let_def)
  next
    case False
    then have "(?j + length d) mod 64 = ?j + length d"
      by (intro mod_less) simp
    then have "(?n + length d) mod 64 = ?j + length d"
      by (simp add: mod_add_left_eq)
    moreover have "sha1_blocks (m_state s) (take ?j ?buf @ d) = (m_state s, take ?j ?buf @ d)"
      using False buf by (intro blocks_short) simp
    ultimately show ?thesis
      using False s j c0 nc d29 blocks buf
      by (simp add: absorbed_def sha1_update_def Let_def mem_copy_def)
  qed
qed

text \<open>The zeros of the padding: as many as lead to 56 modulo 64.\<close>

definition pad_zeros :: "nat \<Rightarrow> nat" where
  "pad_zeros n = (if n mod 64 \<le> 56 then 56 - n mod 64 else 120 - n mod 64)"

lemma pad_zeros_mod: "(n + pad_zeros n) mod 64 = 56"
proof -
  have "(n + pad_zeros n) mod 64 = (n mod 64 + pad_zeros n) mod 64"
    by (simp add: mod_add_left_eq)
  also have "\<dots> = 56"
  proof (cases "n mod 64 \<le> 56")
    case False
    then have "n mod 64 + pad_zeros n = 120"
      using mod_less_divisor [of 64 n] by (simp add: pad_zeros_def)
    then show ?thesis by simp
  qed (simp add: pad_zeros_def)
  finally show ?thesis .
qed

lemma count_448:
  assumes "n < 2 ^ 29"
  shows "(word_of_nat (8 * n) :: u32) AND 504 = 448 \<longleftrightarrow> n mod 64 = 56"
proof -
  let ?c = "word_of_nat (8 * n) :: u32"
  have "?c AND 504 = 448 \<longleftrightarrow> drop_bit 3 ?c AND 63 = 56"
  proof
    assume "?c AND 504 = 448"
    then have "drop_bit 3 (?c AND 504) = drop_bit 3 448" by (rule arg_cong)
    then show "drop_bit 3 ?c AND 63 = 56"
      unfolding drop_bit_and by simp
  next
    assume a: "drop_bit 3 ?c AND 63 = 56"
    have "?c AND push_bit 3 (mask 6) = push_bit 3 (drop_bit 3 ?c AND mask 6)"
      by (rule bit_word_eqI) (auto simp: bit_simps)
    then have "?c AND 504 = push_bit 3 (drop_bit 3 ?c AND 63)"
      by (simp add: mask_eq_exp_minus_1 del: of_nat_mult)
    then show "?c AND 504 = 448"
      unfolding a by simp
  qed
  also have "\<dots> \<longleftrightarrow> unat (drop_bit 3 ?c AND 63) = 56"
    by (simp add: word_unat_eq_iff del: of_nat_mult)
  finally show ?thesis
    unfolding count_index [OF assms] .
qed

lemma pad_zeros_step:
  assumes "n mod 64 \<noteq> 56"
  shows "pad_zeros n = Suc (pad_zeros (Suc n))"
proof (cases "n mod 64 = 63")
  case True
  then have "Suc n mod 64 = 0" by (simp add: mod_Suc)
  with True show ?thesis by (simp add: pad_zeros_def)
next
  case False
  then have s: "Suc n mod 64 = Suc (n mod 64)" by (simp add: mod_Suc)
  define k where "k = n mod 64"
  have "k < 64" "k \<noteq> 56" "k \<noteq> 63"
    using assms False by (simp_all add: k_def)
  then show ?thesis
    unfolding pad_zeros_def s k_def [symmetric] by auto
qed

lemma pad_absorbed:
  "absorbed s m \<Longrightarrow> length m + pad_zeros (length m) < 2 ^ 29 \<Longrightarrow>
   absorbed (sha1_pad s) (m @ replicate (pad_zeros (length m)) 0)"
proof (induction s arbitrary: m rule: sha1_pad.induct)
  case (1 s)
  have c: "m_count0 s AND 504 = 448 \<longleftrightarrow> length m mod 64 = 56"
    using "1.prems" count_448 [of "length m"] by (simp add: absorbed_def del: of_nat_mult)
  show ?case
  proof (cases "length m mod 64 = 56")
    case True
    with c "1.prems" show ?thesis
      by (subst sha1_pad.simps) (simp add: pad_zeros_def)
  next
    case False
    let ?s = "sha1_update [0] s"
    have z: "pad_zeros (length m) = Suc (pad_zeros (length (m @ [0])))"
      using pad_zeros_step [OF False] by simp
    have "absorbed ?s (m @ [0])"
      using "1.prems" z by (intro update_absorbed) simp_all
    then have "absorbed (sha1_pad ?s) ((m @ [0]) @ replicate (pad_zeros (length (m @ [0]))) 0)"
      using "1.prems"(2) z c False by (intro "1.IH") simp_all
    with False c show ?thesis
      unfolding z by (subst sha1_pad.simps) simp
  qed
qed

text \<open>The padded message and the hash of FIPS 180 over the compression function.\<close>

definition sha1_padded :: "bytes \<Rightarrow> bytes" where
  "sha1_padded m = m @ [0x80] @ replicate (pad_zeros (Suc (length m))) 0 @
     b32 0 @ b32 (word_of_nat (8 * length m))"

definition sha1_spec :: "bytes \<Rightarrow> bytes" where
  "sha1_spec m = concat (map b32 (fst (sha1_blocks sha1_init_state (sha1_padded m))))"

lemma length_transform: "length st = 5 \<Longrightarrow> length (sha1_transform st b) = 5"
proof -
  have "length (fst (fold sha1_round is rl)) = length (fst rl)" for "is" rl
    by (induction "is" arbitrary: rl) (simp_all add: sha1_round_def Let_def split_beta)
  then show "length st = 5 \<Longrightarrow> ?thesis"
    by (simp add: sha1_transform_def split_beta)
qed

lemma length_blocks: "length st = 5 \<Longrightarrow> length (fst (sha1_blocks st m)) = 5"
proof (induction st m rule: sha1_blocks.induct)
  case (1 st m)
  then show ?case
    by (cases "length m < 64") (simp_all add: blocks_short blocks_long length_transform)
qed

lemma digest_bytes:
  "length st = 5 \<Longrightarrow>
   map (\<lambda>i. ucast (drop_bit ((3 - i mod 4) * 8) (st ! (i div 4)) AND 255 :: u32)) [0..<20] =
     concat (map b32 st)"
  by (cases st; cases "tl st"; cases "tl (tl st)"; cases "tl (tl (tl st))";
      cases "tl (tl (tl (tl st)))") (auto simp: b32_def upt_rec)

lemma finalcount_bytes:
  "absorbed s m \<Longrightarrow> sha1_finalcount s = b32 0 @ b32 (word_of_nat (8 * length m))"
  by (simp add: absorbed_def sha1_finalcount_def b32_def upt_rec)

lemma pad_zeros_less: "pad_zeros n < 64"
proof -
  define k where "k = n mod 64"
  have "k < 64" by (simp add: k_def)
  then show ?thesis
    unfolding pad_zeros_def k_def [symmetric] by auto
qed

lemma final_digest:
  assumes s: "absorbed s m" and len: "length m < 2 ^ 28"
  shows "m_digest (sha1_final s) = sha1_spec m" and "length (m_buffer (sha1_final s)) = 64"
proof -
  let ?s1 = "sha1_update [0x80] s" and ?fc = "b32 0 @ b32 (word_of_nat (8 * length m))"
  let ?s2 = "sha1_pad ?s1" and ?z = "pad_zeros (Suc (length m))"
  let ?s3 = "sha1_update ?fc ?s2"
  have "absorbed ?s1 (m @ [0x80])"
    using s len by (intro update_absorbed) simp_all
  then have s2: "absorbed ?s2 ((m @ [0x80]) @ replicate ?z 0)"
    using pad_absorbed [of ?s1 "m @ [0x80]"] len pad_zeros_less [of "Suc (length m)"] by simp
  then have s3: "absorbed ?s3 (sha1_padded m)"
    using update_absorbed [OF s2, of ?fc] len pad_zeros_less [of "Suc (length m)"]
    by (simp add: sha1_padded_def)
  then have st: "m_state ?s3 = fst (sha1_blocks sha1_init_state (sha1_padded m))"
    by (simp add: absorbed_def)
  then have "length (m_state ?s3) = 5"
    by (simp add: length_blocks sha1_init_state_def)
  then show "m_digest (sha1_final s) = sha1_spec m"
    using finalcount_bytes [OF s] digest_bytes [of "m_state ?s3"] st
    by (simp add: sha1_final_def Let_def sha1_spec_def)
  show "length (m_buffer (sha1_final s)) = 64"
    by (simp add: sha1_final_def Let_def)
qed

lemma sha1_run_spec:
  assumes "length (m_buffer s) = 64" and "length data < 2 ^ 28"
  shows "fst (sha1_run data s) = sha1_spec data" and "length (m_buffer (snd (sha1_run data s))) = 64"
proof -
  have "absorbed (sha1_update data (sha1_reset s)) ([] @ data)"
    using assms by (intro update_absorbed absorbed_reset) simp_all
  from final_digest [OF this [simplified] assms(2)] show
    "fst (sha1_run data s) = sha1_spec data" "length (m_buffer (snd (sha1_run data s))) = 64"
    by (simp_all add: sha1_run_def sha1_get_hash_def Let_def)
qed

section \<open>HMAC\<close>

definition hmac_key :: "bytes \<Rightarrow> bytes" where
  "hmac_key key = (let k = (if length key > 64 then sha1_spec key else key)
                   in k @ replicate (64 - length k) 0)"

definition hmac_spec :: "bytes \<Rightarrow> bytes \<Rightarrow> bytes" where
  "hmac_spec key text =
     sha1_spec (map (\<lambda>b. 0x5C XOR b) (hmac_key key) @
       sha1_spec (map (\<lambda>b. 0x36 XOR b) (hmac_key key) @ text))"

lemma length_sha1_spec [simp]: "length (sha1_spec m) = 20"
proof -
  have "length (concat (map b32 ws)) = 4 * length ws" for ws
    by (induction ws) simp_all
  then show ?thesis
    by (simp add: sha1_spec_def length_blocks sha1_init_state_def)
qed

lemma length_hmac_key [simp]: "length (hmac_key key) = 64"
  by (simp add: hmac_key_def Let_def)

lemma map2_replicate: "length xs = n \<Longrightarrow> map2 f (replicate n c) xs = map (f c) xs"
  by (induction xs arbitrary: n) auto

lemma hmac_make_bytes_spec:
  assumes "length (m_buffer s) = 64" and "length text \<le> 4032" and "length key < 2 ^ 28"
  shows "\<exists>s'. hmac_make_bytes text key s = Some (hmac_spec key text, s') \<and> length (m_buffer s') = 64"
proof -
  let ?s1 = "if length key > 64 then snd (sha1_run key s) else s"
  have s1: "length (m_buffer ?s1) = 64"
    using assms(1,3) by (simp add: sha1_run_spec(2))
  have k: "(if length key > 64 then let (h, s) = sha1_run key s in (mem_copy (replicate 64 0) 0 h, s)
      else (mem_copy (replicate 64 0) 0 key, s)) = (hmac_key key, ?s1)"
    using sha1_run_spec(1) [OF assms(1,3)]
    by (auto simp: split_beta hmac_key_def mem_copy_def Let_def)
  let ?inner = "map (\<lambda>b. 0x36 XOR b) (hmac_key key) @ text"
  have i: "fst (sha1_run ?inner ?s1) = sha1_spec ?inner" "length (m_buffer (snd (sha1_run ?inner ?s1))) = 64"
    using sha1_run_spec [OF s1, of ?inner] assms(2) by simp_all
  let ?outer = "map (\<lambda>b. 0x5C XOR b) (hmac_key key) @ sha1_spec ?inner"
  have o: "fst (sha1_run ?outer (snd (sha1_run ?inner ?s1))) = sha1_spec ?outer"
      "length (m_buffer (snd (sha1_run ?outer (snd (sha1_run ?inner ?s1))))) = 64"
    using sha1_run_spec [OF i(2), of ?outer] by simp_all
  have "hmac_make_bytes text key s = Some (sha1_run ?outer (snd (sha1_run ?inner ?s1)))"
    using assms(2) i(1) unfolding hmac_make_bytes_def k
    by (simp add: Let_def split_beta map2_replicate)
  with o show ?thesis
    by (auto simp: hmac_spec_def intro!: exI [of _ "snd (sha1_run ?outer (snd (sha1_run ?inner ?s1)))"]
        prod_eqI)
qed

section \<open>Compression\<close>

text \<open>The message schedule and the step of FIPS 180.\<close>

function sha1_W :: "bytes \<Rightarrow> nat \<Rightarrow> u32" where
  "sha1_W m t =
     (if t < 16 then be32 (m ! (4 * t)) (m ! (4 * t + 1)) (m ! (4 * t + 2)) (m ! (4 * t + 3))
      else ROL32 (sha1_W m (t - 3) XOR sha1_W m (t - 8) XOR sha1_W m (t - 14) XOR sha1_W m (t - 16)) 1)"
  by pat_completeness auto
termination
  by (relation "measure snd") auto

declare sha1_W.simps [simp del]

definition fips_f :: "nat \<Rightarrow> u32 \<Rightarrow> u32 \<Rightarrow> u32 \<Rightarrow> u32" where
  "fips_f t x y z =
     (if t < 20 then (x AND y) XOR (NOT x AND z)
      else if t < 40 then x XOR y XOR z
      else if t < 60 then (x AND y) XOR (x AND z) XOR (y AND z)
      else x XOR y XOR z)"

type_synonym word5 = "u32 \<times> u32 \<times> u32 \<times> u32 \<times> u32"

definition fips_step :: "bytes \<Rightarrow> nat \<Rightarrow> word5 \<Rightarrow> word5" where
  "fips_step m t s = (case s of (a, b, c, d, e) \<Rightarrow>
     (ROL32 a 5 + fips_f t b c d + e + sha1_k t + sha1_W m t, a, ROL32 b 30, c, d))"

definition fips_compress :: "u32 list \<Rightarrow> bytes \<Rightarrow> u32 list" where
  "fips_compress st m =
     (case fold (fips_step m) [0..<80] (st ! 0, st ! 1, st ! 2, st ! 3, st ! 4) of
        (a, b, c, d, e) \<Rightarrow> [st ! 0 + a, st ! 1 + b, st ! 2 + c, st ! 3 + d, st ! 4 + e])"

lemma sha1_f_eq: "sha1_f t x y z = fips_f t x y z"
proof -
  have "(x AND (y XOR z)) XOR z = (x AND y) XOR (NOT x AND z)"
    by (rule bit_word_eqI) (auto simp: bit_simps)
  moreover have "((x OR y) AND z) OR (x AND y) = (x AND y) XOR (x AND z) XOR (y AND z)"
    by (rule bit_word_eqI) (auto simp: bit_simps)
  ultimately show ?thesis
    by (simp add: sha1_f_def fips_f_def)
qed

text \<open>The byte swap by two rotations.\<close>

lemma bit_be32:
  "n < 32 \<Longrightarrow> bit (be32 a b c d) n \<longleftrightarrow>
     (if n < 8 then bit d n else if n < 16 then bit c (n - 8)
      else if n < 24 then bit b (n - 16) else bit a (n - 24))"
  by (auto simp: be32_def bit_simps dest: bit_imp_le_length)

lemma bit_ROL32:
  "0 < k \<Longrightarrow> k < 32 \<Longrightarrow> n < 32 \<Longrightarrow> bit (ROL32 x k) n \<longleftrightarrow> (if k \<le> n then bit x (n - k) else bit x (n + 32 - k))"
  by (auto simp: ROL32_def bit_simps dest: bit_imp_le_length)
    (auto simp: add.commute)

lemma bswap_rol:
  "(ROL32 (be32 d c b a) 24 AND 0xFF00FF00) OR (ROL32 (be32 d c b a) 8 AND 0x00FF00FF) = be32 a b c d"
proof -
  have m1: "bit (0xFF00FF00 :: u32) n \<longleftrightarrow> 8 \<le> n \<and> n < 16 \<or> 24 \<le> n \<and> n < 32" for n
  proof -
    have "(0xFF00FF00 :: u32) = push_bit 8 (mask 8) OR push_bit 24 (mask 8)"
      by (simp add: mask_eq_exp_minus_1)
    then show ?thesis by (simp only: bit_or_iff bit_push_bit_iff bit_mask_iff) auto
  qed
  have m2: "bit (0x00FF00FF :: u32) n \<longleftrightarrow> n < 8 \<or> 16 \<le> n \<and> n < 24" for n
  proof -
    have "(0x00FF00FF :: u32) = mask 8 OR push_bit 16 (mask 8)"
      by (simp add: mask_eq_exp_minus_1)
    then show ?thesis by (simp only: bit_or_iff bit_push_bit_iff bit_mask_iff) auto
  qed
  show ?thesis
  proof (rule bit_word_eqI)
    fix n assume "n < LENGTH(32)"
    then have n: "n < 32" by simp
    consider "n < 8" | "8 \<le> n \<and> n < 16" | "16 \<le> n \<and> n < 24" | "24 \<le> n \<and> n < 32"
      using n by linarith
    then show "bit ((ROL32 (be32 d c b a) 24 AND 0xFF00FF00) OR (ROL32 (be32 d c b a) 8 AND 0x00FF00FF)) n =
        bit (be32 a b c d) n"
      unfolding bit_or_iff bit_and_iff m1 m2
      using n by cases (auto simp: bit_ROL32 bit_be32 split: if_splits)
  qed
qed

text \<open>
  The invariant of the unrolled rounds: the five variables, read in the order of round \<open>n\<close>, are
  the working variables of FIPS 180, and the circular block holds the last 16 words of the schedule.
\<close>

definition round_inv :: "bytes \<Rightarrow> nat \<Rightarrow> word5 \<Rightarrow> u32 list \<times> u32 list \<Rightarrow> bool" where
  "round_inv m n s rl \<longleftrightarrow> (case rl of (r, l) \<Rightarrow> length r = 5 \<and> length l = 16 \<and>
     s = (r ! ((4 * n) mod 5), r ! ((1 + 4 * n) mod 5), r ! ((2 + 4 * n) mod 5),
          r ! ((3 + 4 * n) mod 5), r ! ((4 + 4 * n) mod 5)) \<and>
     (\<forall>t < n. n \<le> t + 16 \<longrightarrow> l ! (t mod 16) = sha1_W m t) \<and>
     (\<forall>j < 16. n \<le> j \<longrightarrow> l ! j = le32 m j))"

lemma schedule_step:
  assumes l: "length l = 16" "\<And>t. t < n \<Longrightarrow> n \<le> t + 16 \<Longrightarrow> l ! (t mod 16) = sha1_W m t"
      "\<And>j. j < 16 \<Longrightarrow> n \<le> j \<Longrightarrow> l ! j = le32 m j"
    and l': "l' = (if n < 16 then SHABLK0 n l else SHABLK n l)"
  shows "length l' = 16" and "l' ! (n mod 16) = sha1_W m n"
    and "\<And>j. j < 16 \<Longrightarrow> j \<noteq> n mod 16 \<Longrightarrow> l' ! j = l ! j"
proof -
  show "length l' = 16" "\<And>j. j < 16 \<Longrightarrow> j \<noteq> n mod 16 \<Longrightarrow> l' ! j = l ! j"
    using l(1) by (auto simp: l' SHABLK0_def SHABLK_def)
  show "l' ! (n mod 16) = sha1_W m n"
  proof (cases "n < 16")
    case True
    with l show ?thesis
      by (simp add: l' SHABLK0_def le32_def bswap_rol sha1_W.simps [of m n])
  next
    case False
    have prev_word: "l ! (i mod 16) = sha1_W m j" if "i = j + 16" "j < n" "n \<le> j + 16" for i j
      using l(2) [OF that(2,3)] that(1) by simp
    have "l ! ((n + 13) mod 16) = sha1_W m (n - 3)" "l ! ((n + 8) mod 16) = sha1_W m (n - 8)"
        "l ! ((n + 2) mod 16) = sha1_W m (n - 14)" "l ! (n mod 16) = sha1_W m (n - 16)"
      by (rule prev_word; use False in simp)+
    with False l(1) show ?thesis
      by (simp add: l' SHABLK_def sha1_W.simps [of m n])
  qed
qed

lemma register_indices:
  "distinct [(4 * n) mod 5, (1 + 4 * n) mod 5, (2 + 4 * n) mod 5, (3 + 4 * n) mod 5, (4 + 4 * n) mod 5]"
  "(4 * Suc n) mod 5 = (4 + 4 * n) mod 5" "(1 + 4 * Suc n) mod 5 = (4 * n) mod 5"
  "(2 + 4 * Suc n) mod 5 = (1 + 4 * n) mod 5" "(3 + 4 * Suc n) mod 5 = (2 + 4 * n) mod 5"
  "(4 + 4 * Suc n) mod 5 = (3 + 4 * n) mod 5"
proof -
  have shift: "i mod 5 = j mod 5" if "i = j + 5" for i j :: nat
    using that by simp
  show "(4 * Suc n) mod 5 = (4 + 4 * n) mod 5" by simp
  show "(1 + 4 * Suc n) mod 5 = (4 * n) mod 5" "(2 + 4 * Suc n) mod 5 = (1 + 4 * n) mod 5"
    "(3 + 4 * Suc n) mod 5 = (2 + 4 * n) mod 5" "(4 + 4 * Suc n) mod 5 = (3 + 4 * n) mod 5"
    by (rule shift; simp)+
  have q: "(k + 4 * n) mod 5 = (k + 4 * (n mod 5)) mod 5" for k
    by (metis mod_add_right_eq mod_mult_right_eq)
  have "n mod 5 \<in> {0, 1, 2, 3, 4}"
    using mod_less_divisor [of 5 n] by auto
  then have "distinct (map (\<lambda>k. (k + 4 * n) mod 5) [0, 1, 2, 3, 4])"
    unfolding q by (elim insertE) simp_all
  then show "distinct [(4 * n) mod 5, (1 + 4 * n) mod 5, (2 + 4 * n) mod 5, (3 + 4 * n) mod 5, (4 + 4 * n) mod 5]"
    by (simp only: list.map add_0)
qed

lemma round_step:
  assumes "round_inv m n s rl"
  shows "round_inv m (Suc n) (fips_step m n s) (sha1_round n rl)"
proof -
  obtain r l where rl: "rl = (r, l)" by (cases rl)
  let ?l = "if n < 16 then SHABLK0 n l else SHABLK n l"
  have len: "length r = 5" "length l = 16"
    and s: "s = (r ! ((4 * n) mod 5), r ! ((1 + 4 * n) mod 5), r ! ((2 + 4 * n) mod 5),
          r ! ((3 + 4 * n) mod 5), r ! ((4 + 4 * n) mod 5))"
    and W: "\<And>t. t < n \<Longrightarrow> n \<le> t + 16 \<Longrightarrow> l ! (t mod 16) = sha1_W m t"
    and L: "\<And>j. j < 16 \<Longrightarrow> n \<le> j \<Longrightarrow> l ! j = le32 m j"
    using assms by (auto simp: round_inv_def rl)
  have step: "length ?l = 16" "?l ! (n mod 16) = sha1_W m n"
      "\<And>j. j < 16 \<Longrightarrow> j \<noteq> n mod 16 \<Longrightarrow> ?l ! j = l ! j"
    using schedule_step [of l n m ?l, OF len(2) W L refl] by blast+
  have other: "t mod 16 \<noteq> n mod 16" if "t < n" "Suc n \<le> t + 16" for t
  proof
    assume "t mod 16 = n mod 16"
    then have "16 dvd n - t"
      using that(1) by (metis less_imp_le mod_eq_dvd_iff_nat)
    with that show False
      by (auto dest: dvd_imp_le)
  qed
  have W': "?l ! (t mod 16) = sha1_W m t" if "t < Suc n" "Suc n \<le> t + 16" for t
  proof (cases "t = n")
    case False
    with that have "?l ! (t mod 16) = l ! (t mod 16)"
      by (intro step(3) other) simp_all
    with that False show ?thesis using W [of t] by simp
  qed (use step(2) in simp)
  have L': "?l ! j = le32 m j" if "j < 16" "Suc n \<le> j" for j
  proof -
    have "?l ! j = l ! j" using that by (intro step(3)) auto
    with that show ?thesis using L [of j] by simp
  qed
  define i0 i1 i2 i3 i4 where i: "i0 = (4 * n) mod 5" "i1 = (1 + 4 * n) mod 5"
    "i2 = (2 + 4 * n) mod 5" "i3 = (3 + 4 * n) mod 5" "i4 = (4 + 4 * n) mod 5"
  have lt: "i0 < 5" "i1 < 5" "i2 < 5" "i3 < 5" "i4 < 5"
    by (simp_all add: i)
  note dist = register_indices(1) [of n, folded i] and nxt = register_indices(2-6) [of n, folded i]
  have round: "sha1_round n rl = (r[i4 := r ! i4 + (sha1_f n (r ! i1) (r ! i2) (r ! i3) +
      ?l ! (n mod 16) + sha1_k n + ROL32 (r ! i0) 5), i1 := ROL32 (r ! i1) 30], ?l)"
    by (simp only: sha1_round_def rl Let_def prod.case i)
  have s': "s = (r ! i0, r ! i1, r ! i2, r ! i3, r ! i4)"
    using s by (simp only: i)
  show ?thesis
    unfolding round_inv_def round nxt s' fips_step_def prod.case
    using dist lt len step(1,2) W' L' by (auto simp: sha1_f_eq algebra_simps)
qed

lemma rounds_inv:
  assumes "length st = 5"
  shows "round_inv m n (fold (fips_step m) [0..<n] (st ! 0, st ! 1, st ! 2, st ! 3, st ! 4))
           (fold sha1_round [0..<n] (st, map (le32 m) [0..<16]))"
proof (induction n)
  case 0
  with assms show ?case by (simp add: round_inv_def)
next
  case (Suc n)
  from round_step [OF Suc] show ?case by simp
qed

lemma transform_fips:
  assumes "length st = 5"
  shows "sha1_transform st m = fips_compress st m"
proof -
  obtain a b c d e where st: "st = [a, b, c, d, e]"
    using assms by (auto simp: length_Suc_conv numeral_eq_Suc)
  obtain r l where rl: "fold sha1_round [0..<80] (st, map (le32 m) [0..<16]) = (r, l)"
    by fastforce
  have "round_inv m 80 (fold (fips_step m) [0..<80] (st ! 0, st ! 1, st ! 2, st ! 3, st ! 4)) (r, l)"
    using rounds_inv [OF assms, of m 80] unfolding rl .
  then have "length r = 5" and f: "fold (fips_step m) [0..<80] (st ! 0, st ! 1, st ! 2, st ! 3, st ! 4) =
      (r ! 0, r ! 1, r ! 2, r ! 3, r ! 4)"
    by (simp_all add: round_inv_def)
  then obtain a' b' c' d' e' where "r = [a', b', c', d', e']"
    by (auto simp: length_Suc_conv numeral_eq_Suc)
  then show ?thesis
    unfolding sha1_transform_def fips_compress_def rl f by (simp add: st)
qed

section \<open>The digest of FIPS 180\<close>

fun fips_blocks :: "nat \<Rightarrow> bytes \<Rightarrow> u32 list \<Rightarrow> u32 list" where
  "fips_blocks 0 m st = st"
| "fips_blocks (Suc n) m st = fips_blocks n (drop 64 m) (fips_compress st (take 64 m))"

definition fips_sha1 :: "bytes \<Rightarrow> bytes" where
  "fips_sha1 m = concat (map b32 (fips_blocks (length (sha1_padded m) div 64) (sha1_padded m)
     [0x67452301, 0xEFCDAB89, 0x98BADCFE, 0x10325476, 0xC3D2E1F0]))"

definition fips_hmac :: "bytes \<Rightarrow> bytes \<Rightarrow> bytes" where
  "fips_hmac key text =
     (let k = (if length key > 64 then fips_sha1 key else key);
          k = k @ replicate (64 - length k) 0
      in fips_sha1 (map (\<lambda>b. 0x5C XOR b) k @ fips_sha1 (map (\<lambda>b. 0x36 XOR b) k @ text)))"

lemma blocks_fips:
  "length st = 5 \<Longrightarrow> fst (sha1_blocks st m) = fips_blocks (length m div 64) m st"
proof (induction "length m div 64" arbitrary: m st)
  case 0
  then have "length m < 64" by simp
  then show ?case by (simp add: blocks_short)
next
  case (Suc n)
  then have long: "64 \<le> length m" "n = length (drop 64 m) div 64" by auto
  have "fst (sha1_blocks st m) = fips_blocks n (drop 64 m) (sha1_transform st (take 64 m))"
    using Suc.hyps(1) [OF long(2)] Suc.prems long by (simp add: blocks_long length_transform)
  then show ?case
    using Suc.hyps(2) Suc.prems by (simp flip: Suc.hyps(2) add: transform_fips)
qed

lemma sha1_spec_fips: "sha1_spec m = fips_sha1 m"
  by (simp add: sha1_spec_def fips_sha1_def blocks_fips sha1_init_state_def)

lemma hmac_spec_fips: "hmac_spec key msg = fips_hmac key msg"
  by (simp add: hmac_spec_def fips_hmac_def hmac_key_def Let_def sha1_spec_fips)

text \<open>
  C35: reset, update, final and get_hash on data below 2^28 bytes give the SHA-1 digest defined
  after FIPS 180-4, with the message schedule, round functions and padding of the standard,
  whatever the object held before.
\<close>

theorem sha1_fips:
  assumes "length (m_buffer s) = 64" and "length data < 2 ^ 28"
  shows "fst (sha1_run data s) = fips_sha1 data"
  using sha1_run_spec(1) [OF assms] by (simp add: sha1_spec_fips)

theorem sha1_fips_witness:
  "let s = \<lparr>m_state = sha1_init_state, m_count0 = 0, m_count1 = 0, m_buffer = replicate 64 0, m_digest = []\<rparr>
   in fst (sha1_run [97, 98, 99] s) = fips_sha1 [97, 98, 99]"
  unfolding Let_def by (rule sha1_fips) simp_all

text \<open>Hashing is incremental: two updates give the digest of the concatenation.\<close>

lemma sha1_update_split:
  assumes "length (m_buffer s) = 64" and "length d + length e < 2 ^ 28"
  shows "m_digest (sha1_final (sha1_update e (sha1_update d (sha1_reset s)))) = fips_sha1 (d @ e)"
proof -
  have "absorbed (sha1_update d (sha1_reset s)) ([] @ d)"
    using assms by (intro update_absorbed absorbed_reset) simp_all
  then have "absorbed (sha1_update e (sha1_update d (sha1_reset s))) (d @ e)"
    using assms by (intro update_absorbed) simp_all
  from final_digest(1) [OF this] assms show ?thesis by (simp add: sha1_spec_fips)
qed

text \<open>
  C36: make_bytes on a text of at most 4032 bytes is defined and is the HMAC-SHA1 of RFC 2104
  over that digest, for keys shorter and longer than a block.
\<close>

theorem hmac_rfc2104:
  assumes "length (m_buffer s) = 64" and "length msg \<le> 4032" and "length key < 2 ^ 28"
  shows "\<exists>s'. hmac_make_bytes msg key s = Some (fips_hmac key msg, s')"
  using hmac_make_bytes_spec [OF assms] by (auto simp: hmac_spec_fips)

theorem hmac_rfc2104_witness:
  "let s = \<lparr>m_state = sha1_init_state, m_count0 = 0, m_count1 = 0, m_buffer = replicate 64 0, m_digest = []\<rparr>
   in \<exists>s'. hmac_make_bytes [1, 2] [3] s = Some (fips_hmac [3] [1, 2], s')"
  unfolding Let_def by (rule hmac_rfc2104) simp_all

end
