(* ===== verification/Stun_Message.thy ===== *)
theory Stun_Message
  imports Crc32 Md5 Sha1_Spec
begin

text \<open>
  STUN messages: \<open>rtpx/stun/stun_attribute.h\<close>, \<open>stun_attribute.cpp\<close>, \<open>stun_message.h\<close>,
  \<open>stun_message.cpp\<close>, with \<open>sasl_prep\<close> of \<open>sys2/security/util.cpp\<close>. A message is serialized with
  MESSAGE-INTEGRITY and FINGERPRINT attributes behind its own; the receiver recomputes both.

  The machine is little-endian and \<open>char\<close> is signed. \<open>hton16\<close>, \<open>ntoh16\<close>, \<open>hton32\<close>, \<open>ntoh32\<close>
  swap the bytes, so a value that goes through them and \<open>memcpy\<close> has its bytes in network
  order (\<open>b16\<close>, \<open>b32\<close>, \<open>rd16\<close>, \<open>rd32\<close>); where the code masks a swapped value this is written out.
\<close>

unbundle bit_operations_syntax

section \<open>SASL preparation of a password\<close>

text \<open>
  \<open>sasl_prep\<close> works in place on the characters up to the terminating zero: \<open>i\<close> is \<open>strin\<close>, \<open>j\<close>
  is \<open>strout\<close>.
\<close>

function sasl_loop :: "bytes \<Rightarrow> nat \<Rightarrow> nat \<Rightarrow> (int \<times> bytes) cxx" where
  "sasl_loop s i j =
     (if i < length s then
        let c = s ! i in
        if c = 0 then Some (0, s[j := 0])
        else if c = 0xAD then sasl_loop s (i + 1) j
        else if c = 0xA0 \<or> c = 0x20 then sasl_loop (s[j := 0x20]) (i + 1) (j + 1)
        else if c = 0x7F then Some (-1, s)
        else if c < 0x1F then Some (-1, s)
        else if c \<ge> 0x80 \<and> c \<le> 0x9F then Some (-1, s)
        else sasl_loop (s[j := c]) (i + 1) (j + 1)
      else None)"
  by pat_completeness auto
termination
  by (relation "measure (\<lambda>(s, i, _). length s - i)") auto

declare sasl_loop.simps [simp del]

text \<open>Called on the characters of a \<open>std::string\<close>, which a zero follows.\<close>

definition sasl_prep :: "bytes \<Rightarrow> (int \<times> bytes) cxx" where
  "sasl_prep str = do { (r, s) \<leftarrow> sasl_loop (str @ [0]) 0 0; Some (r, take (length str) s) }"

section \<open>Attributes\<close>

type_synonym stun_attribute_type = u16

abbreviation (input) at_error_code :: stun_attribute_type where "at_error_code \<equiv> 0x0009"
abbreviation (input) at_message_integrity :: stun_attribute_type where "at_message_integrity \<equiv> 0x0008"
abbreviation (input) at_fingerprint :: stun_attribute_type where "at_fingerprint \<equiv> 0x8028"

record stun_attribute =
  at_type :: stun_attribute_type
  at_value :: bytes

definition stun_attribute_default :: stun_attribute where
  "stun_attribute_default = \<lparr>at_type = at_error_code, at_value = []\<rparr>"

definition stun_attribute_new :: "stun_attribute_type \<Rightarrow> bytes \<Rightarrow> stun_attribute" where
  "stun_attribute_new ty v = \<lparr>at_type = ty, at_value = v\<rparr>"

definition stun_attribute_serialize :: "stun_attribute \<Rightarrow> bytes" where
  "stun_attribute_serialize this =
     b16 (at_type this) @ b16 (word_of_nat (length (at_value this))) @ at_value this @
     (let remainder = length (at_value this) mod 4
      in if remainder > 0 then replicate (4 - remainder) 0 else [])"

definition stun_attribute_deserialize :: "stun_attribute \<Rightarrow> bytes \<Rightarrow> (int \<times> stun_attribute) cxx" where
  "stun_attribute_deserialize this buffer =
     (let size = length buffer in
      if size < 4 then Some (-1, this)
      else do {
        ty \<leftarrow> rd16 buffer 0;
        let this = this\<lparr>at_type := ty\<rparr>;
        len \<leftarrow> rd16 buffer 2;
        let padding = pad4 (unat len);
        if size < unat len + 4 + padding then Some (-1, this)
        else do {
          v \<leftarrow> rd_range buffer 4 (4 + unat len);
          Some (int (unat len + 4 + padding), this\<lparr>at_value := at_value this @ v\<rparr>) } })"

record stun_attribute_error_code =
  ec_class :: byte
  ec_number :: u32
  ec_reason :: bytes

definition stun_attribute_error_code_new :: stun_attribute_error_code where
  "stun_attribute_error_code_new = \<lparr>ec_class = 0, ec_number = 400, ec_reason = []\<rparr>"

definition stun_attribute_error_code_serialize :: "stun_attribute_error_code \<Rightarrow> bytes" where
  "stun_attribute_error_code_serialize this =
     replicate 2 0 @ [ec_class this] @ [ucast (ec_number this)] @ ec_reason this @
     (let remainder = length (ec_reason this) mod 4
      in if remainder > 0 then replicate (4 - remainder) 0 else [])"

text \<open>\<open>class_\<close> is a bit field of width 3.\<close>

definition stun_attribute_error_code_deserialize ::
  "stun_attribute_error_code \<Rightarrow> bytes \<Rightarrow> (bool \<times> stun_attribute_error_code) cxx" where
  "stun_attribute_error_code_deserialize this buffer =
     (let size = length buffer in
      if size < 4 then Some (False, this)
      else do {
        v \<leftarrow> rd8 buffer 2;
        n \<leftarrow> rd8 buffer 3;
        r \<leftarrow> rd_range buffer 0 (size - 4);
        Some (True, this\<lparr>ec_class := v AND 7, ec_number := scast n, ec_reason := ec_reason this @ r\<rparr>) })"

record stun_attribute_mapped_address =
  ma_family :: byte
  ma_port :: u16
  ma_address :: bytes

abbreviation (input) ma_IPV4 :: byte where "ma_IPV4 \<equiv> 0x01"
abbreviation (input) ma_IPV6 :: byte where "ma_IPV6 \<equiv> 0x02"

definition stun_attribute_mapped_address_new :: stun_attribute_mapped_address where
  "stun_attribute_mapped_address_new = \<lparr>ma_family = ma_IPV4, ma_port = 0, ma_address = replicate 16 0\<rparr>"

definition stun_attribute_mapped_address_serialize :: "stun_attribute_mapped_address \<Rightarrow> bytes" where
  "stun_attribute_mapped_address_serialize this =
     [0, ma_family this] @ b16 (ma_port this) @
     (if ma_family this = ma_IPV4 then take 4 (ma_address this) else take 16 (ma_address this))"

definition stun_attribute_mapped_address_deserialize ::
  "stun_attribute_mapped_address \<Rightarrow> bytes \<Rightarrow> (bool \<times> stun_attribute_mapped_address) cxx" where
  "stun_attribute_mapped_address_deserialize this buffer =
     (let size = length buffer in
      if size < 4 then Some (False, this)
      else do {
        f \<leftarrow> rd8 buffer 1;
        p \<leftarrow> rd16 buffer 2;
        let this = this\<lparr>ma_family := f, ma_port := p, ma_address := replicate 16 0\<rparr>;
        if ma_family this = ma_IPV4 then
          (if size < 8 then Some (False, this)
           else do { a \<leftarrow> rd_range buffer 4 8; Some (True, this\<lparr>ma_address := a @ replicate 12 0\<rparr>) })
        else if ma_family this = ma_IPV6 then
          (if size < 20 then Some (False, this)
           else do { a \<leftarrow> rd_range buffer 4 20; Some (True, this\<lparr>ma_address := a\<rparr>) })
        else Some (False, this) })"

text \<open>
  A \<open>sockaddr\<close>: the port in host order, the address bytes in memory order, which is the order of
  the byte masks applied to \<open>s_addr\<close>.
\<close>

datatype sockaddr = AF_INET u16 bytes | AF_INET6 u16 bytes | AF_OTHER

definition magic_bytes :: bytes where
  "magic_bytes = [0x21, 0x12, 0xA4, 0x42]"

definition stun_attribute_xor_mapped_address_create ::
  "sockaddr \<Rightarrow> bytes \<Rightarrow> stun_attribute_mapped_address" where
  "stun_attribute_xor_mapped_address_create addr tid =
     (let attr = stun_attribute_mapped_address_new in
      case addr of
        AF_INET port a \<Rightarrow>
          attr\<lparr>ma_family := ma_IPV4, ma_port := port XOR 0x2112,
               ma_address := map2 (XOR) (take 4 a) magic_bytes @ replicate 12 0\<rparr>
      | AF_INET6 port a \<Rightarrow>
          attr\<lparr>ma_family := ma_IPV6, ma_port := port XOR 0x2112,
               ma_address := map2 (XOR) (take 4 a) magic_bytes @
                             map2 (XOR) (take 12 (drop 4 a)) (take 12 tid)\<rparr>
      | AF_OTHER \<Rightarrow> attr)"

text \<open>
  A fresh \<open>hmac_sha1\<close> object; its buffer is not initialised by the code, the contents do not
  matter. \<open>sasl_prep\<close> is applied to the caller's password through a cast: it is returned.
\<close>

definition hmac_sha1_new :: sha1 where
  "hmac_sha1_new = \<lparr>m_state = sha1_init_state, m_count0 = 0, m_count1 = 0,
     m_buffer = replicate 64 0, m_digest = replicate 20 0\<rparr>"

definition create_short_turn :: "bytes \<Rightarrow> bytes \<Rightarrow> (bytes \<times> bytes) cxx" where
  "create_short_turn data password = do {
     (_, password) \<leftarrow> sasl_prep password;
     (ret, _) \<leftarrow> hmac_make_bytes data password hmac_sha1_new;
     Some (ret, password) }"

definition create_long_turn :: "bytes \<Rightarrow> bytes \<Rightarrow> bytes \<Rightarrow> bytes \<Rightarrow> bytes cxx" where
  "create_long_turn data username realm password = do {
     let key = username @ [0x3A] @ realm @ [0x3A] @ password;
     (ret, _) \<leftarrow> hmac_make_bytes data (md5 key) hmac_sha1_new;
     Some ret }"

section \<open>Messages\<close>

abbreviation (input) MAGIC_COOKIE :: u32 where "MAGIC_COOKIE \<equiv> 0x2112A442"

text \<open>\<open>type_\<close> is a bit field of width 14; the constructor leaves it uninitialised.\<close>

record stun_message =
  sm_type :: u16
  sm_magic_cookie :: u32
  sm_transaction_id :: bytes
  sm_attributes :: "stun_attribute list"

definition stun_message_new :: "u16 \<Rightarrow> stun_message" where
  "stun_message_new ty = \<lparr>sm_type = ty AND 0x3FFF, sm_magic_cookie = MAGIC_COOKIE,
     sm_transaction_id = replicate 12 0, sm_attributes = []\<rparr>"

definition swap16 :: "u16 \<Rightarrow> u16" where
  "swap16 v = push_bit 8 v OR drop_bit 8 v"

text \<open>The two bytes of a 16-bit variable in memory.\<close>

definition mem16 :: "u16 \<Rightarrow> bytes" where
  "mem16 v = [ucast v, ucast (drop_bit 8 v)]"

definition stun_message_serialize_placeholder :: "nat \<Rightarrow> stun_message \<Rightarrow> bytes" where
  "stun_message_serialize_placeholder placeholder this =
     (let data = concat (map stun_attribute_serialize (sm_attributes this));
          ty = swap16 (sm_type this) AND 0x3FFF
      in mem16 ty @ b16 (word_of_nat (length data + placeholder)) @ b32 (sm_magic_cookie this) @
         sm_transaction_id this @ data)"

definition calculate_fingerprint :: "bytes \<Rightarrow> u32" where
  "calculate_fingerprint data = (let crc = cyg_ether_crc32 data in crc XOR 0x5354554E)"

definition add_message_integrity_short_turn :: "bytes \<Rightarrow> bytes \<Rightarrow> (bytes \<times> bytes) cxx" where
  "add_message_integrity_short_turn data password = do {
     (code, password) \<leftarrow> create_short_turn data password;
     Some (data @ stun_attribute_serialize (stun_attribute_new at_message_integrity code), password) }"

definition add_message_integrity_long_turn :: "bytes \<Rightarrow> bytes \<Rightarrow> bytes \<Rightarrow> bytes \<Rightarrow> bytes cxx" where
  "add_message_integrity_long_turn data username realm password = do {
     code \<leftarrow> create_long_turn data username realm password;
     Some (data @ stun_attribute_serialize (stun_attribute_new at_message_integrity code)) }"

definition add_fingerprint :: "bytes \<Rightarrow> bytes" where
  "add_fingerprint data =
     (let crc = calculate_fingerprint data
      in data @ stun_attribute_serialize (stun_attribute_new at_fingerprint (b32 crc)))"

definition stun_message_serialize :: "bytes \<Rightarrow> stun_message \<Rightarrow> (bytes \<times> bytes) cxx" where
  "stun_message_serialize password this = do {
     let s = stun_message_serialize_placeholder 24 this;
     (s, password) \<leftarrow> add_message_integrity_short_turn s password;
     let len = (word_of_nat (length s - 20 + 8) :: u16);
     Some (add_fingerprint (s[2 := ucast (drop_bit 8 len), 3 := ucast (len AND 0x00FF)]), password) }"

definition stun_message_serialize_long ::
  "bytes \<Rightarrow> bytes \<Rightarrow> bytes \<Rightarrow> stun_message \<Rightarrow> (bytes \<times> bytes) cxx" where
  "stun_message_serialize_long username realm password this = do {
     let s = stun_message_serialize_placeholder 24 this;
     (s, password) \<leftarrow> add_message_integrity_short_turn s password;
     Some (add_fingerprint s, password) }"

text \<open>
  The attribute loop ends at the first attribute that cannot be read (\<open>offset <= 0\<close>); it is the
  decode loop of the prelude, whose verdict is not used.
\<close>

definition stun_read_attribute :: "bytes \<Rightarrow> (nat \<times> stun_attribute) cxx" where
  "stun_read_attribute buf =
     do { (offset, attr) \<leftarrow> stun_attribute_deserialize stun_attribute_default buf; Some (nat offset, attr) }"

definition stun_message_deserialize ::
  "stun_message \<Rightarrow> bytes \<Rightarrow> u32 \<Rightarrow> (bool \<times> stun_message \<times> u32) cxx" where
  "stun_message_deserialize this buffer fingerprint =
     (let size = length buffer in
      if size < 20 then Some (False, this, fingerprint)
      else do {
        let fingerprint = calculate_fingerprint (take (size - 8) buffer);
        ty \<leftarrow> rd16 buffer 0;
        let this = this\<lparr>sm_type := ty AND 0x3FFF\<rparr>;
        len \<leftarrow> rd16 buffer 2;
        if size < unat len + 20 then Some (False, this, fingerprint)
        else do {
          mc \<leftarrow> rd32 buffer 4;
          tid \<leftarrow> rd_range buffer 8 20;
          (_, attrs) \<leftarrow> parse_loop stun_read_attribute (drop 20 buffer) [];
          Some (True, this\<lparr>sm_magic_cookie := mc, sm_transaction_id := tid, sm_attributes := attrs\<rparr>,
                fingerprint) } })"

text \<open>
  \<open>attributes_.erase(end() - 1)\<close> needs an attribute to erase, and \<open>s.size() - 24\<close> must not wrap.
\<close>

definition integrity_input :: "stun_message \<Rightarrow> bytes cxx" where
  "integrity_input this =
     (if sm_attributes this = [] then None
      else
        let s = stun_message_serialize_placeholder 0 (this\<lparr>sm_attributes := butlast (sm_attributes this)\<rparr>)
        in if length s < 24 then None else Some (take (length s - 24) s))"

definition calculate_message_integrity :: "bytes \<Rightarrow> stun_message \<Rightarrow> (bytes \<times> bytes) cxx" where
  "calculate_message_integrity password this =
     do { s \<leftarrow> integrity_input this; create_short_turn s password }"

definition calculate_message_integrity_long ::
  "bytes \<Rightarrow> bytes \<Rightarrow> bytes \<Rightarrow> stun_message \<Rightarrow> bytes cxx" where
  "calculate_message_integrity_long username realm password this =
     do { s \<leftarrow> integrity_input this; create_long_turn s username realm password }"

text \<open>The twelve random bytes are an argument.\<close>

definition make_transaction_id :: "bytes \<Rightarrow> stun_message \<Rightarrow> stun_message" where
  "make_transaction_id rnd this = this\<lparr>sm_transaction_id := take 12 rnd\<rparr>"

fun find_attribute :: "stun_attribute list \<Rightarrow> stun_attribute_type \<Rightarrow> bytes" where
  "find_attribute [] ty = []"
| "find_attribute (attr # attrs) ty = (if at_type attr = ty then at_value attr else find_attribute attrs ty)"

definition get_attribute :: "stun_attribute_type \<Rightarrow> stun_message \<Rightarrow> bytes" where
  "get_attribute ty this = find_attribute (sm_attributes this) ty"

section \<open>The password\<close>

lemma sasl_loop_defined:
  "s \<noteq> [] \<Longrightarrow> last s = 0 \<Longrightarrow> j \<le> i \<Longrightarrow> i < length s \<Longrightarrow>
   \<exists>r s'. sasl_loop s i j = Some (r, s') \<and> length s' = length s"
proof (induction s i j rule: sasl_loop.induct)
  case (1 s i j)
  show ?case
  proof (cases "s ! i = 0")
    case True
    with "1.prems" show ?thesis by (subst sasl_loop.simps) simp
  next
    case False
    then have i: "i \<noteq> length s - 1"
      using "1.prems" by (auto simp: last_conv_nth)
    then have last: "last (s[j := c]) = 0" "i + 1 < length s" for c
      using "1.prems" by (auto simp: last_list_update)
    show ?thesis
      using "1.prems" False last "1.IH" by (subst sasl_loop.simps) (auto simp: Let_def)
  qed
qed

lemma sasl_prep_defined: "\<exists>r pw. sasl_prep password = Some (r, pw) \<and> length pw = length password"
  using sasl_loop_defined [of "password @ [0]" 0 0] by (auto simp: sasl_prep_def)

text \<open>Characters that the preparation leaves alone.\<close>

definition plain_char :: "byte \<Rightarrow> bool" where
  "plain_char c \<longleftrightarrow> c \<notin> {0, 0xAD, 0xA0, 0x7F} \<and> \<not> c < 0x1F \<and> \<not> (0x80 \<le> c \<and> c \<le> 0x9F)"

lemma sasl_loop_plain:
  "list_all plain_char ys \<Longrightarrow> sasl_loop (xs @ ys @ [0]) (length xs) (length xs) = Some (0, xs @ ys @ [0])"
proof (induction ys arbitrary: xs)
  case Nil
  then show ?case by (subst sasl_loop.simps) simp
next
  case (Cons y ys)
  have "sasl_loop ((xs @ [y]) @ ys @ [0]) (length (xs @ [y])) (length (xs @ [y])) =
      Some (0, (xs @ [y]) @ ys @ [0])"
    using Cons.prems by (intro Cons.IH) simp
  with Cons.prems show ?case
    by (subst sasl_loop.simps) (auto simp: plain_char_def Let_def)
qed

lemma sasl_prep_plain: "list_all plain_char password \<Longrightarrow> sasl_prep password = Some (0, password)"
  using sasl_loop_plain [of password "[]"] by (simp add: sasl_prep_def)

lemma hmac_sha1_new_spec:
  assumes "length text \<le> 4032" and "length key < 2 ^ 28"
  shows "\<exists>s'. hmac_make_bytes text key hmac_sha1_new = Some (hmac_spec key text, s')"
  using hmac_make_bytes_spec [of hmac_sha1_new "text" key] assms by (auto simp: hmac_sha1_new_def)

lemma create_short_turn_spec:
  assumes "length data \<le> 4032" and "length password < 2 ^ 28" and "sasl_prep password = Some (r, pw)"
  shows "create_short_turn data password = Some (hmac_spec pw data, pw)"
proof -
  have "length pw = length password"
    using sasl_prep_defined [of password] assms(3) by auto
  with hmac_sha1_new_spec [of data pw] assms show ?thesis
    by (auto simp: create_short_turn_def)
qed

section \<open>Attributes\<close>

lemma attribute_padding: "(let r = n mod 4 in if r > 0 then replicate (4 - r) 0 else []) = replicate (pad4 n) 0"
  by (simp add: pad4_def Let_def)

lemma length_attribute_serialize [simp]:
  "length (stun_attribute_serialize a) = 4 + length (at_value a) + pad4 (length (at_value a))"
  by (simp add: stun_attribute_serialize_def pad4_def Let_def)

lemma attribute_roundtrip:
  assumes "length (at_value a) < 65536"
  shows "stun_attribute_deserialize stun_attribute_default (stun_attribute_serialize a @ rest) =
         Some (int (length (stun_attribute_serialize a)), a)"
proof -
  have u: "unat (word_of_nat (length (at_value a)) :: u16) = length (at_value a)"
    using assms by (simp add: unat_of_nat_small)
  have s: "stun_attribute_serialize a @ rest = (b16 (at_type a) @ b16 (word_of_nat (length (at_value a)))) @
      at_value a @ (replicate (pad4 (length (at_value a))) 0 @ rest)"
    by (simp add: stun_attribute_serialize_def attribute_padding)
  have "rd_range (stun_attribute_serialize a @ rest) 4 (4 + length (at_value a)) = Some (at_value a)"
    unfolding s by (rule rd_range_mid) simp_all
  then show ?thesis
    using s by (simp add: stun_attribute_deserialize_def u Let_def stun_attribute_default_def
        stun_attribute_serialize_def attribute_padding)
qed

lemma attribute_deserialize_defined: "stun_attribute_deserialize this buffer \<noteq> None"
  by (auto simp: stun_attribute_deserialize_def Let_def rd16_in rd_range_def)

interpretation stun_attrs: framed_codec stun_attribute_serialize stun_read_attribute id
  "\<lambda>a. length (at_value a) < 65536" "2 ^ 31 - 1"
proof
  show "stun_read_attribute (stun_attribute_serialize a @ rest) =
      Some (length (stun_attribute_serialize a), id a)" if "length (at_value a) < 65536" for a rest
    using attribute_roundtrip [OF that] by (simp add: stun_read_attribute_def)
  show "stun_attribute_serialize a \<noteq> []" for a
    by (simp add: stun_attribute_serialize_def b16_def)
qed

section \<open>The header\<close>

text \<open>The 20 bytes in front of the attributes, for a length field \<open>len\<close>.\<close>

definition stun_header :: "stun_message \<Rightarrow> nat \<Rightarrow> bytes" where
  "stun_header m len = mem16 (swap16 (sm_type m) AND 0x3FFF) @ b16 (word_of_nat len) @
     b32 (sm_magic_cookie m) @ sm_transaction_id m"

abbreviation (input) attribute_bytes :: "stun_attribute list \<Rightarrow> bytes" where
  "attribute_bytes attrs \<equiv> concat (map stun_attribute_serialize attrs)"

text \<open>
  What a message needs to survive the wire: no type bit in the positions the mask of \<open>serialize\<close>
  clears, and attributes that fit the 4096-byte buffer of the HMAC routine.
\<close>

definition stun_message_ok :: "stun_message \<Rightarrow> bool" where
  "stun_message_ok m \<longleftrightarrow> sm_type m AND 0xC0C0 = 0 \<and> length (sm_transaction_id m) = 12 \<and>
     list_all (\<lambda>a. length (at_value a) < 65536) (sm_attributes m) \<and>
     length (attribute_bytes (sm_attributes m)) \<le> 4012"

lemma serialize_placeholder_header:
  "stun_message_serialize_placeholder n m =
     stun_header m (length (attribute_bytes (sm_attributes m)) + n) @ attribute_bytes (sm_attributes m)"
  by (simp add: stun_message_serialize_placeholder_def stun_header_def Let_def)

lemma header_attributes: "stun_header (m\<lparr>sm_attributes := attrs\<rparr>) n = stun_header m n"
  by (simp add: stun_header_def)

lemma length_mem16 [simp]: "length (mem16 v) = 2"
  by (simp add: mem16_def)

lemma length_stun_header: "stun_message_ok m \<Longrightarrow> length (stun_header m n) = 20"
  by (simp add: stun_header_def stun_message_ok_def)

lemma header_set_length:
  "(stun_header m n @ xs)[2 := ucast (drop_bit 8 (word_of_nat k :: u16)),
     3 := ucast (word_of_nat k AND 0x00FF :: u16)] = stun_header m k @ xs"
  by (simp add: stun_header_def mem16_def b16_def numeral_eq_Suc)

lemma type_bytes:
  assumes "t AND 0xC0C0 = (0 :: u16)"
  shows "rd16 (mem16 (swap16 t AND 0x3FFF) @ xs) 0 = Some t" and "t AND 0x3FFF = t"
    and "rd8 (mem16 (swap16 t AND 0x3FFF) @ xs) 0 = Some (ucast (drop_bit 8 t))"
proof -
  have "\<not> bit t n" if "bit (0xC0C0 :: u16) n" for n
    using that assms by (metis bit_and_iff bit_0_eq bot_apply bot_bool_def)
  from this [of 6] this [of 7] this [of 14] this [of 15]
  have off: "\<not> bit t 6" "\<not> bit t 7" "\<not> bit t 14" "\<not> bit t 15"
    by (simp_all add: bit_numeral_rec(1))
  have high: "\<not> bit t (16 + n)" for n
    using bit_imp_le_length [of t "16 + n"] by auto
  have mask: "w AND 0x3FFF = take_bit 14 w" for w :: u16
    using take_bit_eq_mask [of 14 w] by (simp add: mask_eq_exp_minus_1)
  show "t AND 0x3FFF = t"
    unfolding mask
  proof (rule bit_word_eqI)
    fix n :: nat assume "n < LENGTH(16)"
    then consider "n < 14" | "n = 14" | "n = 15" by force
    then show "bit (take_bit 14 t) n = bit t n"
      by cases (simp_all add: off bit_take_bit_iff)
  qed
  have hi: "ucast (take_bit 14 (swap16 t)) = (ucast (drop_bit 8 t) :: byte)"
    by (rule bit_word_eqI) (auto simp: swap16_def bit_simps)
  have "ucast (drop_bit 8 (take_bit 14 (swap16 t))) = (ucast t :: byte)"
  proof (rule bit_word_eqI)
    fix n :: nat assume "n < LENGTH(8)"
    then consider "n < 6" | "n = 6" | "n = 7" by force
    then show "bit (ucast (drop_bit 8 (take_bit 14 (swap16 t))) :: byte) n = bit (ucast t :: byte) n"
      by cases (simp_all add: off high swap16_def bit_simps)
  qed
  with hi show "rd16 (mem16 (swap16 t AND 0x3FFF) @ xs) 0 = Some t"
      and "rd8 (mem16 (swap16 t AND 0x3FFF) @ xs) 0 = Some (ucast (drop_bit 8 t))"
    unfolding mask by (simp_all add: mem16_def rd16_def)
qed

lemma stun_parse_attributes:
  assumes "list_all (\<lambda>a. length (at_value a) < 65536) attrs" and "length (attribute_bytes attrs) \<le> 65536"
  shows "parse_loop stun_read_attribute (attribute_bytes attrs) [] = Some (True, attrs)"
  using stun_attrs.parse_loop_concat [OF assms(1)] assms(2) by simp

lemma stun_deserialize_header:
  assumes ok: "stun_message_ok m" and attrs: "list_all (\<lambda>a. length (at_value a) < 65536) attrs"
    and len: "length (attribute_bytes attrs) < 65536"
    and s: "s = stun_header m (length (attribute_bytes attrs)) @ attribute_bytes attrs"
  shows "stun_message_deserialize m0 s fp =
     Some (True, m\<lparr>sm_attributes := attrs\<rparr>, calculate_fingerprint (take (length s - 8) s))"
proof -
  let ?A = "attribute_bytes attrs"
  have l: "unat (word_of_nat (length ?A) :: u16) = length ?A"
    using len by (simp add: unat_of_nat_small)
  have h: "length (stun_header m n) = 20" for n using ok by (rule length_stun_header)
  have sz: "length s = 20 + length ?A" by (simp add: s h)
  have r: "rd16 s 0 = Some (sm_type m)" "sm_type m AND 0x3FFF = sm_type m"
      "rd16 s 2 = Some (word_of_nat (length ?A))" "rd32 s 4 = Some (sm_magic_cookie m)"
    using ok type_bytes [of "sm_type m"] by (simp_all add: s stun_header_def stun_message_ok_def)
  have t: "rd_range s 8 20 = Some (sm_transaction_id m)"
    unfolding s stun_header_def append_assoc
    using ok by (simp add: rd_range_def stun_message_ok_def)
  have "drop 20 s = ?A" by (simp add: s h)
  then show ?thesis
    using l r t sz stun_parse_attributes [OF attrs] len
    unfolding stun_message_deserialize_def Let_def by (cases m0, cases m) simp
qed

lemma stun_signed_wire:
  assumes ok: "stun_message_ok m" and pw: "length password < 2 ^ 28"
  shows "\<exists>s mi fp pw'. stun_message_serialize password m = Some (s, pw') \<and> length mi = 20 \<and> length pw' = length password \<and>
     rd8 s 0 = Some (ucast (drop_bit 8 (sm_type m))) \<and>
     stun_message_deserialize m0 s fp0 =
       Some (True, m\<lparr>sm_attributes := sm_attributes m @
         [stun_attribute_new at_message_integrity mi, stun_attribute_new at_fingerprint (b32 fp)]\<rparr>, fp) \<and>
     calculate_message_integrity password (m\<lparr>sm_attributes := sm_attributes m @
         [stun_attribute_new at_message_integrity mi, stun_attribute_new at_fingerprint (b32 fp)]\<rparr>) =
       Some (mi, pw')"
proof -
  let ?A = "attribute_bytes (sm_attributes m)"
  obtain r pw' where pw': "sasl_prep password = Some (r, pw')" using sasl_prep_defined by blast
  have A: "length ?A \<le> 4012" and h: "length (stun_header m n) = 20" for n
    using ok length_stun_header by (auto simp: stun_message_ok_def)
  define s0 where "s0 = stun_header m (length ?A + 24) @ ?A"
  define mi where "mi = hmac_spec pw' s0"
  have code: "create_short_turn s0 password = Some (mi, pw')"
    unfolding mi_def using A h pw pw' by (intro create_short_turn_spec) (auto simp: s0_def)
  let ?mi = "stun_attribute_new at_message_integrity mi"
  define s1 where "s1 = stun_header m (length ?A + 32) @ ?A @ stun_attribute_serialize ?mi"
  define fp where "fp = calculate_fingerprint s1"
  let ?fp = "stun_attribute_new at_fingerprint (b32 fp)"
  let ?attrs = "sm_attributes m @ [?mi, ?fp]"
  define s where "s = s1 @ stun_attribute_serialize ?fp"
  have mi20: "length mi = 20" by (simp add: mi_def hmac_spec_def)
  have sizes: "length (stun_attribute_serialize ?mi) = 24" "length (stun_attribute_serialize ?fp) = 8"
    using mi20 by (simp_all add: stun_attribute_new_def pad4_def)
  have ser: "stun_message_serialize password m = Some (s, pw')"
  proof -
    define k where "k = length ?A + 32"
    let ?s = "stun_header m (length ?A + 24) @ ?A @ stun_attribute_serialize ?mi"
    have k: "length ?s - 20 + 8 = k" and s1: "s1 = stun_header m k @ ?A @ stun_attribute_serialize ?mi"
      using sizes h by (simp_all add: k_def s1_def del: length_attribute_serialize)
    have "add_message_integrity_short_turn s0 password = Some (?s, pw')"
      using code by (simp add: add_message_integrity_short_turn_def s0_def)
    then show ?thesis
      unfolding stun_message_serialize_def serialize_placeholder_header Let_def s0_def [symmetric]
      by (simp only: bind.bind_lunit prod.case k header_set_length s1 [symmetric])
        (simp add: add_fingerprint_def fp_def s_def)
  qed
  have "s = stun_header m (length (attribute_bytes ?attrs)) @ attribute_bytes ?attrs"
    using sizes by (simp add: s_def s1_def)
  moreover have "list_all (\<lambda>a. length (at_value a) < 65536) ?attrs"
    using ok mi20 by (simp add: stun_message_ok_def stun_attribute_new_def)
  moreover have "take (length s - 8) s = s1" using sizes by (simp add: s_def)
  ultimately have des: "stun_message_deserialize m0 s fp0 = Some (True, m\<lparr>sm_attributes := ?attrs\<rparr>, fp)"
    using stun_deserialize_header [OF ok, of ?attrs s m0 fp0] A sizes by (simp add: fp_def)
  have "integrity_input (m\<lparr>sm_attributes := ?attrs\<rparr>) = Some s0"
    using sizes h by (simp add: integrity_input_def serialize_placeholder_header butlast_append s0_def Let_def
        header_attributes del: length_attribute_serialize)
  with code have "calculate_message_integrity password (m\<lparr>sm_attributes := ?attrs\<rparr>) = Some (mi, pw')"
    by (simp add: calculate_message_integrity_def)
  moreover have "rd8 s 0 = Some (ucast (drop_bit 8 (sm_type m)))"
    using type_bytes(3) [of "sm_type m"] ok by (simp add: s_def s1_def stun_header_def stun_message_ok_def)
  moreover have "length pw' = length password"
    using sasl_prep_defined [of password] pw' by auto
  ultimately show ?thesis
    using ser des mi20 by blast
qed

text \<open>
  C22: a STUN message with a type whose bits 6, 7, 14 and 15 are 0, a transaction id of 12
  bytes, values shorter than 65536 bytes and attributes of at most 4012 bytes in all is read
  back from its signed serialization with MESSAGE-INTEGRITY and FINGERPRINT appended, the
  fingerprint the parser computes is the one in the message, and the integrity code the receiver
  recomputes with the same password (of fewer than 2^28 bytes) is the one in the message.
\<close>

theorem stun_signed_message:
  assumes ok: "stun_message_ok m" and pw: "length password < 2 ^ 28"
  shows "\<exists>s mi fp pw'. stun_message_serialize password m = Some (s, pw') \<and>
     stun_message_deserialize m0 s fp0 =
       Some (True, m\<lparr>sm_attributes := sm_attributes m @
         [stun_attribute_new at_message_integrity mi, stun_attribute_new at_fingerprint (b32 fp)]\<rparr>, fp) \<and>
     calculate_message_integrity password (m\<lparr>sm_attributes := sm_attributes m @
         [stun_attribute_new at_message_integrity mi, stun_attribute_new at_fingerprint (b32 fp)]\<rparr>) =
       Some (mi, pw')"
  using stun_signed_wire [OF assms, of m0 fp0] by blast

theorem stun_signed_message_witness:
  "let m = (stun_message_new 1)\<lparr>sm_attributes := [stun_attribute_new 6 [117, 115, 114]]\<rparr>
   in \<exists>s mi fp pw'. stun_message_serialize [112, 119] m = Some (s, pw') \<and>
     stun_message_deserialize (stun_message_new 0) s 0 =
       Some (True, m\<lparr>sm_attributes := sm_attributes m @
         [stun_attribute_new at_message_integrity mi, stun_attribute_new at_fingerprint (b32 fp)]\<rparr>, fp) \<and>
     calculate_message_integrity [112, 119] (m\<lparr>sm_attributes := sm_attributes m @
         [stun_attribute_new at_message_integrity mi, stun_attribute_new at_fingerprint (b32 fp)]\<rparr>) =
       Some (mi, pw')"
  unfolding Let_def
  by (rule stun_signed_message)
    (simp_all add: stun_message_ok_def stun_message_new_def stun_attribute_new_def pad4_def)

lemma xor_cancel: "a XOR k = b XOR k \<Longrightarrow> a = (b :: u32)"
  by (drule arg_cong [of _ _ "\<lambda>x. x XOR k"]) (simp add: xor.assoc)

text \<open>
  C34: the fingerprint of a message changes with any change of a single byte.
\<close>

theorem stun_fingerprint_detects:
  assumes "i < length data" and "b \<noteq> data ! i"
  shows "calculate_fingerprint (data[i := b]) \<noteq> calculate_fingerprint data"
proof
  assume "calculate_fingerprint (data[i := b]) = calculate_fingerprint data"
  then have "cyg_ether_crc32 (data[i := b]) = cyg_ether_crc32 data"
    using xor_cancel unfolding calculate_fingerprint_def Let_def by blast
  moreover have "data = take i data @ data ! i # drop (Suc i) data"
    using assms(1) by (rule id_take_nth_drop)
  ultimately show False
    using ether_crc32_single_byte [OF assms(2)] assms(1) by (metis upd_conv_take_nth_drop)
qed

theorem stun_fingerprint_detects_witness:
  "calculate_fingerprint [1, 2, 4] \<noteq> calculate_fingerprint [1, 2, 3]"
  using stun_fingerprint_detects [of 2 "[1, 2, 3]" 4] by simp

section \<open>Addresses\<close>

lemma xor_bytes_self:
  "length a = length k \<Longrightarrow> map2 (XOR) (map2 (XOR) a k) k = (a :: bytes)"
  by (induction a k rule: list_induct2) (simp_all add: xor.assoc)

lemma length_magic_bytes [simp]: "length magic_bytes = 4"
  by (simp add: magic_bytes_def)

lemma mapped_address_roundtrip:
  assumes "(ma_family m = ma_IPV4 \<and> length (ma_address m) = 16 \<and> drop 4 (ma_address m) = replicate 12 0) \<or>
      (ma_family m = ma_IPV6 \<and> length (ma_address m) = 16)"
  shows "stun_attribute_mapped_address_deserialize this (stun_attribute_mapped_address_serialize m) =
     Some (True, m)"
proof -
  have "take 4 (ma_address m) @ replicate 12 0 = ma_address m" if "ma_family m = ma_IPV4"
    using that assms append_take_drop_id [of 4 "ma_address m"] by auto
  then show ?thesis
    using assms by (cases this, cases m)
      (auto simp: stun_attribute_mapped_address_deserialize_def stun_attribute_mapped_address_serialize_def
        Let_def rd_range_def)
qed

text \<open>The bytes of an xor-mapped address, as in RFC 5389, 15.2.\<close>

lemma xor_mapped_address_bytes:
  "length a = 4 \<Longrightarrow> stun_attribute_mapped_address_serialize (stun_attribute_xor_mapped_address_create (AF_INET port a) tid) =
     [0, 1] @ b16 (port XOR 0x2112) @ map2 (XOR) a [0x21, 0x12, 0xA4, 0x42]"
  "length a = 16 \<Longrightarrow> length tid = 12 \<Longrightarrow>
     stun_attribute_mapped_address_serialize (stun_attribute_xor_mapped_address_create (AF_INET6 port a) tid) =
     [0, 2] @ b16 (port XOR 0x2112) @ map2 (XOR) a ([0x21, 0x12, 0xA4, 0x42] @ tid)"
proof -
  show "stun_attribute_mapped_address_serialize (stun_attribute_xor_mapped_address_create (AF_INET port a) tid) =
     [0, 1] @ b16 (port XOR 0x2112) @ map2 (XOR) a [0x21, 0x12, 0xA4, 0x42]" if "length a = 4"
    using that by (simp add: stun_attribute_xor_mapped_address_create_def stun_attribute_mapped_address_serialize_def
      stun_attribute_mapped_address_new_def Let_def magic_bytes_def numeral_eq_Suc)
  show "stun_attribute_mapped_address_serialize (stun_attribute_xor_mapped_address_create (AF_INET6 port a) tid) =
     [0, 2] @ b16 (port XOR 0x2112) @ map2 (XOR) a ([0x21, 0x12, 0xA4, 0x42] @ tid)" if "length a = 16" "length tid = 12"
    using that zip_append2 [of a "[0x21, 0x12, 0xA4, 0x42]" tid]
    by (simp add: stun_attribute_xor_mapped_address_create_def stun_attribute_mapped_address_serialize_def
      stun_attribute_mapped_address_new_def Let_def magic_bytes_def numeral_eq_Suc)
qed

text \<open>Both families are read back from their serialization.\<close>

lemma xor_mapped_address_roundtrip:
  assumes "length tid = 12" and "length a4 = 4" and "length a6 = 16"
    and "m4 = stun_attribute_xor_mapped_address_create (AF_INET port a4) tid"
    and "m6 = stun_attribute_xor_mapped_address_create (AF_INET6 port a6) tid"
  shows "stun_attribute_mapped_address_deserialize this (stun_attribute_mapped_address_serialize m4) =
       Some (True, m4) \<and>
     stun_attribute_mapped_address_deserialize this (stun_attribute_mapped_address_serialize m6) =
       Some (True, m6) \<and>
     stun_attribute_xor_mapped_address_create (AF_INET (ma_port m4) (take 4 (ma_address m4))) tid =
       \<lparr>ma_family = ma_IPV4, ma_port = port, ma_address = a4 @ replicate 12 0\<rparr> \<and>
     stun_attribute_xor_mapped_address_create (AF_INET6 (ma_port m6) (ma_address m6)) tid =
       \<lparr>ma_family = ma_IPV6, ma_port = port, ma_address = a6\<rparr>"
proof -
  have m4: "m4 = \<lparr>ma_family = ma_IPV4, ma_port = port XOR 0x2112,
      ma_address = map2 (XOR) a4 magic_bytes @ replicate 12 0\<rparr>"
    using assms(2,4) by (simp add: stun_attribute_xor_mapped_address_create_def
        stun_attribute_mapped_address_new_def Let_def)
  have m6: "m6 = \<lparr>ma_family = ma_IPV6, ma_port = port XOR 0x2112,
      ma_address = map2 (XOR) (take 4 a6) magic_bytes @ map2 (XOR) (drop 4 a6) tid\<rparr>"
    using assms(1,3,5) by (simp add: stun_attribute_xor_mapped_address_create_def
        stun_attribute_mapped_address_new_def Let_def)
  have "stun_attribute_mapped_address_deserialize this (stun_attribute_mapped_address_serialize m4) =
       Some (True, m4)"
    using assms(2) by (intro mapped_address_roundtrip disjI1) (simp add: m4)
  moreover have "stun_attribute_mapped_address_deserialize this (stun_attribute_mapped_address_serialize m6) =
       Some (True, m6)"
    using assms(1,3) by (intro mapped_address_roundtrip disjI2) (simp add: m6)
  ultimately show ?thesis
    using assms(1,2,3) by (simp add: m4 m6 stun_attribute_xor_mapped_address_create_def
        stun_attribute_mapped_address_new_def Let_def xor_bytes_self xor.assoc)
qed

end
