(* ===== verification/Rtp_Packet.thy ===== *)
theory Rtp_Packet
  imports Prelude
begin

text \<open>
  RTP headers and packets: \<open>rtpx/rtp/rtp_header.c\<close>, \<open>rtp_packet.c\<close> and the class of
  \<open>rtpx/packet.cpp\<close> around them. A pointer to an allocated array is an optional list, \<open>None\<close> for
  \<open>NULL\<close>; allocations succeed. A definition whose value is \<open>None\<close> has no defined result: it reads
  or writes outside a buffer, or its loop does not end.
\<close>

unbundle bit_operations_syntax

section \<open>Headers\<close>

record rtp_header =
  rh_version :: byte
  rh_p :: byte
  rh_x :: byte
  rh_cc :: byte
  rh_m :: byte
  rh_pt :: byte
  rh_seq :: u16
  rh_ts :: u32
  rh_ssrc :: u32
  rh_csrc :: "u32 list option"
  rh_ext_id :: u16
  rh_ext_count :: u16
  rh_ext_data :: "u32 list option"

definition rtp_header_create :: rtp_header where
  "rtp_header_create = \<lparr>rh_version = 0, rh_p = 0, rh_x = 0, rh_cc = 0, rh_m = 0, rh_pt = 0,
     rh_seq = 0, rh_ts = 0, rh_ssrc = 0, rh_csrc = None, rh_ext_id = 0, rh_ext_count = 0,
     rh_ext_data = None\<rparr>"

definition rtp_header_init :: "byte \<Rightarrow> u32 \<Rightarrow> u16 \<Rightarrow> u32 \<Rightarrow> rtp_header \<Rightarrow> rtp_header" where
  "rtp_header_init pt ssrc seq ts header =
     header\<lparr>rh_version := 2, rh_pt := pt AND 0x7f, rh_ssrc := ssrc, rh_seq := seq, rh_ts := ts\<rparr>"

definition rtp_header_size :: "rtp_header \<Rightarrow> nat" where
  "rtp_header_size header =
     12 + (if rh_csrc header \<noteq> None \<and> rh_cc header \<noteq> 0 then 4 * unat (rh_cc header) else 0)
        + (if rh_x header \<noteq> 0 \<and> rh_ext_count header \<noteq> 0 \<and> rh_ext_data header \<noteq> None
           then 4 * (1 + unat (rh_ext_count header)) else 0)"

text \<open>
  The loops that write the lists run over a \<open>uint8_t\<close> counter; that over the extension compares it
  with a \<open>uint16_t\<close> count, and does not end for a count above 255.
\<close>

partial_function (option) write_words ::
  "nat \<Rightarrow> u32 list option \<Rightarrow> nat \<Rightarrow> byte \<Rightarrow> bytes \<Rightarrow> bytes cxx" where
  "write_words base ws n i buf =
     (if unat i < n then do {
        w \<leftarrow> arr_get ws (unat i);
        buf \<leftarrow> wr_range buf (base + unat i * 4) (b32 w);
        write_words base ws n (i + 1) buf }
      else Some buf)"

definition rtp_header_serialize :: "rtp_header \<Rightarrow> bytes \<Rightarrow> (int \<times> bytes) cxx" where
  "rtp_header_serialize header buffer =
     (let header_size = rtp_header_size header in
      if length buffer < header_size then Some (-1, buffer)
      else do {
        buffer \<leftarrow> wr_range buffer 0 (replicate header_size 0);
        buffer \<leftarrow> wr_range buffer 0 ([0x80, push_bit 7 (rh_m header AND 1) OR (rh_pt header AND 0x7f)] @
                    b16 (rh_seq header) @ b32 (rh_ts header) @ b32 (rh_ssrc header));
        buffer \<leftarrow> (if rh_cc header \<noteq> 0 \<and> rh_csrc header \<noteq> None then do {
                      b \<leftarrow> rd8 buffer 0;
                      buffer \<leftarrow> wr_range buffer 0 [b OR (rh_cc header AND 0x7)];
                      write_words 12 (rh_csrc header) (unat (rh_cc header)) 0 buffer }
                    else Some buffer);
        buffer \<leftarrow> (if rh_x header \<noteq> 0 \<and> rh_ext_count header \<noteq> 0 \<and> rh_ext_data header \<noteq> None then do {
                      b \<leftarrow> rd8 buffer 0;
                      buffer \<leftarrow> wr_range buffer 0 [b OR 0x10];
                      let ext_hdr = 12 + 4 * unat (rh_cc header);
                      buffer \<leftarrow> wr_range buffer ext_hdr (b16 (rh_ext_id header) @ b16 (rh_ext_count header));
                      write_words (ext_hdr + 4) (rh_ext_data header) (unat (rh_ext_count header)) 0 buffer }
                    else Some buffer);
        Some (int header_size, buffer) })"

text \<open>\<open>for (i = 0; i < n; i++) a[i] = read_u32(buffer + base + 4 * i);\<close>\<close>

fun read_words :: "bytes \<Rightarrow> nat \<Rightarrow> nat \<Rightarrow> u32 list cxx" where
  "read_words buffer base 0 = Some []"
| "read_words buffer base (Suc n) = do {
     w \<leftarrow> rd32 buffer base;
     ws \<leftarrow> read_words buffer (base + 4) n;
     Some (w # ws) }"

definition rtp_header_parse :: "rtp_header \<Rightarrow> bytes \<Rightarrow> (int \<times> rtp_header) cxx" where
  "rtp_header_parse header buffer =
     (let size = length buffer in
      if size < 12 then Some (-1, header)
      else do {
        b0 \<leftarrow> rd8 buffer 0;
        let header = header\<lparr>rh_version := drop_bit 6 b0 AND 0x3\<rparr>;
        if rh_version header \<noteq> 2 then Some (-1, header)
        else do {
          b1 \<leftarrow> rd8 buffer 1;
          let header = header\<lparr>rh_pt := b1 AND 0x7f\<rparr>;
          if rh_pt header < 96 \<and> rh_pt header > 71 then Some (-1, header)
          else do {
            seq \<leftarrow> rd16 buffer 2;
            ts \<leftarrow> rd32 buffer 4;
            ssrc \<leftarrow> rd32 buffer 8;
            let header = header\<lparr>rh_x := drop_bit 4 b0 AND 0x1, rh_cc := b0 AND 0x7,
                                rh_m := drop_bit 7 b1 AND 0x1, rh_seq := seq, rh_ts := ts, rh_ssrc := ssrc\<rparr>;
            if size < rtp_header_size header then Some (-1, header)
            else do {
              header \<leftarrow> (if rh_cc header \<noteq> 0 then do {
                            csrc \<leftarrow> read_words buffer 12 (unat (rh_cc header));
                            Some (header\<lparr>rh_csrc := Some csrc\<rparr>) }
                          else Some header);
              header \<leftarrow> (if rh_x header \<noteq> 0 then do {
                            let ext_hdr = 12 + 4 * unat (rh_cc header);
                            ext_id \<leftarrow> rd16 buffer ext_hdr;
                            ext_count \<leftarrow> rd16 buffer (ext_hdr + 2);
                            ext_data \<leftarrow> read_words buffer (ext_hdr + 4) (unat ext_count);
                            Some (header\<lparr>rh_ext_id := ext_id, rh_ext_count := ext_count,
                                         rh_ext_data := Some ext_data\<rparr>) }
                          else Some header);
              Some (0, header) } } } })"

text \<open>
  \<open>csrc_scan\<close> is the loop of \<open>rtp_header_find_csrc\<close> from index \<open>i\<close> with \<open>n\<close> entries left.
\<close>

fun csrc_scan :: "u32 list option \<Rightarrow> u32 \<Rightarrow> nat \<Rightarrow> nat \<Rightarrow> int cxx" where
  "csrc_scan a csrc i 0 = Some (-1)"
| "csrc_scan a csrc i (Suc n) = do {
     x \<leftarrow> arr_get a i;
     if x = csrc then Some (int i) else csrc_scan a csrc (i + 1) n }"

definition rtp_header_find_csrc :: "rtp_header \<Rightarrow> u32 \<Rightarrow> int cxx" where
  "rtp_header_find_csrc header csrc = csrc_scan (rh_csrc header) csrc 0 (unat (rh_cc header))"

text \<open>
  The count is a bit field of four bits: \<open>cc += 1\<close> wraps at 16, where the guard for \<open>0xff\<close> never
  applies; the index \<open>cc - 1\<close> is then \<open>-1\<close>.
\<close>

definition rtp_header_add_csrc :: "rtp_header \<Rightarrow> u32 \<Rightarrow> (int \<times> rtp_header) cxx" where
  "rtp_header_add_csrc header csrc =
     (if rh_cc header = 0 then Some (0, header\<lparr>rh_csrc := Some [csrc], rh_cc := 1\<rparr>)
      else if rh_cc header = 0xff then Some (-1, header)
      else do {
        r \<leftarrow> rtp_header_find_csrc header csrc;
        if r \<noteq> -1 then Some (-1, header)
        else do {
          let cc = (rh_cc header + 1) AND 0xf;
          if cc = 0 then None
          else do {
            old \<leftarrow> rh_csrc header;
            if length old < unat (rh_cc header) then None
            else Some (0, header\<lparr>rh_cc := cc, rh_csrc := Some (take (unat (rh_cc header)) old @ [csrc])\<rparr>) } } })"

text \<open>The \<open>memmove\<close> takes one element more than there is behind the removed one.\<close>

definition rtp_header_remove_csrc :: "rtp_header \<Rightarrow> u32 \<Rightarrow> rtp_header cxx" where
  "rtp_header_remove_csrc header csrc = do {
     index \<leftarrow> rtp_header_find_csrc header csrc;
     if index < 0 then Some header
     else do {
       old \<leftarrow> rh_csrc header;
       let n = unat (rh_cc header) - nat index;
       if nat index + 1 + n > length old then None
       else do {
         let moved = take (nat index) old @ take n (drop (nat index + 1) old) @ drop (nat index + n) old;
         let cc = rh_cc header - 1;
         Some (header\<lparr>rh_cc := cc, rh_csrc := (if cc > 0 then Some (take (unat cc) moved) else None)\<rparr>) } } }"

definition rtp_header_set_ext :: "rtp_header \<Rightarrow> u16 \<Rightarrow> u32 list \<Rightarrow> int \<times> rtp_header" where
  "rtp_header_set_ext header ext_id data =
     (if rh_ext_data header \<noteq> None then (-1, header)
      else (0, header\<lparr>rh_ext_data := Some data, rh_ext_id := ext_id, rh_ext_count := word_of_nat (length data)\<rparr>))"

section \<open>Packets\<close>

text \<open>\<open>payload_size\<close> is the length of the payload, \<open>0\<close> where there is none.\<close>

record rtp_packet =
  rk_header :: rtp_header
  rk_payload :: "bytes option"

definition rtp_packet_create :: rtp_packet where
  "rtp_packet_create = \<lparr>rk_header = rtp_header_create, rk_payload = None\<rparr>"

definition rtp_packet_init :: "byte \<Rightarrow> u32 \<Rightarrow> u16 \<Rightarrow> u32 \<Rightarrow> rtp_packet \<Rightarrow> rtp_packet" where
  "rtp_packet_init pt ssrc seq ts packet = packet\<lparr>rk_header := rtp_header_init pt ssrc seq ts (rk_header packet)\<rparr>"

definition rk_payload_data :: "rtp_packet \<Rightarrow> bytes" where
  "rk_payload_data packet = (case rk_payload packet of None \<Rightarrow> [] | Some d \<Rightarrow> d)"

definition rtp_packet_size :: "rtp_packet \<Rightarrow> nat" where
  "rtp_packet_size packet = rtp_header_size (rk_header packet) + length (rk_payload_data packet)"

definition rtp_packet_serialize :: "rtp_packet \<Rightarrow> bytes \<Rightarrow> (int \<times> bytes) cxx" where
  "rtp_packet_serialize packet buffer =
     (let packet_size = rtp_packet_size packet in
      if length buffer < packet_size then Some (-1, buffer)
      else do {
        (offset, buffer) \<leftarrow> rtp_header_serialize (rk_header packet) buffer;
        if offset < 0 then Some (offset, buffer)
        else do {
          buffer \<leftarrow> wr_range buffer (nat offset) (rk_payload_data packet);
          Some (int packet_size, buffer) } })"

definition rtp_packet_set_payload :: "rtp_packet \<Rightarrow> bytes \<Rightarrow> int \<times> rtp_packet" where
  "rtp_packet_set_payload packet data =
     (if rk_payload packet \<noteq> None then (-1, packet) else (0, packet\<lparr>rk_payload := Some data\<rparr>))"

definition rtp_packet_clear_payload :: "rtp_packet \<Rightarrow> rtp_packet" where
  "rtp_packet_clear_payload packet = packet\<lparr>rk_payload := None\<rparr>"

definition rtp_packet_parse :: "rtp_packet \<Rightarrow> bytes \<Rightarrow> (int \<times> rtp_packet) cxx" where
  "rtp_packet_parse packet buffer = do {
     (r, header) \<leftarrow> rtp_header_parse (rk_header packet) buffer;
     let packet = packet\<lparr>rk_header := header\<rparr>;
     if r < 0 then Some (-1, packet)
     else do {
       let header_size = rtp_header_size header;
       payload \<leftarrow> rd_range buffer header_size (length buffer);
       Some (0, snd (rtp_packet_set_payload packet payload)) } }"

section \<open>The class around them\<close>

definition packet_new :: "byte \<Rightarrow> u32 \<Rightarrow> u16 \<Rightarrow> u32 \<Rightarrow> rtp_packet" where
  "packet_new pt ssrc seq ts = rtp_packet_init pt ssrc seq ts rtp_packet_create"

definition packet_serialize :: "rtp_packet \<Rightarrow> (bool \<times> bytes) cxx" where
  "packet_serialize this = do {
     let size = rtp_packet_size this;
     (r, buf) \<leftarrow> rtp_packet_serialize this (replicate size 0);
     if r < 0 then Some (False, []) else Some (True, take size buf) }"

definition packet_parse :: "rtp_packet \<Rightarrow> bytes \<Rightarrow> (bool \<times> rtp_packet) cxx" where
  "packet_parse this buffer = do { (r, this) \<leftarrow> rtp_packet_parse this buffer; Some (\<not> r < 0, this) }"

definition packet_set_payload :: "bytes \<Rightarrow> rtp_packet \<Rightarrow> bool \<times> rtp_packet" where
  "packet_set_payload payload this = (case rtp_packet_set_payload this payload of (r, this) \<Rightarrow> (\<not> r < 0, this))"

definition packet_clone :: "rtp_packet \<Rightarrow> rtp_packet" where
  "packet_clone this =
     (let h = rk_header this;
          pkt = packet_new (rh_pt h) (rh_ssrc h) (rh_seq h) (rh_ts h)
      in snd (packet_set_payload (rk_payload_data this) pkt))"

section \<open>The wire format\<close>

definition words_of :: "u32 list option \<Rightarrow> u32 list" where
  "words_of a = (case a of None \<Rightarrow> [] | Some ws \<Rightarrow> ws)"

definition rtp_header_ok :: "rtp_header \<Rightarrow> bool" where
  "rtp_header_ok h \<longleftrightarrow> rh_version h = 2 \<and> rh_p h = 0 \<and> rh_m h < 2 \<and> rh_pt h < 128 \<and>
     \<not> (71 < rh_pt h \<and> rh_pt h < 96) \<and>
     (case rh_csrc h of None \<Rightarrow> rh_cc h = 0
      | Some ws \<Rightarrow> 0 < length ws \<and> length ws < 8 \<and> rh_cc h = word_of_nat (length ws)) \<and>
     (case rh_ext_data h of None \<Rightarrow> rh_x h = 0 \<and> rh_ext_id h = 0 \<and> rh_ext_count h = 0
      | Some ws \<Rightarrow> rh_x h = 1 \<and> 0 < length ws \<and> length ws < 256 \<and> rh_ext_count h = word_of_nat (length ws))"

definition rtp_header_bytes :: "rtp_header \<Rightarrow> bytes" where
  "rtp_header_bytes h =
     [0x80 OR rh_cc h OR push_bit 4 (rh_x h), push_bit 7 (rh_m h) OR rh_pt h] @
     b16 (rh_seq h) @ b32 (rh_ts h) @ b32 (rh_ssrc h) @
     concat (map b32 (words_of (rh_csrc h))) @
     (if rh_x h = 0 then []
      else b16 (rh_ext_id h) @ b16 (rh_ext_count h) @ concat (map b32 (words_of (rh_ext_data h))))"

lemma length_header_words [simp, len_simps]: "length (concat (map b32 ws)) = 4 * length ws"
  by (induction ws) simp_all

lemma write_words_from:
  assumes "length ws < 256" "i \<le> length ws" "base + 4 * length ws \<le> length buf"
  shows "write_words base (Some ws) (length ws) (word_of_nat i) buf =
    Some (take (base + 4 * i) buf @ concat (map b32 (drop i ws)) @ drop (base + 4 * length ws) buf)"
  using assms
proof (induction "length ws - i" arbitrary: i buf)
  case 0
  then show ?case
    by (subst write_words.simps) (simp add: unat_of_nat)
next
  case (Suc k)
  then have i: "i < length ws" by simp
  let ?buf = "take (base + 4 * i) buf @ b32 (ws ! i) @ drop (base + 4 * i + 4) buf"
  have "write_words base (Some ws) (length ws) (word_of_nat (Suc i)) ?buf =
    Some (take (base + 4 * Suc i) ?buf @ concat (map b32 (drop (Suc i) ws)) @ drop (base + 4 * length ws) ?buf)"
    using Suc by (intro Suc.hyps(1)) auto
  moreover have "take (base + 4 * Suc i) ?buf = take (base + 4 * i) buf @ b32 (ws ! i)"
    "drop (base + 4 * length ws) ?buf = drop (base + 4 * length ws) buf"
    using Suc.prems i by (auto simp: min_def ac_simps)
  moreover have "write_words base (Some ws) (length ws) (word_of_nat i) buf =
      write_words base (Some ws) (length ws) (word_of_nat (Suc i)) ?buf"
    using Suc.prems i
    by (subst write_words.simps) (simp add: unat_of_nat arr_get_def wr_range_def mult.commute add.commute)
  ultimately show ?case
    using Cons_nth_drop_Suc [OF i, symmetric] by simp
qed

lemma write_words_all:
  assumes "length ws < 256" "base + 4 * length ws \<le> length buf"
  shows "write_words base (Some ws) (length ws) 0 buf =
    Some (take base buf @ concat (map b32 ws) @ drop (base + 4 * length ws) buf)"
  using write_words_from [of ws 0 base buf] assms by simp

lemma write_words_mid:
  "length ws < 256 \<Longrightarrow> base = length pre \<Longrightarrow> length old = 4 * length ws \<Longrightarrow>
   write_words base (Some ws) (length ws) 0 (pre @ old @ post) = Some (pre @ concat (map b32 ws) @ post)"
  by (simp add: write_words_all)

lemma read_words_b32:
  "n = length ws \<Longrightarrow> base = length pre \<Longrightarrow> read_words (pre @ concat (map b32 ws) @ rest) base n = Some ws"
proof (induction ws arbitrary: pre base n)
  case (Cons w ws)
  then show ?case
    using Cons.IH [of "length ws" "length (pre @ b32 w)" "pre @ b32 w"] by simp
qed simp

lemma rtp_header_size_ok:
  assumes "rtp_header_ok h"
  shows "rtp_header_size h = length (rtp_header_bytes h)"
  using assms
  by (auto simp: rtp_header_ok_def rtp_header_size_def rtp_header_bytes_def words_of_def unat_of_nat word_unat_eq_iff
      split: option.splits)

lemma serialize_csrc:
  assumes "rtp_header_ok h"
  shows "(if rh_cc h \<noteq> 0 \<and> rh_csrc h \<noteq> None then do {
            b \<leftarrow> rd8 ((0x80 # hs) @ replicate (4 * unat (rh_cc h)) 0 @ post) 0;
            buffer \<leftarrow> wr_range ((0x80 # hs) @ replicate (4 * unat (rh_cc h)) 0 @ post) 0 [b OR (rh_cc h AND 0x7)];
            write_words (length (0x80 # hs)) (rh_csrc h) (unat (rh_cc h)) 0 buffer }
          else Some ((0x80 # hs) @ replicate (4 * unat (rh_cc h)) 0 @ post)) =
    Some (((0x80 OR rh_cc h) # hs) @ concat (map b32 (words_of (rh_csrc h))) @ post)"
proof (cases "rh_csrc h")
  case None
  then show ?thesis
    using assms by (simp add: rtp_header_ok_def words_of_def)
next
  case (Some ws)
  then have ws: "0 < length ws" "length ws < 8" and cc: "rh_cc h = word_of_nat (length ws)"
    using assms by (auto simp: rtp_header_ok_def)
  then have u: "unat (rh_cc h) = length ws" "rh_cc h \<noteq> 0"
    by (auto simp: unat_of_nat word_unat_eq_iff)
  then have "rh_cc h AND 7 = rh_cc h"
    using ws by (intro byte_and_small) (simp add: word_less_nat_alt)
  then show ?thesis
    using u Some ws
    by (simp add: wr_range_head write_words_all words_of_def)
qed

definition ext_bytes :: "rtp_header \<Rightarrow> nat" where
  "ext_bytes h =
     (if rh_x h \<noteq> 0 \<and> rh_ext_count h \<noteq> 0 \<and> rh_ext_data h \<noteq> None then 4 * (1 + unat (rh_ext_count h)) else 0)"

lemma serialize_ext:
  assumes "rtp_header_ok h" "base = length (b # hs)" "buffer = (b # hs) @ replicate (ext_bytes h) 0 @ post"
  shows "(if rh_x h \<noteq> 0 \<and> rh_ext_count h \<noteq> 0 \<and> rh_ext_data h \<noteq> None then do {
            b \<leftarrow> rd8 buffer 0;
            buffer \<leftarrow> wr_range buffer 0 [b OR 0x10];
            buffer \<leftarrow> wr_range buffer base (b16 (rh_ext_id h) @ b16 (rh_ext_count h));
            write_words (base + 4) (rh_ext_data h) (unat (rh_ext_count h)) 0 buffer }
          else Some buffer) =
    Some (((b OR push_bit 4 (rh_x h)) # hs) @
      (if rh_x h = 0 then []
       else b16 (rh_ext_id h) @ b16 (rh_ext_count h) @ concat (map b32 (words_of (rh_ext_data h)))) @ post)"
proof (cases "rh_ext_data h")
  case None
  then show ?thesis
    using assms by (simp add: rtp_header_ok_def ext_bytes_def)
next
  case (Some ws)
  then have ws: "0 < length ws" "length ws < 256" and x: "rh_x h = 1" and cc: "rh_ext_count h = word_of_nat (length ws)"
    using assms(1) by (auto simp: rtp_header_ok_def)
  then have u: "unat (rh_ext_count h) = length ws" "rh_ext_count h \<noteq> 0"
    by (auto simp: unat_of_nat word_unat_eq_iff)
  let ?c = "b OR 0x10" and ?ids = "b16 (rh_ext_id h) @ b16 (rh_ext_count h)"
  have "wr_range ((?c # hs) @ replicate 4 0 @ replicate (4 * length ws) 0 @ post) (length (?c # hs)) ?ids =
      Some ((?c # hs) @ ?ids @ replicate (4 * length ws) 0 @ post)"
    by (rule wr_range_mid) simp_all
  moreover have "write_words (length (?c # hs) + 4) (Some ws) (length ws) 0
      ((?c # hs) @ ?ids @ replicate (4 * length ws) 0 @ post) =
      Some ((?c # hs) @ ?ids @ concat (map b32 ws) @ post)"
    using write_words_mid [of ws _ "(?c # hs) @ ?ids"] ws by simp
  ultimately show ?thesis
    using u x Some assms(2,3) by (simp add: words_of_def wr_range_head ext_bytes_def replicate_add)
qed

lemma rtp_header_serialize_bytes:
  assumes ok: "rtp_header_ok h" and len: "rtp_header_size h \<le> length buffer"
  shows "rtp_header_serialize h buffer =
     Some (int (rtp_header_size h), rtp_header_bytes h @ drop (rtp_header_size h) buffer)"
proof -
  have m: "rh_m h AND 1 = rh_m h" "rh_pt h AND 0x7f = rh_pt h"
    using ok by (auto simp: rtp_header_ok_def byte_and_small)
  let ?post = "drop (rtp_header_size h) buffer" and ?csrc = "concat (map b32 (words_of (rh_csrc h)))"
  define hs where "hs = [push_bit 7 (rh_m h) OR rh_pt h] @ b16 (rh_seq h) @ b32 (rh_ts h) @ b32 (rh_ssrc h)"
  have sz: "rtp_header_size h = 12 + (4 * unat (rh_cc h) + ext_bytes h)"
    using ok by (auto simp: rtp_header_size_def ext_bytes_def rtp_header_ok_def split: option.splits)
  have l: "length (0x80 # hs) = 12"
    by (simp add: hs_def)
  have cl: "12 + 4 * unat (rh_cc h) = length ((0x80 OR rh_cc h) # hs @ ?csrc)"
    using ok l by (auto simp: rtp_header_ok_def words_of_def unat_of_nat split: option.splits)
  have 1: "wr_range buffer 0 (replicate (rtp_header_size h) 0) = Some (replicate (rtp_header_size h) 0 @ ?post)"
    using len by (simp add: wr_range_def)
  have 2: "wr_range (replicate (rtp_header_size h) 0 @ ?post) 0 (0x80 # hs) =
      Some ((0x80 # hs) @ replicate (4 * unat (rh_cc h)) 0 @ replicate (ext_bytes h) 0 @ ?post)"
    unfolding sz replicate_add append_assoc using l by (simp add: wr_range_def)
  note 3 = serialize_csrc [OF ok, of hs "replicate (ext_bytes h) 0 @ ?post", unfolded l]
  note 4 = serialize_ext [OF ok cl refl]
  have hs: "[0x80, push_bit 7 (rh_m h AND 1) OR (rh_pt h AND 0x7f)] @
      b16 (rh_seq h) @ b32 (rh_ts h) @ b32 (rh_ssrc h) = 0x80 # hs"
    by (simp add: hs_def m)
  have "rtp_header_serialize h buffer = Some (int (rtp_header_size h),
      ((0x80 OR rh_cc h OR push_bit 4 (rh_x h)) # hs @ ?csrc) @
      (if rh_x h = 0 then []
       else b16 (rh_ext_id h) @ b16 (rh_ext_count h) @ concat (map b32 (words_of (rh_ext_data h)))) @ ?post)"
    using len 4 unfolding rtp_header_serialize_def Let_def hs 1 bind.simps 2 3
    by (simp only: bind.simps not_less [symmetric] if_False append_Cons append_assoc or.assoc)
  then show ?thesis
    by (simp add: rtp_header_bytes_def hs_def)
qed

lemma rtp_byte0:
  assumes "c < (8 :: byte)" "x < 2"
  shows "drop_bit 6 (0x80 OR c OR push_bit 4 x) AND 0x3 = 2" "drop_bit 4 (0x80 OR c OR push_bit 4 x) AND 0x1 = x"
    "(0x80 OR c OR push_bit 4 x) AND 0x7 = c"
proof -
  have *: "take_bit 3 c = c" "take_bit 1 x = x"
    using assms by (simp_all only: byte_take_bit)
  let ?b = "0x80 OR take_bit 3 c OR push_bit 4 (take_bit 1 x)"
  have "drop_bit 6 ?b AND 0x3 = 2" "drop_bit 4 ?b AND 0x1 = take_bit 1 x" "?b AND 0x7 = take_bit 3 c"
    by (rule byte_eqI; simp add: bit_simps)+
  then show "drop_bit 6 (0x80 OR c OR push_bit 4 x) AND 0x3 = 2"
    "drop_bit 4 (0x80 OR c OR push_bit 4 x) AND 0x1 = x" "(0x80 OR c OR push_bit 4 x) AND 0x7 = c"
    by (simp_all only: *)
qed

lemma rtp_byte1:
  assumes "m < (2 :: byte)" "p < 128"
  shows "drop_bit 7 (push_bit 7 m OR p) AND 0x1 = m" "(push_bit 7 m OR p) AND 0x7f = p"
proof -
  have *: "take_bit 7 p = p" "take_bit 1 m = m"
    using assms by (simp_all only: byte_take_bit)
  let ?b = "push_bit 7 (take_bit 1 m) OR take_bit 7 p"
  have "drop_bit 7 ?b AND 0x1 = take_bit 1 m" "?b AND 0x7f = take_bit 7 p"
    by (rule byte_eqI; simp add: bit_simps)+
  then show "drop_bit 7 (push_bit 7 m OR p) AND 0x1 = m" "(push_bit 7 m OR p) AND 0x7f = p"
    by (simp_all only: *)
qed

lemma rtp_header_parse_bytes:
  assumes ok: "rtp_header_ok h"
  shows "rtp_header_parse rtp_header_create (rtp_header_bytes h @ rest) = Some (0, h)"
proof -
  let ?csrc = "words_of (rh_csrc h)" and ?ext = "words_of (rh_ext_data h)"
  have fx: "rh_cc h < 8" "rh_x h < 2" "rh_m h < 2" "rh_pt h < 128"
    using ok by (auto simp: rtp_header_ok_def word_less_nat_alt unat_of_nat split: option.splits)
  have cc: "unat (rh_cc h) = length ?csrc"
    using ok by (auto simp: rtp_header_ok_def words_of_def unat_of_nat split: option.splits)
  have ec: "unat (rh_ext_count h) = length ?ext" 
    using ok by (auto simp: rtp_header_ok_def words_of_def unat_of_nat split: option.splits)
  define B0 where "B0 = 0x80 OR rh_cc h OR push_bit 4 (rh_x h)"
  define B1 where "B1 = push_bit 7 (rh_m h) OR rh_pt h"
  note b0 = rtp_byte0 [OF fx(1,2), folded B0_def] and b1 = rtp_byte1 [OF fx(3,4), folded B1_def]
  define pre where "pre = [B0, B1] @
     b16 (rh_seq h) @ b32 (rh_ts h) @ b32 (rh_ssrc h)"
  define ids where "ids = b16 (rh_ext_id h) @ b16 (rh_ext_count h)"
  have l: "length pre = 12" "length ids = 4"
    by (simp_all add: pre_def ids_def)
  have rest0: "rtp_header_bytes h @ rest = pre @ concat (map b32 ?csrc) @
      ((if rh_x h = 0 then [] else ids @ concat (map b32 ?ext)) @ rest)" (is "?data = _")
    by (simp add: rtp_header_bytes_def pre_def ids_def B0_def B1_def)
  have c: "read_words ?data 12 (unat (rh_cc h)) = Some ?csrc"
    unfolding rest0 using l cc by (intro read_words_b32) simp_all
  have e: "read_words ?data (12 + 4 * unat (rh_cc h) + 4) (unat (rh_ext_count h)) = Some ?ext" if "rh_x h \<noteq> 0"
    using read_words_b32 [of _ ?ext _ "pre @ concat (map b32 ?csrc) @ ids" rest] that l cc ec unfolding rest0 by simp
  have f: "rd8 ?data 0 = Some B0" "rd8 ?data 1 = Some B1"
    "rd16 ?data 2 = Some (rh_seq h)" "rd32 ?data 4 = Some (rh_ts h)" "rd32 ?data 8 = Some (rh_ssrc h)"
    unfolding rest0 by (simp_all add: pre_def)
  have i: "rd16 ?data (12 + 4 * unat (rh_cc h)) = Some (rh_ext_id h)"
    "rd16 ?data (12 + 4 * unat (rh_cc h) + 2) = Some (rh_ext_count h)" if "rh_x h \<noteq> 0"
    unfolding rest0 using that l cc by (simp_all add: ids_def)
  have pt: "\<not> (rh_pt h < 96 \<and> rh_pt h > 71)"
    using ok by (auto simp: rtp_header_ok_def)
  have sz: "\<not> length ?data < 12"
    unfolding rest0 using l by simp
  have h: "\<lparr>rh_version = 2, rh_p = 0, rh_x = rh_x h, rh_cc = rh_cc h, rh_m = rh_m h, rh_pt = rh_pt h,
      rh_seq = rh_seq h, rh_ts = rh_ts h, rh_ssrc = rh_ssrc h,
      rh_csrc = (if rh_cc h \<noteq> 0 then Some ?csrc else None), rh_ext_id = (if rh_x h \<noteq> 0 then rh_ext_id h else 0),
      rh_ext_count = (if rh_x h \<noteq> 0 then rh_ext_count h else 0),
      rh_ext_data = (if rh_x h \<noteq> 0 then Some ?ext else None)\<rparr> = h" (is "?h = h")
    using ok by (cases h) (auto simp: rtp_header_ok_def words_of_def word_unat_eq_iff unat_of_nat split: option.splits)
  have "rtp_header_parse rtp_header_create ?data = Some (0, ?h)"
    using sz pt c e i f
    by (cases "rh_cc h = 0") (simp_all add: rtp_header_parse_def rtp_header_create_def rtp_header_size_def Let_def b0 b1)
  then show ?thesis
    unfolding h .
qed

definition rtp_packet_ok :: "rtp_packet \<Rightarrow> bool" where
  "rtp_packet_ok p \<longleftrightarrow> rtp_header_ok (rk_header p) \<and> rk_payload p \<noteq> None"

lemma rtp_packet_wire:
  assumes "rtp_packet_ok p"
  shows "packet_serialize p = Some (True, rtp_header_bytes (rk_header p) @ rk_payload_data p) \<and>
    packet_parse rtp_packet_create (rtp_header_bytes (rk_header p) @ rk_payload_data p) = Some (True, p)"
proof -
  have ok: "rtp_header_ok (rk_header p)" "rk_payload p = Some (rk_payload_data p)"
    using assms by (auto simp: rtp_packet_ok_def rk_payload_data_def)
  note sz = rtp_header_size_ok [OF ok(1)]
  have "rtp_packet_serialize p (replicate (rtp_packet_size p) 0) =
      Some (int (rtp_packet_size p), rtp_header_bytes (rk_header p) @ rk_payload_data p)"
    using rtp_header_serialize_bytes [OF ok(1), of "replicate (rtp_packet_size p) 0"] sz
    by (simp add: rtp_packet_serialize_def rtp_packet_size_def Let_def wr_range_def)
  moreover have "rd_range (rtp_header_bytes (rk_header p) @ rk_payload_data p) (rtp_header_size (rk_header p))
      (length (rtp_header_bytes (rk_header p) @ rk_payload_data p)) = Some (rk_payload_data p)"
    using sz by (simp add: rd_range_def)
  ultimately show ?thesis
    using rtp_header_parse_bytes [OF ok(1), of "rk_payload_data p"] ok(2) sz
    by (simp add: packet_serialize_def packet_parse_def rtp_packet_parse_def rtp_packet_create_def
        rtp_packet_set_payload_def rtp_packet_size_def Let_def)
qed

section \<open>Short packets\<close>

text \<open>
  The size of the header as the first bytes of a packet declare it. The parser compares the size of
  the buffer with \<open>rtp_header_size\<close> before it has allocated either list, when this is 12.
\<close>

definition rtp_declared_size :: "bytes \<Rightarrow> nat" where
  "rtp_declared_size d =
     (let base = 12 + 4 * unat (d ! 0 AND 0x7) in
      if drop_bit 4 (d ! 0) AND 0x1 = 0 then base
      else base + 4 + (if base + 4 \<le> length d then 4 * unat (be16 (d ! (base + 2)) (d ! (base + 3))) else 0))"

lemma read_words_cases:
  "read_words d base n = (if n = 0 then Some [] else if length d < base + 4 * n then None
     else Some (map (\<lambda>i. the (rd32 d (base + 4 * i))) [0..<n]))"
proof (induction n arbitrary: base)
  case (Suc n)
  have "rd32 d base = None \<longleftrightarrow> length d < base + 4"
    by (auto simp: rd32_def rd8_def)
  moreover have "map (\<lambda>i. the (rd32 d (base + 4 * i))) [0..<Suc n] =
      the (rd32 d base) # map (\<lambda>i. the (rd32 d (base + 4 + 4 * i))) [0..<n]"
    by (simp add: upt_conv_Cons map_Suc_upt [symmetric] add.assoc del: upt_Suc)
  ultimately show ?case
    using Suc [of "base + 4"] by (cases "rd32 d base") (auto simp del: upt_Suc)
qed simp

lemma read_words_None: "read_words d base n = None \<longleftrightarrow> n \<noteq> 0 \<and> length d < base + 4 * n"
  by (simp add: read_words_cases del: upt_Suc)

definition rtp_accepts :: "bytes \<Rightarrow> bool" where
  "rtp_accepts d \<longleftrightarrow> 12 \<le> length d \<and> drop_bit 6 (d ! 0) AND 0x3 = 2 \<and>
     \<not> (71 < d ! 1 AND 0x7f \<and> d ! 1 AND 0x7f < 96)"

lemma rtp_header_parse_reject:
  assumes "\<not> rtp_accepts d"
  shows "\<exists>h. rtp_header_parse header d = Some (-1, h)"
proof (cases "length d < 12")
  case False
  then have "rd8 d 0 = Some (d ! 0)" "rd8 d 1 = Some (d ! 1)"
    by (auto simp: rd8_def)
  then show ?thesis
    using assms False by (auto simp: rtp_header_parse_def rtp_accepts_def Let_def)
qed (simp add: rtp_header_parse_def)

lemma rtp_header_parse_short:
  assumes "rtp_accepts d"
  shows "if length d < rtp_declared_size d then rtp_header_parse rtp_header_create d = None
    else \<exists>h. rtp_header_parse rtp_header_create d = Some (0, h) \<and> rtp_header_size h \<le> length d"
proof -
  have r: "rd8 d 0 = Some (d ! 0)" "rd8 d 1 = Some (d ! 1)" "\<exists>a. rd16 d 2 = Some a" "\<exists>b. rd32 d 4 = Some b"
      "\<exists>c. rd32 d 8 = Some c" "\<not> length d < 12"
    using assms by (auto simp: rd8_def rd16_def rd32_def rtp_accepts_def)
  then obtain a b c where abc: "rd16 d 2 = Some a" "rd32 d 4 = Some b" "rd32 d 8 = Some c" by blast
  define C where "C = d ! 0 AND 0x7"
  define X where "X = drop_bit 4 (d ! 0) AND 0x1"
  let ?base = "12 + 4 * unat C"
  let ?h = "rtp_header_create\<lparr>rh_version := 2, rh_pt := d ! 1 AND 0x7f, rh_x := X, rh_cc := C,
      rh_m := drop_bit 7 (d ! 1) AND 0x1, rh_seq := a, rh_ts := b, rh_ssrc := c\<rparr>"
  have p: "rtp_header_parse rtp_header_create d = do {
      header \<leftarrow> (if C \<noteq> 0 then do { csrc \<leftarrow> read_words d 12 (unat C); Some (?h\<lparr>rh_csrc := Some csrc\<rparr>) } else Some ?h);
      header \<leftarrow> (if X \<noteq> 0 then do {
                    ext_id \<leftarrow> rd16 d ?base;
                    ext_count \<leftarrow> rd16 d (?base + 2);
                    ext_data \<leftarrow> read_words d (?base + 4) (unat ext_count);
                    Some (header\<lparr>rh_ext_id := ext_id, rh_ext_count := ext_count, rh_ext_data := Some ext_data\<rparr>) }
                  else Some header);
      Some (0, header) }"
    using r abc assms unfolding rtp_accepts_def
    by (auto simp: rtp_header_parse_def rtp_header_create_def rtp_header_size_def Let_def C_def X_def)
  have ds: "rtp_declared_size d = (if X = 0 then ?base
      else ?base + 4 + (if ?base + 4 \<le> length d then 4 * unat (be16 (d ! (?base + 2)) (d ! (?base + 3))) else 0))"
    by (simp add: rtp_declared_size_def Let_def C_def X_def)
  have cs: "(if C \<noteq> 0 then do { csrc \<leftarrow> read_words d 12 (unat C); Some (?h\<lparr>rh_csrc := Some csrc\<rparr>) } else Some ?h) =
      (if length d < ?base then None else Some (?h\<lparr>rh_csrc := (if C \<noteq> 0 then Some (the (read_words d 12 (unat C))) else None)\<rparr>))"
    using r by (auto simp: read_words_cases unat_eq_0 rtp_header_create_def simp del: upt_Suc)
  have i: "rd16 d ?base = (if length d < ?base + 2 then None else Some (be16 (d ! ?base) (d ! (?base + 1))))"
    "rd16 d (?base + 2) = (if length d < ?base + 4 then None else Some (be16 (d ! (?base + 2)) (d ! (?base + 3))))"
    by (auto simp: rd16_def rd8_def)
  define n where "n = unat (be16 (d ! (?base + 2)) (d ! (?base + 3)))"
  obtain E where e: "read_words d (?base + 4) n = E" "E = None \<longleftrightarrow> n \<noteq> 0 \<and> length d < ?base + 4 + 4 * n"
    using read_words_None [of d "?base + 4" n] by simp
  consider "X = 0" | "X \<noteq> 0" "length d < ?base + 4" | "X \<noteq> 0" "?base + 4 \<le> length d" "E = None"
    | ws where "X \<noteq> 0" "?base + 4 \<le> length d" "E = Some ws"
    by (cases E) fastforce+
  then show ?thesis
  proof cases
    case 1
    then show ?thesis
      unfolding p cs ds by (simp add: rtp_header_size_def rtp_header_create_def)
  next
    case 2
    then show ?thesis
      unfolding p cs i ds by simp
  next
    case 3
    then show ?thesis
      using e unfolding p cs i ds n_def by simp
  next
    case 4
    then show ?thesis
      using e unfolding p cs i ds n_def
      by (cases "C = 0") (auto simp: rtp_header_size_def rtp_header_create_def unat_eq_0)
  qed
qed

text \<open>
  C23: parsing an RTP packet reads outside its buffer exactly when the fixed header is
  acceptable and the buffer is shorter than the header it declares, CSRC list and extension
  included.
\<close>

theorem rtp_parse_undefined_iff:
  "packet_parse rtp_packet_create d = None \<longleftrightarrow> rtp_accepts d \<and> length d < rtp_declared_size d"
  using rtp_header_parse_reject [of d rtp_header_create] rtp_header_parse_short [of d]
  by (cases "rtp_accepts d") (auto simp: packet_parse_def rtp_packet_parse_def rtp_packet_create_def Let_def rd_range_def split: if_splits)

end
