(* ===== verification/H264.thy ===== *)
theory H264
  imports Prelude "HOL-Library.Sublist"
begin

text \<open>
  The bit stream helpers of \<open>rtpx/h264/h264.cpp\<close>: the headers of NAL units and fragmentation units,
  the search for NAL units in an Annex B byte stream, and the removal of emulation prevention bytes.
\<close>

unbundle bit_operations_syntax

section \<open>Headers\<close>

record fu_header_t =
  fu_s :: byte
  fu_e :: byte
  fu_r :: byte
  fu_t :: byte

record nal_header_t =
  nal_f :: byte
  nal_nri :: byte
  nal_t :: byte

definition fu_header_set :: "byte \<Rightarrow> fu_header_t" where
  "fu_header_set v = \<lparr>fu_s = drop_bit 7 (v AND 0x80), fu_e = drop_bit 6 (v AND 0x40),
     fu_r = drop_bit 5 (v AND 0x20), fu_t = v AND 0x1f\<rparr>"

definition fu_header_get :: "fu_header_t \<Rightarrow> byte" where
  "fu_header_get fu = push_bit 7 (fu_s fu) OR push_bit 6 (fu_e fu) OR push_bit 5 (fu_r fu) OR fu_t fu"

definition nal_header_set :: "byte \<Rightarrow> nal_header_t" where
  "nal_header_set v = \<lparr>nal_f = drop_bit 7 (v AND 0x80), nal_nri = drop_bit 5 (v AND 0x60), nal_t = v AND 0x1f\<rparr>"

definition nal_header_get :: "nal_header_t \<Rightarrow> byte" where
  "nal_header_get nal = push_bit 7 (nal_f nal) OR push_bit 5 (nal_nri nal) OR nal_t nal"

section \<open>Annex B byte streams\<close>

text \<open>
  The outputs of \<open>find_next_nal\<close>: the reference arguments \<open>offset\<close>, \<open>nal_start\<close>, \<open>nal_size\<close> and
  \<open>islast\<close>.
\<close>

record nal_found =
  nf_offset :: nat
  nf_start :: nat
  nf_size :: nat
  nf_islast :: bool

text \<open>
  The scan of \<open>find_next_nal\<close> from index \<open>i\<close>: \<open>zeroes\<close>, \<open>cur_pos\<close> and \<open>nal_start\<close> are its
  local variables, \<open>offset\<close> the offset of the call. Either it returns from inside the loop, or the
  loop ends and the tail of the function decides.
\<close>

function nal_scan :: "bytes \<Rightarrow> nat \<Rightarrow> nat \<Rightarrow> nat \<Rightarrow> nat \<Rightarrow> nat \<Rightarrow> bool \<times> nal_found" where
  "nal_scan buffer offset i zeroes cur_pos nal_start =
     (if i < length buffer then
        if buffer ! i = 0x00 then nal_scan buffer offset (i + 1) (zeroes + 1) cur_pos nal_start
        else if buffer ! i = 0x01 \<and> zeroes \<ge> 2 then
          let nal_start2 = i + 1 in
          if nal_start > 0 then
            let end_pos = nal_start2 - (if zeroes = 2 then 3 else 4) in
            if end_pos \<le> cur_pos then
              (False, \<lparr>nf_offset = offset, nf_start = nal_start, nf_size = 0, nf_islast = False\<rparr>)
            else
              let nal_size = end_pos - cur_pos in
              (True, \<lparr>nf_offset = end_pos, nf_start = nal_start, nf_size = nal_size,
                      nf_islast = (cur_pos + nal_size = length buffer)\<rparr>)
          else nal_scan buffer offset (i + 1) 0 nal_start2 nal_start2
        else nal_scan buffer offset (i + 1) 0 cur_pos nal_start
      else if cur_pos < length buffer then
        (True, \<lparr>nf_offset = length buffer, nf_start = cur_pos, nf_size = length buffer - cur_pos, nf_islast = True\<rparr>)
      else (False, \<lparr>nf_offset = offset, nf_start = nal_start, nf_size = 0, nf_islast = False\<rparr>))"
  by pat_completeness auto
termination
  by (relation "measure (\<lambda>(buffer, offset, i, _). length buffer - i)") auto

declare nal_scan.simps [simp del]

definition find_next_nal :: "bytes \<Rightarrow> nat \<Rightarrow> bool \<times> nal_found" where
  "find_next_nal buffer offset = nal_scan buffer offset offset 0 offset 0"

text \<open>The scan of \<open>find_nal_start\<close> from index \<open>i\<close>.\<close>

fun nal_start_scan :: "bytes \<Rightarrow> nat \<Rightarrow> nat \<Rightarrow> int" where
  "nal_start_scan [] i zeroes = -1"
| "nal_start_scan (b # bs) i zeroes =
     (if b = 0x00 then nal_start_scan bs (i + 1) (zeroes + 1)
      else if b = 0x01 \<and> zeroes \<ge> 2 then int i + 1
      else nal_start_scan bs (i + 1) 0)"

definition find_nal_start :: "bytes \<Rightarrow> int" where
  "find_nal_start buffer = nal_start_scan buffer 0 0"

section \<open>Types of NAL units\<close>

definition get_nal_type :: "byte \<Rightarrow> byte" where
  "get_nal_type b = b AND 0x1F"

definition is_key_frame :: "byte \<Rightarrow> bool" where
  "is_key_frame t = (let t = t AND 0x1F in t = 5 \<or> t = 7 \<or> t = 8)"

section \<open>Emulation prevention\<close>

text \<open>The loop reads from a copy of the buffer and writes the result over it: the result is a list here.\<close>

fun remove_emulation_prevention :: "bytes \<Rightarrow> bytes" where
  "remove_emulation_prevention [] = []"
| "remove_emulation_prevention (a # rest) =
     (case rest of
        b # c # tail \<Rightarrow>
          if a = 0x00 \<and> b = 0x00 \<and> c = 0x03 then 0x00 # 0x00 # remove_emulation_prevention tail
          else a # remove_emulation_prevention rest
      | _ \<Rightarrow> a # remove_emulation_prevention rest)"

section \<open>Progress of the search\<close>

lemma nal_scan_progress:
  assumes "nal_scan buffer offset i zeroes cur_pos nal_start = (True, nf)"
    "offset \<le> cur_pos" "0 < nal_start \<longrightarrow> cur_pos = nal_start" "i \<le> length buffer" "offset \<le> i"
  shows "offset \<le> nf_start nf \<and> 0 < nf_size nf \<and> nf_start nf + nf_size nf \<le> nf_offset nf \<and>
    nf_offset nf \<le> length buffer"
  using assms
proof (induction buffer offset i zeroes cur_pos nal_start rule: nal_scan.induct)
  case (1 buffer offset i zeroes cur_pos nal_start)
  show ?case
    using 1(4-) 1(1-3)
    by (subst (asm) (1) nal_scan.simps) (auto simp: Let_def split: if_splits)
qed

lemma find_next_nal_progress:
  assumes "find_next_nal buffer offset = (True, nf)" "offset \<le> length buffer"
  shows "offset \<le> nf_start nf \<and> 0 < nf_size nf \<and> nf_start nf + nf_size nf \<le> nf_offset nf \<and>
    nf_offset nf \<le> length buffer"
  using nal_scan_progress [of buffer offset offset 0 offset 0 nf] assms by (simp add: find_next_nal_def)

lemma find_next_nal_past: "length buffer < offset \<Longrightarrow> \<not> fst (find_next_nal buffer offset)"
  by (simp add: find_next_nal_def nal_scan.simps)

lemma find_next_nal_advances:
  assumes "(True, nf) = find_next_nal buffer offset"
  shows "length buffer - nf_offset nf < length buffer - offset"
proof -
  have "offset \<le> length buffer"
    using find_next_nal_past [of buffer offset] unfolding assms [symmetric] by fastforce
  from find_next_nal_progress [OF assms [symmetric] this] show ?thesis by auto
qed

section \<open>Emulation prevention is undone\<close>

text \<open>
  The insertion of emulation prevention bytes of H.264, 7.4.1: behind two zeros, a byte up to 3 is
  preceded by \<open>0x03\<close>. \<open>z\<close> counts the zeros before the rest of the payload.
\<close>

fun add_emulation_prevention :: "nat \<Rightarrow> bytes \<Rightarrow> bytes" where
  "add_emulation_prevention z [] = []"
| "add_emulation_prevention z (b # bs) =
     (if z = 2 \<and> b \<le> 3 then 0x03 # b # add_emulation_prevention (if b = 0 then 1 else 0) bs
      else b # add_emulation_prevention (if b = 0 then z + 1 else 0) bs)"

lemma remove_nonzero: "b \<noteq> 0 \<Longrightarrow> remove_emulation_prevention (b # bs) = b # remove_emulation_prevention bs"
  by (simp split: list.split)

lemma remove_zero_nonzero:
  "b \<noteq> 0 \<Longrightarrow> remove_emulation_prevention (0 # b # bs) = 0 # b # remove_emulation_prevention bs"
  by (simp add: remove_nonzero split: list.split)

lemma remove_two_zeros:
  "b \<noteq> 0 \<Longrightarrow> b \<noteq> 3 \<Longrightarrow> remove_emulation_prevention (0 # 0 # b # bs) = 0 # 0 # b # remove_emulation_prevention bs"
  by (simp add: remove_nonzero remove_zero_nonzero split: list.split)

declare remove_emulation_prevention.simps(2) [simp del]

lemma remove_two_zeros_three: "remove_emulation_prevention (0 # 0 # 3 # bs) = 0 # 0 # remove_emulation_prevention bs"
  by (simp add: remove_emulation_prevention.simps(2))

lemma remove_add_emulation_prevention_from:
  "z \<le> 2 \<Longrightarrow>
   remove_emulation_prevention (replicate z 0 @ add_emulation_prevention z bs) = replicate z 0 @ bs"
proof (induction bs arbitrary: z)
  case Nil
  then show ?case
    by (auto simp: le_Suc_eq numeral_2_eq_2 remove_emulation_prevention.simps(2))
next
  case (Cons b bs)
  from Cons.prems consider "z = 0" | "z = 1" | "z = 2" by linarith
  then show ?case
  proof cases
    case 1
    then show ?thesis using Cons.IH [of 0] Cons.IH [of 1] by (cases "b = 0") (simp_all add: remove_nonzero)
  next
    case 2
    then show ?thesis using Cons.IH [of 0] Cons.IH [of 2]
      by (cases "b = 0") (simp_all add: remove_zero_nonzero numeral_2_eq_2)
  next
    case 3
    then show ?thesis using Cons.IH [of 0] Cons.IH [of 1]
      by (cases "b = 0"; cases "b \<le> 3") (auto simp: remove_nonzero remove_two_zeros remove_two_zeros_three numeral_2_eq_2)
  qed
qed

text \<open>
  C27: remove_emulation_prevention undoes the insertion of emulation prevention bytes of H.264,
  7.4.1, for every byte string.
\<close>

theorem emulation_prevention_roundtrip:
  "remove_emulation_prevention (add_emulation_prevention 0 bs) = bs"
  using remove_add_emulation_prevention_from [of 0 bs] by simp

end
