(* ===== verification/Rtp_Sender.thy ===== *)
theory Rtp_Sender
  imports Rtp_Packet H264
begin

text \<open>
  The senders of RTP streams: the base class of \<open>rtpx/senders/sender.h\<close> and \<open>sender.cpp\<close>, the H.264
  packetizer of \<open>sender_video_h264.cpp\<close> and the retransmission stream of \<open>sender_rtx.cpp\<close>. The calls
  of the handler \<open>sender_\<close> are the list \<open>sd_out\<close>. The wall clock readings (\<open>timestamp_now_\<close> and
  what is computed from it in floating point) are left out. Sizes are natural numbers: a frame is
  shorter than $2^{32} - 1200$ bytes, so that the products of the fragmentation loop do not wrap.
\<close>

unbundle bit_operations_syntax

definition MAX_RTP_PAYLOAD_SIZE :: nat where "MAX_RTP_PAYLOAD_SIZE = 1200"
definition PACKET_BUFFER_SIZE :: nat where "PACKET_BUFFER_SIZE = 512"

section \<open>The base class\<close>

record sender =
  sd_pt :: byte
  sd_ssrc :: u32
  sd_format_pt :: byte
  sd_timestamp :: u32
  sd_seq :: u16
  sd_packets_sent :: u64
  sd_bytes_sent :: u64
  sd_packets_sent_period :: u32
  sd_bytes_sent_period :: u32
  sd_lost :: u32
  sd_lost_period :: u16
  sd_pli_count :: u32
  sd_fir_count :: u32
  sd_nack_count :: u32
  sd_history :: "rtp_packet option list"
  sd_out :: "rtp_packet list"

text \<open>The initial sequence number is random between 0 and 0xFF: the argument \<open>rnd\<close>.\<close>

definition sender_new :: "byte \<Rightarrow> u32 \<Rightarrow> byte \<Rightarrow> u16 \<Rightarrow> sender" where
  "sender_new pt ssrc format_pt rnd = \<lparr>sd_pt = pt, sd_ssrc = ssrc, sd_format_pt = format_pt,
     sd_timestamp = 0, sd_seq = rnd, sd_packets_sent = 0, sd_bytes_sent = 0, sd_packets_sent_period = 0,
     sd_bytes_sent_period = 0, sd_lost = 0, sd_lost_period = 0, sd_pli_count = 0, sd_fir_count = 0,
     sd_nack_count = 0, sd_history = replicate PACKET_BUFFER_SIZE None, sd_out = []\<rparr>"

definition set_history :: "rtp_packet \<Rightarrow> sender \<Rightarrow> sender" where
  "set_history packet this =
     (let idx = unat (rh_seq (rk_header packet)) mod PACKET_BUFFER_SIZE
      in this\<lparr>sd_history := (sd_history this)[idx := Some packet]\<rparr>)"

definition get_history :: "u16 \<Rightarrow> sender \<Rightarrow> rtp_packet option" where
  "get_history seq this = (let idx = unat seq mod PACKET_BUFFER_SIZE in sd_history this ! idx)"

definition sender_send_packet :: "rtp_packet \<Rightarrow> sender \<Rightarrow> sender" where
  "sender_send_packet pkt this =
     (let this = this\<lparr>sd_out := sd_out this @ [pkt]\<rparr>;
          n = length (rk_payload_data pkt);
          this = this\<lparr>sd_packets_sent_period := sd_packets_sent_period this + 1,
                      sd_packets_sent := sd_packets_sent this + 1,
                      sd_bytes_sent_period := sd_bytes_sent_period this + word_of_nat n,
                      sd_bytes_sent := sd_bytes_sent this + word_of_nat n,
                      sd_seq := rh_seq (rk_header pkt) + 1\<rparr>
      in set_history pkt this)"

definition update_remote_report :: "u32 \<Rightarrow> byte \<Rightarrow> sender \<Rightarrow> sender" where
  "update_remote_report lost fraction this = this\<lparr>sd_lost := lost, sd_lost_period := ucast fraction\<rparr>"

definition sender_increase_fir :: "sender \<Rightarrow> sender" where
  "sender_increase_fir this = this\<lparr>sd_fir_count := sd_fir_count this + 1\<rparr>"

definition sender_increase_pli :: "sender \<Rightarrow> sender" where
  "sender_increase_pli this = this\<lparr>sd_pli_count := sd_pli_count this + 1\<rparr>"

definition sender_increase_nack :: "sender \<Rightarrow> sender" where
  "sender_increase_nack this = this\<lparr>sd_nack_count := sd_nack_count this + 1\<rparr>"

section \<open>The H.264 packetizer\<close>

text \<open>The loop over \<open>find_next_nal\<close> in \<open>send_frame\<close>, from \<open>offset\<close> on.\<close>

function split_nals :: "bytes \<Rightarrow> nat \<Rightarrow> bytes list" where
  "split_nals frame offset =
     (case find_next_nal frame offset of
        (True, nf) \<Rightarrow> take (nf_size nf) (drop (nf_start nf) frame) # split_nals frame (nf_offset nf)
      | (False, _) \<Rightarrow> [])"
  by pat_completeness auto
termination
  by (relation "measure (\<lambda>(frame, offset). length frame - offset)")
    (auto dest!: find_next_nal_advances)

declare split_nals.simps [simp del]

definition mk_packet :: "byte \<Rightarrow> bytes \<Rightarrow> sender \<Rightarrow> rtp_packet" where
  "mk_packet m payload this =
     (let pkt = packet_new (sd_format_pt this) (sd_ssrc this) (sd_seq this) (sd_timestamp this);
          pkt = pkt\<lparr>rk_header := (rk_header pkt)\<lparr>rh_m := m\<rparr>\<rparr>
      in snd (packet_set_payload payload pkt))"

text \<open>The fragmentation loop of \<open>send_nal\<close>; \<open>nal_size\<close> does not count the first byte.\<close>

function send_fu_loop :: "nat \<Rightarrow> nat \<Rightarrow> nal_header_t \<Rightarrow> byte \<Rightarrow> bytes \<Rightarrow> nat \<Rightarrow> bool \<Rightarrow> sender \<Rightarrow> sender" where
  "send_fu_loop index pos nal_header fu_ind_v nal nal_size islast this =
     (if index * MAX_RTP_PAYLOAD_SIZE < nal_size then
        let payload_length = (if (index + 1) * MAX_RTP_PAYLOAD_SIZE < nal_size then MAX_RTP_PAYLOAD_SIZE
                              else nal_size - index * MAX_RTP_PAYLOAD_SIZE);
            is_first_packet = (index = 0);
            is_final_packet = (index + 1) * MAX_RTP_PAYLOAD_SIZE \<ge> nal_size;
            m = (if islast \<and> is_final_packet then 1 else 0);
            fu = (if is_first_packet then \<lparr>fu_s = 1, fu_e = 0, fu_r = 0, fu_t = nal_t nal_header\<rparr>
                  else if is_final_packet then \<lparr>fu_s = 0, fu_e = 1, fu_r = 0, fu_t = nal_t nal_header\<rparr>
                  else \<lparr>fu_s = 0, fu_e = 0, fu_r = 0, fu_t = nal_t nal_header\<rparr>);
            s = [fu_ind_v, fu_header_get fu] @ take payload_length (drop pos nal);
            pkt = mk_packet m s this
        in send_fu_loop (index + 1) (pos + payload_length) nal_header fu_ind_v nal nal_size islast
             (sender_send_packet pkt this)
      else this)"
  by pat_completeness auto
termination
  by (relation "measure (\<lambda>(index, _, _, _, _, nal_size, _). nal_size - index * MAX_RTP_PAYLOAD_SIZE)")
    (auto simp: MAX_RTP_PAYLOAD_SIZE_def)

declare send_fu_loop.simps [simp del]

definition send_nal :: "u32 \<Rightarrow> bytes \<Rightarrow> bool \<Rightarrow> sender \<Rightarrow> sender" where
  "send_nal duration nal islast this =
     (let this =
        (if length nal \<le> MAX_RTP_PAYLOAD_SIZE then
           sender_send_packet (mk_packet (if islast then 1 else 0) nal this) this
         else
           let nal_header = nal_header_set (hd nal);
               fu_ind = \<lparr>nal_f = nal_f nal_header, nal_nri = nal_nri nal_header, nal_t = 28\<rparr>
           in send_fu_loop 0 1 nal_header (nal_header_get fu_ind) nal (length nal - 1) islast this)
      in if islast then this\<lparr>sd_timestamp := sd_timestamp this + duration\<rparr> else this)"

fun send_nals :: "u32 \<Rightarrow> bytes list \<Rightarrow> sender \<Rightarrow> sender" where
  "send_nals duration [] this = this"
| "send_nals duration (nal # nals) this = send_nals duration nals (send_nal duration nal (nals = []) this)"

definition stap_payload :: "bytes list \<Rightarrow> byte \<Rightarrow> bytes" where
  "stap_payload nals fu_ind_v = [fu_ind_v] @ concat (map (\<lambda>nal. b16 (word_of_nat (length nal)) @ nal) nals)"

definition h264_send_frame :: "bytes \<Rightarrow> u32 \<Rightarrow> sender \<Rightarrow> sender" where
  "h264_send_frame frame duration this =
     (let nals = split_nals frame 0;
          total_nal_size = sum_list (map length nals)
      in if total_nal_size \<le> MAX_RTP_PAYLOAD_SIZE \<and> length nals > 1 then
           let nal_header = nal_header_set (hd (hd nals));
               fu_ind = \<lparr>nal_f = nal_f nal_header, nal_nri = nal_nri nal_header, nal_t = 24\<rparr>;
               m = (if nal_t nal_header = 7 \<or> nal_t nal_header = 8 then 0 else 1)
           in sender_send_packet (mk_packet m (stap_payload nals (nal_header_get fu_ind)) this) this
         else send_nals duration nals this)"

section \<open>Retransmission\<close>

definition rtx_send_packet :: "rtp_packet \<Rightarrow> sender \<Rightarrow> sender" where
  "rtx_send_packet pkt this =
     (let ori_seq = rh_seq (rk_header pkt);
          pkt2 = packet_new (sd_pt this) (sd_ssrc this) (sd_seq this) (rh_ts (rk_header pkt));
          payload = [ucast (drop_bit 8 ori_seq), ucast ori_seq] @ rk_payload_data pkt;
          pkt2 = snd (packet_set_payload payload pkt2)
      in this\<lparr>sd_out := sd_out this @ [pkt2], sd_seq := rh_seq (rk_header pkt2) + 1\<rparr>)"

text \<open>
  The sequence numbers \<open>media_stream::on_rtcp_fb_nack\<close> looks up for a loss report: \<open>pid\<close>, and
  \<open>pid + i + 1\<close> for \<open>i\<close> from 0 to 15 where the lowest bit of \<open>bld\<close> is set; \<open>bld\<close> is shifted
  by \<open>i\<close> in round \<open>i\<close>, on top of the shifts of the earlier rounds.
\<close>

fun nack_bit_loop :: "nat \<Rightarrow> nat \<Rightarrow> u16 \<Rightarrow> u16 \<Rightarrow> u16 list" where
  "nack_bit_loop i 0 pid bld = []"
| "nack_bit_loop i (Suc n) pid bld =
     (let bld = drop_bit i bld
      in (if bld AND 0x0001 \<noteq> 0 then [pid + word_of_nat i + 1] else []) @ nack_bit_loop (i + 1) n pid bld)"

definition nack_lookups :: "u16 \<Rightarrow> u16 \<Rightarrow> u16 list" where
  "nack_lookups pid bld = pid # nack_bit_loop 0 16 pid bld"

text \<open>
  The handler: \<open>rtx\<close> is the retransmission stream where one was negotiated; the list holds the
  packets it sends otherwise, past the sender.
\<close>

definition on_rtcp_fb_nack :: "u16 \<Rightarrow> u16 \<Rightarrow> sender \<Rightarrow> sender option \<Rightarrow> sender \<times> sender option \<times> rtp_packet list" where
  "on_rtcp_fb_nack pid bld s rtx =
     (let pkts = List.map_filter (\<lambda>seq. get_history seq s) (nack_lookups pid bld); s = sender_increase_nack s
      in case rtx of
           None \<Rightarrow> (s, None, pkts)
         | Some rtx \<Rightarrow> (s, Some (fold rtx_send_packet pkts rtx), []))"

text \<open>Of the sixteen bits of a report only those at the positions 0, 1, 3, 6, 10 and 15 are read.\<close>

text \<open>
  C29: of the sixteen bits of a loss report the sender's handler looks at the positions 0, 1, 3,
  6, 10 and 15 only, and takes them for pid + 1 to pid + 6.
\<close>

theorem nack_lookups_bits:
  "nack_lookups pid bld = pid # map (\<lambda>(i, _). pid + word_of_nat i + 1)
     (filter (\<lambda>(_, pos). bit bld pos) [(0, 0), (1, 1), (2, 3), (3, 6), (4, 10), (5, 15)])"
proof -
  have b: "x AND 1 \<noteq> 0 \<longleftrightarrow> bit x 0" for x :: u16
    by (simp add: and_one_eq bit_0 odd_iff_mod_2_eq_one)
  have h: "16 \<le> n \<Longrightarrow> bit bld n = False" for n
    by (auto dest: bit_imp_le_length)
  have step: "nack_bit_loop i (numeral k) pid x =
      (if bit x i then [pid + word_of_nat i + 1] else []) @ nack_bit_loop (i + 1) (pred_numeral k) pid (drop_bit i x)" for i k x
    using b [of "drop_bit i x"] by (simp add: numeral_eq_Suc Let_def bit_drop_bit_eq del: nack_bit_loop.simps(1))
  show ?thesis
    by (simp add: nack_lookups_def step h bit_drop_bit_eq) (simp add: eval_nat_numeral)
qed

section \<open>The sent packets stay available\<close>

lemma history_last: "length (sd_history s) = PACKET_BUFFER_SIZE \<Longrightarrow>
  get_history (rh_seq (rk_header pkt)) (sender_send_packet pkt s) = Some pkt"
  by (simp add: get_history_def sender_send_packet_def set_history_def PACKET_BUFFER_SIZE_def Let_def)

end
