(* ===== verification/H264_Stream.thy ===== *)
theory H264_Stream
  imports Rtp_Sender
begin

text \<open>
  What the packetizer of \<open>Rtp_Sender\<close> makes of an access unit: the NAL units of an Annex B stream
  are found, and a NAL unit that does not fit a packet is cut into fragments that carry all of it.
\<close>

unbundle bit_operations_syntax

section \<open>Annex B streams\<close>

definition start_code :: "bool \<Rightarrow> bytes" where
  "start_code four = (if four then [0, 0, 0, 1] else [0, 0, 1])"

definition annexb :: "(bool \<times> bytes) list \<Rightarrow> bytes" where
  "annexb nals = concat (map (\<lambda>(four, nal). start_code four @ nal) nals)"

text \<open>A NAL unit: not empty, no start code inside, no trailing zero byte (H.264, 7.4.1).\<close>

definition nal_unit :: "bytes \<Rightarrow> bool" where
  "nal_unit nal \<longleftrightarrow> nal \<noteq> [] \<and> last nal \<noteq> 0 \<and> \<not> sublist [0, 0, 1] nal"

fun trailing_zeros :: "nat \<Rightarrow> bytes \<Rightarrow> nat" where
  "trailing_zeros z [] = z"
| "trailing_zeros z (b # bs) = trailing_zeros (if b = 0 then z + 1 else 0) bs"

lemma trailing_zeros_last: "bs \<noteq> [] \<Longrightarrow> last bs \<noteq> 0 \<Longrightarrow> trailing_zeros z bs = 0"
  by (induction bs arbitrary: z) (auto split: if_splits)

lemma no_start_code_Cons:
  assumes "\<not> sublist [0, 0, 1] (replicate z 0 @ b # bs)"
  shows "\<not> sublist [0, 0, 1 :: byte] (replicate (if b = 0 then z + 1 else 0) 0 @ bs)" "b = 1 \<Longrightarrow> z < 2"
proof -
  have "sublist bs (replicate z 0 @ b # bs)"
    using sublist_appendI [of bs "replicate z 0 @ [b]" "[]"] by simp
  then show "\<not> sublist [0, 0, 1] (replicate (if b = 0 then z + 1 else 0) 0 @ bs)"
    using assms sublist_order.order_trans [of "[0, 0, 1]" bs] by (auto simp: replicate_app_Cons_same)
  show "z < 2" if "b = 1"
  proof (rule ccontr)
    assume "\<not> z < 2"
    then obtain k where "z = k + 2" by (metis le_iff_add not_less add.commute)
    then have "replicate z 0 = replicate k (0 :: byte) @ [0, 0]"
      by (simp only: replicate_add) (simp add: numeral_2_eq_2)
    then have "replicate z 0 @ b # bs = replicate k 0 @ [0, 0, 1] @ bs"
      using that by simp
    then show False
      using assms by (metis sublist_appendI)
  qed
qed

lemma nal_scan_body:
  assumes "drop i buffer = n @ rest" "\<not> sublist [0, 0, 1] (replicate z 0 @ n)"
  shows "nal_scan buffer offset i z cur_pos nal_start =
    nal_scan buffer offset (i + length n) (trailing_zeros z n) cur_pos nal_start"
  using assms
proof (induction n arbitrary: i z)
  case (Cons b n)
  then have i: "i < length buffer" "buffer ! i = b" "drop (Suc i) buffer = n @ rest"
    using drop_ConsD [of i buffer b "n @ rest"] by auto
  note z = no_start_code_Cons [OF Cons.prems(2)]
  have "nal_scan buffer offset i z cur_pos nal_start =
      nal_scan buffer offset (Suc i) (if b = 0 then z + 1 else 0) cur_pos nal_start"
    using i z(2) by (subst nal_scan.simps) auto
  then show ?case
    using Cons.IH [OF i(3) z(1)] by simp
qed simp

lemma nal_scan_start_code:
  assumes "drop i buffer = start_code four @ rest"
  shows "nal_scan buffer offset i 0 cur_pos nal_start =
    (let j = i + length (start_code four) in
     if nal_start = 0 then nal_scan buffer offset j 0 j j
     else if i \<le> cur_pos then (False, \<lparr>nf_offset = offset, nf_start = nal_start, nf_size = 0, nf_islast = False\<rparr>)
     else (True, \<lparr>nf_offset = i, nf_start = nal_start, nf_size = i - cur_pos, nf_islast = False\<rparr>))"
proof -
  define z where "z = (if four then 3 else 2 :: nat)"
  have z: "start_code four = replicate z 0 @ [1]" "2 \<le> z" "z = 3 \<or> z = 2"
    by (simp_all add: start_code_def z_def numeral_2_eq_2 numeral_3_eq_3)
  have e: "i + z + 1 - (if z = 2 then 3 else 4) = i"
    using z by auto
  have "\<not> sublist [0, 0, 1 :: byte] (replicate z 0)"
    by (auto dest!: set_mono_sublist)
  moreover have "trailing_zeros y (replicate z 0) = y + z" for y z
    by (induction z arbitrary: y) auto
  ultimately have "nal_scan buffer offset i 0 cur_pos nal_start = nal_scan buffer offset (i + z) z cur_pos nal_start"
    using nal_scan_body [of i buffer "replicate z 0" "1 # rest" 0] assms z(1) by simp
  moreover have "drop (i + z) buffer = 1 # rest"
    using arg_cong [where f = "drop z", OF assms] z(1) by (simp add: add.commute)
  then have "i + z < length buffer" "buffer ! (i + z) = 1"
    using drop_ConsD [of "i + z" buffer 1 rest] by auto
  then have "nal_scan buffer offset (i + z) z cur_pos nal_start =
    (if nal_start = 0 then nal_scan buffer offset (i + z + 1) 0 (i + z + 1) (i + z + 1)
     else if i \<le> cur_pos then (False, \<lparr>nf_offset = offset, nf_start = nal_start, nf_size = 0, nf_islast = False\<rparr>)
     else (True, \<lparr>nf_offset = i, nf_start = nal_start, nf_size = i - cur_pos, nf_islast = False\<rparr>))"
    using z(2) e by (subst nal_scan.simps) (simp add: Let_def)
  ultimately show ?thesis
    using z(1) by (simp add: Let_def)
qed

lemma find_next_nal_unit:
  assumes "nal_unit nal"
  shows "\<exists>nf. find_next_nal (pre @ start_code four @ nal @ annexb nals) (length pre) = (True, nf) \<and>
    nf_start nf = length (pre @ start_code four) \<and> nf_size nf = length nal \<and>
    nf_offset nf = length (pre @ start_code four @ nal)"
proof -
  let ?b = "pre @ start_code four @ nal @ annexb nals" and ?k = "length (start_code four)"
  have k: "?k > 0" by (simp add: start_code_def)
  have "find_next_nal ?b (length pre) =
      nal_scan ?b (length pre) (length pre + ?k) 0 (length pre + ?k) (length pre + ?k)"
    using nal_scan_start_code [of "length pre" ?b four "nal @ annexb nals"] by (simp add: find_next_nal_def Let_def)
  also have "\<dots> = nal_scan ?b (length pre) (length pre + ?k + length nal) 0 (length pre + ?k) (length pre + ?k)"
    using nal_scan_body [of "length pre + ?k" ?b nal "annexb nals" 0] assms trailing_zeros_last [of nal 0]
    by (simp add: nal_unit_def)
  finally have *: "find_next_nal ?b (length pre) = \<dots>" .
  show ?thesis
  proof (cases nals)
    case Nil
    then show ?thesis
      using * assms by (subst (asm) nal_scan.simps) (simp add: annexb_def nal_unit_def)
  next
    case (Cons x xs)
    then have "annexb nals = start_code (fst x) @ snd x @ annexb xs"
      by (simp add: annexb_def case_prod_beta)
    then show ?thesis
      using * k assms nal_scan_start_code [of "length pre + ?k + length nal" ?b "fst x" "snd x @ annexb xs"]
      by (simp add: Let_def nal_unit_def)
  qed
qed

lemma split_nals_annexb_from:
  assumes "list_all (nal_unit \<circ> snd) nals"
  shows "split_nals (pre @ annexb nals) (length pre) = map snd nals"
  using assms
proof (induction nals arbitrary: pre)
  case Nil
  then show ?case
    by (subst split_nals.simps) (simp add: annexb_def find_next_nal_def nal_scan.simps)
next
  case (Cons x nals)
  obtain four nal where x: "x = (four, nal)" by fastforce
  let ?pre = "pre @ start_code four @ nal"
  have b: "pre @ annexb (x # nals) = ?pre @ annexb nals" "pre @ annexb (x # nals) = pre @ start_code four @ nal @ annexb nals"
    by (simp_all add: annexb_def x)
  obtain nf where "find_next_nal (pre @ annexb (x # nals)) (length pre) = (True, nf)"
    "nf_start nf = length (pre @ start_code four)" "nf_size nf = length nal" "nf_offset nf = length ?pre"
    using find_next_nal_unit [of nal pre four nals] Cons.prems b(2) by (auto simp: x)
  moreover have "take (length nal) (drop (length (pre @ start_code four)) (pre @ annexb (x # nals))) = nal"
    unfolding b(2) by simp
  ultimately have "split_nals (pre @ annexb (x # nals)) (length pre) = nal # split_nals (pre @ annexb (x # nals)) (length ?pre)"
    by (subst split_nals.simps) simp
  also have "split_nals (pre @ annexb (x # nals)) (length ?pre) = map snd nals"
    unfolding b(1) using Cons by (intro Cons.IH) simp
  finally show ?case
    by (simp add: x)
qed

text \<open>
  C25: repeated find_next_nal splits an Annex B stream with start codes of three or four bytes
  into exactly its NAL units.
\<close>

theorem split_nals_annexb:
  "list_all (nal_unit \<circ> snd) nals \<Longrightarrow> split_nals (annexb nals) 0 = map snd nals"
  using split_nals_annexb_from [of nals "[]"] by simp

theorem split_nals_annexb_witness:
  "split_nals [0, 0, 0, 1, 0x67, 1, 0, 0, 1, 0x65, 0, 0, 3] 0 = [[0x67, 1], [0x65, 0, 0, 3]]"
proof -
  have "annexb [(True, [0x67, 1]), (False, [0x65, 0, 0, 3])] = [0, 0, 0, 1, 0x67, 1, 0, 0, 1, 0x65, 0, 0, 3]"
    "list_all (nal_unit \<circ> snd) [(True, [0x67, 1]), (False, [0x65, 0, 0, 3])]"
    by (code_simp, code_simp)
  then show ?thesis
    using split_nals_annexb [of "[(True, [0x67, 1]), (False, [0x65, 0, 0, 3])]"] by simp
qed

text \<open>On any input, not only on well-formed streams, the loop of \<open>send_frame\<close> makes progress.\<close>

text \<open>
  C26: on any bytes the loop of send_frame over find_next_nal ends: it finds non-empty NAL
  units, whose number and total length are at most the number of bytes behind the offset.
\<close>

theorem split_nals_bounded:
  "[] \<notin> set (split_nals frame offset) \<and> sum_list (map length (split_nals frame offset)) \<le> length frame - offset \<and>
   length (split_nals frame offset) \<le> length frame - offset"
proof (induction "length frame - offset" arbitrary: offset rule: less_induct)
  case less
  show ?case
  proof (cases "fst (find_next_nal frame offset)")
    case True
    then obtain nf where nf: "find_next_nal frame offset = (True, nf)"
      by (cases "find_next_nal frame offset") auto
    have "offset \<le> length frame"
      using find_next_nal_past [of frame offset] True by fastforce
    then have p: "offset \<le> nf_start nf \<and> 0 < nf_size nf \<and> nf_start nf + nf_size nf \<le> nf_offset nf \<and> nf_offset nf \<le> length frame"
      using find_next_nal_progress [OF nf] by blast
    then have "[] \<notin> set (split_nals frame (nf_offset nf)) \<and>
        sum_list (map length (split_nals frame (nf_offset nf))) \<le> length frame - nf_offset nf \<and>
        length (split_nals frame (nf_offset nf)) \<le> length frame - nf_offset nf"
      by (intro less.hyps) linarith
    then show ?thesis
      using p nf True by (auto simp: split_nals.simps [of frame offset])
  next
    case False
    then have "split_nals frame offset = []"
      by (cases "find_next_nal frame offset") (auto simp: split_nals.simps [of frame offset] split: bool.split)
    then show ?thesis by simp
  qed
qed

section \<open>The packets of an access unit\<close>

text \<open>The marker bits and payloads handed to \<open>send_packet\<close>, one after the other.\<close>

fun send_list :: "(byte \<times> bytes) list \<Rightarrow> sender \<Rightarrow> sender" where
  "send_list [] s = s"
| "send_list ((m, p) # parts) s = send_list parts (sender_send_packet (mk_packet m p s) s)"

fun stamped :: "sender \<Rightarrow> u16 \<Rightarrow> (byte \<times> bytes) list \<Rightarrow> rtp_packet list" where
  "stamped s seq [] = []"
| "stamped s seq ((m, p) # parts) = mk_packet m p (s\<lparr>sd_seq := seq\<rparr>) # stamped s (seq + 1) parts"

function fu_parts :: "bool \<Rightarrow> nal_header_t \<Rightarrow> byte \<Rightarrow> bytes \<Rightarrow> bool \<Rightarrow> (byte \<times> bytes) list" where
  "fu_parts first h ind data islast =
     (if data = [] then []
      else
        let final = length data \<le> MAX_RTP_PAYLOAD_SIZE;
            fu = \<lparr>fu_s = (if first then 1 else 0), fu_e = (if \<not> first \<and> final then 1 else 0), fu_r = 0, fu_t = nal_t h\<rparr>
        in (if islast \<and> final then 1 else 0, [ind, fu_header_get fu] @ take MAX_RTP_PAYLOAD_SIZE data) #
           fu_parts False h ind (drop MAX_RTP_PAYLOAD_SIZE data) islast)"
  by pat_completeness auto
termination
  by (relation "measure (\<lambda>(first, h, ind, data, islast). length data)") (auto simp: MAX_RTP_PAYLOAD_SIZE_def)

declare fu_parts.simps [simp del]

definition nal_parts :: "bytes \<Rightarrow> bool \<Rightarrow> (byte \<times> bytes) list" where
  "nal_parts nal islast =
     (if length nal \<le> MAX_RTP_PAYLOAD_SIZE then [(if islast then 1 else 0, nal)]
      else
        let h = nal_header_set (hd nal)
        in fu_parts True h (nal_header_get \<lparr>nal_f = nal_f h, nal_nri = nal_nri h, nal_t = 28\<rparr>) (tl nal) islast)"

fun frame_parts :: "bytes list \<Rightarrow> (byte \<times> bytes) list" where
  "frame_parts [] = []"
| "frame_parts (nal # nals) = nal_parts nal (nals = []) @ frame_parts nals"

lemma send_list_append: "send_list (xs @ ys) s = send_list ys (send_list xs s)"
  by (induction xs arbitrary: s) auto

lemma mk_packet_cong:
  "sd_format_pt s = sd_format_pt s' \<Longrightarrow> sd_ssrc s = sd_ssrc s' \<Longrightarrow> sd_seq s = sd_seq s' \<Longrightarrow>
   sd_timestamp s = sd_timestamp s' \<Longrightarrow> mk_packet m p s = mk_packet m p s'"
  by (simp add: mk_packet_def)

lemma stamped_cong:
  "sd_format_pt s = sd_format_pt s' \<Longrightarrow> sd_ssrc s = sd_ssrc s' \<Longrightarrow> sd_timestamp s = sd_timestamp s' \<Longrightarrow>
   stamped s seq parts = stamped s' seq parts"
  by (induction s seq parts rule: stamped.induct) (auto intro: mk_packet_cong)

lemma send_packet_fields [simp]:
  "sd_out (sender_send_packet pkt s) = sd_out s @ [pkt]"
  "sd_seq (sender_send_packet pkt s) = rh_seq (rk_header pkt) + 1"
  "sd_format_pt (sender_send_packet pkt s) = sd_format_pt s"
  "sd_ssrc (sender_send_packet pkt s) = sd_ssrc s"
  "sd_timestamp (sender_send_packet pkt s) = sd_timestamp s"
  by (simp_all add: sender_send_packet_def set_history_def Let_def)

lemma mk_packet_fields [simp]:
  "rh_seq (rk_header (mk_packet m p s)) = sd_seq s" "rh_m (rk_header (mk_packet m p s)) = m"
  "rh_ts (rk_header (mk_packet m p s)) = sd_timestamp s" "rh_ssrc (rk_header (mk_packet m p s)) = sd_ssrc s"
  "rk_payload_data (mk_packet m p s) = p"
  by (simp_all add: mk_packet_def packet_new_def rtp_packet_init_def rtp_header_init_def rtp_packet_create_def
      packet_set_payload_def rtp_packet_set_payload_def rk_payload_data_def Let_def)

lemma send_list_fields:
  "sd_out (send_list parts s) = sd_out s @ stamped s (sd_seq s) parts \<and>
   sd_seq (send_list parts s) = sd_seq s + word_of_nat (length parts) \<and>
   sd_format_pt (send_list parts s) = sd_format_pt s \<and> sd_ssrc (send_list parts s) = sd_ssrc s \<and>
   sd_timestamp (send_list parts s) = sd_timestamp s"
proof (induction parts arbitrary: s)
  case (Cons x parts)
  obtain m p where x: "x = (m, p)" by fastforce
  let ?s = "sender_send_packet (mk_packet m p s) s"
  have "stamped ?s (sd_seq s + 1) parts = stamped s (sd_seq s + 1) parts"
    by (rule stamped_cong) simp_all
  then show ?case
    using Cons [of ?s] by (simp add: x)
qed simp

lemma send_fu_loop_parts:
  assumes "pos = 1 + index * MAX_RTP_PAYLOAD_SIZE"
  shows "send_fu_loop index pos h ind nal (length nal - 1) islast s =
    send_list (fu_parts (index = 0) h ind (drop pos nal) islast) s"
  using assms
proof (induction "length nal - pos" arbitrary: index pos s rule: less_induct)
  case less
  show ?case
  proof (cases "index * MAX_RTP_PAYLOAD_SIZE < length nal - 1")
    case True
    have ne: "drop pos nal \<noteq> []" and bound: "index * MAX_RTP_PAYLOAD_SIZE < length nal - 1"
      using less.prems True by auto
    show ?thesis
    proof (cases "(index + 1) * MAX_RTP_PAYLOAD_SIZE < length nal - 1")
      case True
      then have l: "\<not> length (drop pos nal) \<le> MAX_RTP_PAYLOAD_SIZE" "length nal - (pos + MAX_RTP_PAYLOAD_SIZE) < length nal - pos"
        using less.prems by (auto simp: MAX_RTP_PAYLOAD_SIZE_def)
      have "send_fu_loop index pos h ind nal (length nal - 1) islast s =
          send_fu_loop (index + 1) (pos + MAX_RTP_PAYLOAD_SIZE) h ind nal (length nal - 1) islast
            (send_list [hd (fu_parts (index = 0) h ind (drop pos nal) islast)] s)"
        using True bound ne l(1) by (subst send_fu_loop.simps, subst fu_parts.simps) (simp add: Let_def)
      also have "\<dots> = send_list (fu_parts False h ind (drop (pos + MAX_RTP_PAYLOAD_SIZE) nal) islast)
            (send_list [hd (fu_parts (index = 0) h ind (drop pos nal) islast)] s)"
        using less.hyps [OF l(2), of "index + 1"] less.prems by simp
      also have "\<dots> = send_list (fu_parts (index = 0) h ind (drop pos nal) islast) s"
        using ne by (subst (2 3) fu_parts.simps) (simp add: Let_def add.commute)
      finally show ?thesis .
    next
      case False
      then have l: "length (drop pos nal) \<le> MAX_RTP_PAYLOAD_SIZE" "length nal - 1 - index * MAX_RTP_PAYLOAD_SIZE = length nal - pos"
        using less.prems by (auto simp: MAX_RTP_PAYLOAD_SIZE_def)
      have "fu_parts False h ind (drop MAX_RTP_PAYLOAD_SIZE (drop pos nal)) islast = []"
        using l(1) by (subst fu_parts.simps) simp
      then show ?thesis
        using False bound ne l
        by (subst send_fu_loop.simps, subst fu_parts.simps, subst send_fu_loop.simps) (simp add: Let_def)
    qed
  next
    case False
    then show ?thesis
      using less.prems by (subst send_fu_loop.simps, subst fu_parts.simps) auto
  qed
qed

lemma send_fu_all:
  "send_fu_loop 0 (Suc 0) h ind nal (length nal - Suc 0) islast s = send_list (fu_parts True h ind (tl nal) islast) s"
  using send_fu_loop_parts [of 1 0 h ind nal islast s] by (simp add: drop_Suc)

lemma send_nal_parts:
  "nal \<noteq> [] \<Longrightarrow> send_nal duration nal islast s =
     (let s = send_list (nal_parts nal islast) s
      in if islast then s\<lparr>sd_timestamp := sd_timestamp s + duration\<rparr> else s)"
  by (simp add: send_nal_def nal_parts_def send_fu_all Let_def)

lemma send_nals_parts:
  assumes "[] \<notin> set nals" "nals \<noteq> []"
  shows "send_nals duration nals s =
    (let s = send_list (frame_parts nals) s in s\<lparr>sd_timestamp := sd_timestamp s + duration\<rparr>)"
  using assms
proof (induction nals arbitrary: s)
  case (Cons nal nals)
  then show ?case
    by (cases "nals = []") (auto simp: send_nal_parts send_list_append Let_def)
qed simp

end
