(* ===== verification/Rtp_Util.thy ===== *)
theory Rtp_Util
  imports Prelude
begin

text \<open>
  Utilities of the media part: the wrapping sequence numbers of \<open>rtpx/util/sn.hpp\<close> at the type
  \<open>uint16_t\<close> the receivers use them with, the compact loss report of \<open>nack_pid_bid.h\<close> and
  \<open>nack_pid_bid.cpp\<close>, and the port allocator of \<open>port_range.h\<close> and \<open>port_range.cpp\<close>.
\<close>

unbundle bit_operations_syntax

section \<open>Sequence numbers\<close>

text \<open>
  \<open>add<M>\<close> and \<open>subtract<M>\<close> on \<open>unsigned long\<close>. The other templates take the wrapping point \<open>M\<close>
  as an argument, \<open>0\<close> for the range of the type.
\<close>

definition sn_add :: "u64 \<Rightarrow> u64 \<Rightarrow> u64 \<Rightarrow> u64" where
  "sn_add M a b = (let t = M - b mod M; res = a - t in if t > a then res + M else res)"

definition sn_subtract :: "u64 \<Rightarrow> u64 \<Rightarrow> u64 \<Rightarrow> u64" where
  "sn_subtract M a b = (let sub = b mod M in if a < sub then M - (sub - a) else a - sub)"

definition sn_forward_diff :: "u16 \<Rightarrow> u16 \<Rightarrow> u16 \<Rightarrow> u16" where
  "sn_forward_diff M a b =
     (if M > 0 then (if a \<le> b then b - a else M - (a - b)) else b - a)"

definition sn_reverse_diff :: "u16 \<Rightarrow> u16 \<Rightarrow> u16 \<Rightarrow> u16" where
  "sn_reverse_diff M a b =
     (if M > 0 then (if b \<le> a then a - b else M - (b - a)) else a - b)"

definition sn_min_diff :: "u16 \<Rightarrow> u16 \<Rightarrow> u16 \<Rightarrow> u16" where
  "sn_min_diff M a b = min (sn_forward_diff M a b) (sn_reverse_diff M a b)"

text \<open>
  In the overload for \<open>M == 0\<close> the operands of \<open>a - b == max_dist\<close> are promoted to \<open>int\<close>, so that
  this difference does not wrap.
\<close>

definition sn_ahead_or_at :: "u16 \<Rightarrow> u16 \<Rightarrow> u16 \<Rightarrow> bool" where
  "sn_ahead_or_at M a b =
     (if M > 0 then
        let maxDist = M div 2 in
        if M AND 1 = 0 \<and> sn_min_diff M a b = maxDist then b < a
        else sn_forward_diff M b a \<le> maxDist
      else
        let max_dist = 0xFFFF div 2 + 1 :: u16 in
        if uint a - uint b = uint max_dist then b < a
        else sn_forward_diff 0 b a < max_dist)"

definition sn_ahead_of :: "u16 \<Rightarrow> u16 \<Rightarrow> u16 \<Rightarrow> bool" where
  "sn_ahead_of M a b \<longleftrightarrow> a \<noteq> b \<and> sn_ahead_or_at M a b"

section \<open>Loss reports\<close>

record nack_pid_bid =
  nb_pid :: u16
  nb_bid :: u16
  nb_has_pid :: bool

definition nack_pid_bid_new :: nack_pid_bid where
  "nack_pid_bid_new = \<lparr>nb_pid = 0, nb_bid = 0, nb_has_pid = False\<rparr>"

definition nack_pid_bid_reset :: "nack_pid_bid \<Rightarrow> nack_pid_bid" where
  "nack_pid_bid_reset this = this\<lparr>nb_pid := 0, nb_bid := 0, nb_has_pid := False\<rparr>"

definition nack_pid_bid_add :: "u16 \<Rightarrow> nack_pid_bid \<Rightarrow> bool \<times> nack_pid_bid" where
  "nack_pid_bid_add seq this =
     (if \<not> nb_has_pid this then (True, this\<lparr>nb_pid := seq, nb_has_pid := True\<rparr>)
      else
        let pos = seq - nb_pid this in
        if pos \<ge> 16 then (False, this)
        else (True, this\<lparr>nb_bid := nb_bid this OR push_bit (unat pos) 1\<rparr>))"

section \<open>Ports\<close>

record port_range =
  pr_min_port :: u16
  pr_max_port :: u16
  pr_pos :: u16

definition port_range_reset :: "u16 \<Rightarrow> u16 \<Rightarrow> port_range" where
  "port_range_reset min_port max_port =
     \<lparr>pr_min_port = min_port, pr_max_port = max_port, pr_pos = min_port\<rparr>"

definition port_range_wrap :: "port_range \<Rightarrow> port_range" where
  "port_range_wrap this =
     (if pr_pos this > pr_max_port this then this\<lparr>pr_pos := pr_min_port this\<rparr> else this)"

definition get_next_port :: "port_range \<Rightarrow> u16 \<times> port_range" where
  "get_next_port this =
     (let port = pr_pos this; this = this\<lparr>pr_pos := port + 1\<rparr> in (port, port_range_wrap this))"

text \<open>The loop makes at most two rounds; \<open>n\<close> is what is left of them, \<open>port\<close> the last port read.\<close>

fun next_even_loop :: "nat \<Rightarrow> u16 \<Rightarrow> port_range \<Rightarrow> u16 \<times> port_range" where
  "next_even_loop 0 port this = (port, this)"
| "next_even_loop (Suc n) _ this =
     (let port = pr_pos this; this = this\<lparr>pr_pos := port + 1\<rparr> in
      if port AND 1 = 0 then (port, port_range_wrap (this\<lparr>pr_pos := pr_pos this + 1\<rparr>))
      else next_even_loop n port (port_range_wrap this))"

definition get_next_even_port :: "port_range \<Rightarrow> u16 \<times> port_range" where
  "get_next_even_port this = next_even_loop 2 0 this"

text \<open>The random number between the two bounds is the argument \<open>rnd\<close>.\<close>

definition random_even_port :: "u16 \<Rightarrow> port_range \<Rightarrow> u16 \<times> port_range" where
  "random_even_port rnd this = (let port = rnd div 2 * 2 in (port, this\<lparr>pr_pos := port + 2\<rparr>))"

section \<open>Lemmas on sequence numbers\<close>

lemma uint_sub_u16: "uint (a - b :: u16) = (if uint b \<le> uint a then uint a - uint b else uint a - uint b + 65536)"
  by (simp add: uint_sub_if')

lemma sn_ahead_of_iff:
  "sn_ahead_of 0 a b \<longleftrightarrow>
     0 < uint (a - b) \<and> uint (a - b) < 32768 \<or> uint (a - b) = 32768 \<and> b < a"
proof -
  have "uint (a - b) < 65536" "0 \<le> uint (a - b)" "a \<noteq> b \<longleftrightarrow> uint (a - b) \<noteq> 0"
    using uint_lt2p [of "a - b"] by (auto simp: uint_0_iff)
  then show ?thesis
    by (auto simp: sn_ahead_of_def sn_ahead_or_at_def sn_forward_diff_def word_less_def uint_sub_u16
        split: if_splits)
qed

lemma sn_walk:
  assumes "\<not> sn_ahead_of 0 i e"
  shows "unat (e - i) < unat (e - i + 1 :: u16)"
proof -
  have "i - e \<noteq> 1"
    using assms by (auto simp: sn_ahead_of_iff)
  then have "e - i + 1 \<noteq> 0"
    using diff_eq_eq [of 1 "i - e" "e - i + 1"] by (auto simp: algebra_simps)
  then show ?thesis
    using unat_minus_one [of "e - i + 1"] by (simp add: unat_gt_0 algebra_simps)
qed

lemma sn_ahead_of_add:
  "0 < k \<Longrightarrow> k < 32768 \<Longrightarrow> sn_ahead_of 0 (a + word_of_nat k) a"
  by (simp add: sn_ahead_of_iff uint_nat unat_of_nat)

lemma sn_not_ahead_of_add:
  assumes "k < 32768"
  shows "\<not> sn_ahead_of 0 a (a + word_of_nat k)"
proof -
  have "uint (a - (a + word_of_nat k)) = (if k = 0 then 0 else 65536 - int k)"
    using assms by (simp add: uint_word_ariths unsigned_of_nat take_bit_eq_mod zmod_zminus1_eq_if)
  then show ?thesis
    using assms by (simp add: sn_ahead_of_iff split: if_splits)
qed

lemma sn_ahead_of_total:
  assumes "a \<noteq> b"
  shows "sn_ahead_of 0 a b \<longleftrightarrow> \<not> sn_ahead_of 0 b a"
proof -
  have "uint a \<noteq> uint b" "uint a < 65536" "uint b < 65536" "0 \<le> uint a" "0 \<le> uint b"
    using assms uint_lt2p [of a] uint_lt2p [of b] by (auto dest: word_uint_eqI)
  then show ?thesis
    unfolding sn_ahead_of_iff uint_sub_u16 word_less_def by (smt (verit))
qed

text \<open>
  The receivers ask \<open>ahead_of<uint16_t, 512>\<close> of sequence numbers that are not reduced modulo 512.
\<close>

lemma sn_ahead_of_512:
  assumes "b \<le> e"
  shows "sn_ahead_of 512 b e \<longleftrightarrow> 256 < unat (e - b) \<and> unat (e - b) \<le> 512"
proof -
  have m: "unat (512 - (e - b)) = (if unat (e - b) \<le> 512 then 512 - unat (e - b) else 66048 - unat (e - b))"
    by (simp add: unat_sub_if' )
  have "unat (e - b) < 65536"
    using unsigned_less [of "e - b"] by simp
  then show ?thesis
    using assms m
    by (auto simp: sn_ahead_of_def sn_ahead_or_at_def sn_forward_diff_def sn_min_diff_def
        sn_reverse_diff_def word_le_nat_alt word_less_nat_alt word_unat_eq_iff min_def unat_sub_if' split: if_splits)
qed

lemma unat_push_bit_1:
  assumes "n < 16"
  shows "bit (push_bit n 1 :: u16) i \<longleftrightarrow> i = n"
  using assms by (auto simp: bit_simps)

section \<open>What a loss report says\<close>

text \<open>The sequence numbers of a report as its encoder means them: bit \<open>i\<close> stands for \<open>pid + i\<close>.\<close>

definition nack_seqs :: "nack_pid_bid \<Rightarrow> u16 set" where
  "nack_seqs pb = (if nb_has_pid pb then insert (nb_pid pb) {nb_pid pb + word_of_nat i |i. bit (nb_bid pb) i} else {})"

lemma nack_add_seqs:
  assumes "nack_pid_bid_add seq pb = (True, pb')" "nb_has_pid pb \<or> nb_bid pb = 0"
  shows "nack_seqs pb' = insert seq (nack_seqs pb)"
proof (cases "nb_has_pid pb")
  case True
  let ?n = "unat (seq - nb_pid pb)"
  have n: "?n < 16" and pb': "pb' = pb\<lparr>nb_bid := nb_bid pb OR push_bit ?n 1\<rparr>"
    using assms True by (auto simp: nack_pid_bid_add_def Let_def word_le_nat_alt split: if_splits)
  have "bit (nb_bid pb OR push_bit ?n 1) i \<longleftrightarrow> i = ?n \<or> bit (nb_bid pb) i" for i
    using unat_push_bit_1 [OF n] by (auto simp: bit_or_iff)
  then have "{nb_pid pb + word_of_nat i |i. bit (nb_bid pb OR push_bit ?n 1) i} =
      insert (nb_pid pb + word_of_nat ?n) {nb_pid pb + word_of_nat i |i. bit (nb_bid pb) i}"
    by (auto simp only: insert_def)
  then show ?thesis
    using True unfolding pb' by (simp add: nack_seqs_def insert_commute del: push_bit_of_1)
next
  case False
  then show ?thesis
    using assms by (auto simp: nack_pid_bid_add_def nack_seqs_def)
qed

section \<open>The port allocator\<close>

definition port_range_ok :: "port_range \<Rightarrow> bool" where
  "port_range_ok p \<longleftrightarrow> pr_min_port p \<le> pr_pos p \<and> pr_pos p \<le> pr_max_port p \<and> pr_max_port p < 0xFFFE"

lemma u16_succ: "x < (0xFFFF :: u16) \<Longrightarrow> unat (x + 1) = unat x + 1"
  by (simp add: word_less_nat_alt unat_word_ariths)

lemma get_next_port_ok:
  assumes "port_range_ok p" "get_next_port p = (port, p')"
  shows "pr_min_port p \<le> port" "port \<le> pr_max_port p" "port_range_ok p'"
  using assms u16_succ [of "pr_pos p"]
  by (auto simp: port_range_ok_def get_next_port_def port_range_wrap_def Let_def word_le_nat_alt
      word_less_nat_alt split: if_splits)

lemma even_and_1: "(x :: u16) AND 1 = 0 \<longleftrightarrow> even x"
  by (simp add: and_one_eq even_iff_mod_2_eq_zero)

lemma port_range_wrap_ok:
  "pr_min_port p \<le> pr_max_port p \<Longrightarrow> pr_max_port p < 0xFFFE \<Longrightarrow> pr_min_port p \<le> pr_pos p \<Longrightarrow>
   port_range_ok (port_range_wrap p)"
  by (auto simp: port_range_ok_def port_range_wrap_def)

lemma next_even_hit:
  assumes "port_range_ok p" "even (pr_pos p)" "next_even_loop (Suc n) x p = (port, p')"
  shows "even port \<and> pr_min_port p \<le> port \<and> port \<le> pr_max_port p \<and> port_range_ok p'"
proof -
  have "pr_min_port p \<le> pr_pos p + 2"
    using assms(1) u16_succ [of "pr_pos p"] u16_succ [of "pr_pos p + 1"]
    by (auto simp: port_range_ok_def word_le_nat_alt word_less_nat_alt add.commute [of _ 2])
  moreover have "pr_min_port p \<le> pr_max_port p"
    using assms(1) by (auto simp: port_range_ok_def)
  ultimately show ?thesis
    using assms port_range_wrap_ok [of "p\<lparr>pr_pos := pr_pos p + 2\<rparr>"]
    by (auto simp: port_range_ok_def even_and_1 Let_def add.commute)
qed

lemma get_next_even_port_ok:
  assumes "port_range_ok p" "even (pr_min_port p)" "get_next_even_port p = (port, p')"
  shows "even port \<and> pr_min_port p \<le> port \<and> port \<le> pr_max_port p \<and> port_range_ok p'"
proof (cases "even (pr_pos p)")
  case True
  then show ?thesis
    using assms next_even_hit [of p 1 0] by (simp add: get_next_even_port_def numeral_2_eq_2)
next
  case False
  let ?q = "port_range_wrap (p\<lparr>pr_pos := pr_pos p + 1\<rparr>)"
  have "port_range_ok ?q" "even (pr_pos ?q)" "pr_min_port ?q = pr_min_port p" "pr_max_port ?q = pr_max_port p"
    using get_next_port_ok(3) [OF assms(1), of "pr_pos p" ?q] False assms(2)
    by (auto simp: get_next_port_def port_range_wrap_def Let_def)
  moreover have "next_even_loop (Suc 0) (pr_pos p) ?q = (port, p')"
    using assms(3) False by (simp add: get_next_even_port_def numeral_2_eq_2 even_and_1 Let_def del: next_even_loop.simps)
      (simp add: even_and_1 Let_def)
  ultimately show ?thesis
    using next_even_hit [of ?q 0 "pr_pos p"] by simp
qed

text \<open>
  \<open>random_even_port\<close> can leave the position beyond the upper bound, from where the next port is
  taken: the position is only wrapped after it has been used.
\<close>

lemma random_even_port_overshoot:
  "pr_min_port p \<le> rnd \<Longrightarrow> rnd = pr_max_port p \<Longrightarrow> odd rnd \<Longrightarrow> rnd < 0xFFFE \<Longrightarrow>
   fst (get_next_port (snd (random_even_port rnd p))) = pr_max_port p + 1"
proof -
  assume "rnd = pr_max_port p" "odd rnd"
  moreover have "x div 2 * 2 + 2 = x + 1" if "odd x" for x :: u16
    using arg_cong [where f = "\<lambda>y. y + 1", OF div_mult_mod_eq [of x 2]] that
    by (simp add: odd_iff_mod_2_eq_one add.commute)
  ultimately show ?thesis
    by (simp add: random_even_port_def get_next_port_def Let_def)
qed

end
