(* ===== verification/Rtp_Receiver.thy ===== *)
theory Rtp_Receiver
  imports Rtp_Packet Rtp_Util Std_Map "HOL-Library.Signed_Division"
begin

text \<open>
  The base class of the receivers, \<open>rtpx/receivers/receiver.h\<close> and \<open>receiver.cpp\<close>, with the
  sequence number bookkeeping of \<open>rtpx/rtp/rtp_source.c\<close>. Callbacks, posted work and armed timers
  are events appended to \<open>rc_events\<close>. An operation that reads the clock takes the reading, in
  nanoseconds, as the argument \<open>now\<close>. The jitter estimate and the conversions between time stamps and
  wall clock time, which are floating point, are left out. \<open>time_point::min()\<close>, the initial value of
  \<open>frame_begin_ts_\<close>, is $-2^{63}$.
\<close>

unbundle bit_operations_syntax

section \<open>Source statistics\<close>

record rtp_source =
  rs_id :: u32
  rs_max_seq :: u16
  rs_cycles :: u32
  rs_base_seq :: u32
  rs_bad_seq :: u32
  rs_probation :: int
  rs_received :: int
  rs_expected_prior :: int
  rs_received_prior :: int
  rs_fraction :: byte
  rs_lost :: int

definition rtp_source_reset_seq :: "rtp_source \<Rightarrow> u16 \<Rightarrow> rtp_source" where
  "rtp_source_reset_seq s seq = s\<lparr>rs_base_seq := ucast seq, rs_max_seq := seq, rs_bad_seq := 65537,
     rs_cycles := 0, rs_received := 0, rs_received_prior := 0, rs_expected_prior := 0\<rparr>"

definition rtp_source_init :: "rtp_source \<Rightarrow> u32 \<Rightarrow> u16 \<Rightarrow> rtp_source" where
  "rtp_source_init s sid seq =
     (rtp_source_reset_seq s seq)\<lparr>rs_id := sid, rs_max_seq := seq - 1, rs_probation := 2\<rparr>"

text \<open>The sum in \<open>seq == s->max_seq + 1\<close> is an \<open>int\<close> and does not wrap.\<close>

definition rtp_source_update_seq :: "rtp_source \<Rightarrow> u16 \<Rightarrow> int \<times> rtp_source" where
  "rtp_source_update_seq s seq =
     (if rs_probation s > 0 then
        if uint seq = uint (rs_max_seq s) + 1 then
          let s = s\<lparr>rs_probation := rs_probation s - 1, rs_max_seq := seq\<rparr> in
          if rs_probation s = 0 then
            let s = rtp_source_reset_seq s seq in (0, s\<lparr>rs_received := rs_received s + 1\<rparr>)
          else (-1, s)
        else (-1, s\<lparr>rs_probation := 1, rs_max_seq := seq\<rparr>)
      else
        let udelta = seq - rs_max_seq s in
        if udelta < 3000 then
          let s = (if seq < rs_max_seq s then s\<lparr>rs_cycles := rs_cycles s + 65536\<rparr> else s);
              s = s\<lparr>rs_max_seq := seq\<rparr>
          in (0, s\<lparr>rs_received := rs_received s + 1\<rparr>)
        else if uint udelta \<le> 65536 - 100 then
          if ucast seq = rs_bad_seq s then
            let s = rtp_source_reset_seq s seq in (0, s\<lparr>rs_received := rs_received s + 1\<rparr>)
          else (-2, s\<lparr>rs_bad_seq := (ucast seq + 1) AND 0xFFFF\<rparr>)
        else (0, s\<lparr>rs_received := rs_received s + 1\<rparr>))"

text \<open>\<open>lost\<close> is a signed bit field of 24 bits.\<close>

definition rtp_source_update_lost :: "rtp_source \<Rightarrow> rtp_source" where
  "rtp_source_update_lost s =
     (let ext_max = rs_cycles s + ucast (rs_max_seq s);
          expected = sint (ext_max - rs_base_seq s + 1);
          expected_interval = expected - rs_expected_prior s;
          received_interval = rs_received s - rs_received_prior s;
          lost_interval = expected_interval - received_interval;
          s = s\<lparr>rs_lost := signed_take_bit 23 (expected - rs_received s),
                rs_expected_prior := expected, rs_received_prior := rs_received s\<rparr>
      in if expected_interval = 0 \<or> lost_interval \<le> 0 then s\<lparr>rs_fraction := 0\<rparr>
         else s\<lparr>rs_fraction := word_of_int ((lost_interval * 256) sdiv expected_interval)\<rparr>)"

section \<open>State of a receiver\<close>

record av_frame =
  af_pts :: int
  af_dts :: int
  af_data :: bytes
  af_duration :: u32

datatype rc_event =
    On_frame u32 av_frame
  | On_nack u32 u16 u16
  | On_keyframe u32
  | Post_process_nack
  | Timer_armed int

record nack_pkt =
  np_ssrc :: u32
  np_seq :: u16
  np_count :: int

record receiver =
  rc_active :: bool
  rc_video :: bool
  rc_recv_packs :: "rtp_packet option list"
  rc_nack_packs :: "(u16, nack_pkt) std_map"
  rc_nack_max_count :: int
  rc_reset :: bool
  rc_waiting_for_keyframe :: bool
  rc_last_keyframe_required :: int
  rc_rtp_source :: rtp_source
  rc_begin_seq :: int
  rc_end_seq :: int
  rc_timestamp :: u32
  rc_frame_timestamp :: u32
  rc_ssrc :: u32
  rc_delay :: int
  rc_frame_begin_ts :: int
  rc_packets_received :: u64
  rc_packets_received_period :: u32
  rc_bytes_received :: u64
  rc_bytes_received_period :: u32
  rc_frames_received :: u64
  rc_frames_droped :: u64
  rc_pli_count :: u32
  rc_fir_count :: u32
  rc_nack_count :: u32
  rc_events :: "rc_event list"

definition rtp_source_zero :: rtp_source where
  "rtp_source_zero = \<lparr>rs_id = 0, rs_max_seq = 0, rs_cycles = 0, rs_base_seq = 0, rs_bad_seq = 0, rs_probation = 0,
     rs_received = 0, rs_expected_prior = 0, rs_received_prior = 0, rs_fraction = 0, rs_lost = 0\<rparr>"

definition receiver_new :: "u32 \<Rightarrow> bool \<Rightarrow> receiver" where
  "receiver_new ssrc video = \<lparr>rc_active = False, rc_video = video, rc_recv_packs = replicate 512 None,
     rc_nack_packs = [], rc_nack_max_count = 1, rc_reset = True, rc_waiting_for_keyframe = video,
     rc_last_keyframe_required = 0, rc_rtp_source = rtp_source_init rtp_source_zero ssrc 0,
     rc_begin_seq = -1, rc_end_seq = -1, rc_timestamp = 0, rc_frame_timestamp = 0, rc_ssrc = ssrc,
     rc_delay = 1000, rc_frame_begin_ts = - (2 ^ 63), rc_packets_received = 0, rc_packets_received_period = 0,
     rc_bytes_received = 0, rc_bytes_received_period = 0, rc_frames_received = 0, rc_frames_droped = 0,
     rc_pli_count = 0, rc_fir_count = 0, rc_nack_count = 0, rc_events = []\<rparr>"

definition rc_emit :: "rc_event \<Rightarrow> receiver \<Rightarrow> receiver" where
  "rc_emit e this = this\<lparr>rc_events := rc_events this @ [e]\<rparr>"

definition receiver_start :: "receiver \<Rightarrow> receiver" where
  "receiver_start this =
     (if rc_active this then this else rc_emit (Timer_armed 1000) (this\<lparr>rc_active := True\<rparr>))"

definition set_max_nack_count :: "int \<Rightarrow> receiver \<Rightarrow> receiver" where
  "set_max_nack_count num this = this\<lparr>rc_nack_max_count := num\<rparr>"

section \<open>Lost packets\<close>

function add_nack_loop :: "u16 \<Rightarrow> u16 \<Rightarrow> receiver \<Rightarrow> receiver" where
  "add_nack_loop i e this =
     (if sn_ahead_of 0 i e then this
      else
        let nack = \<lparr>np_ssrc = rc_ssrc this, np_seq = i, np_count = rc_nack_max_count this\<rparr>
        in add_nack_loop (i + 1) e (this\<lparr>rc_nack_packs := map_insert i nack (rc_nack_packs this)\<rparr>))"
  by pat_completeness auto

termination
  by (relation "measure (\<lambda>(i, e, _). unat (e - i + 1))") (auto simp: sn_walk)

declare add_nack_loop.simps [simp del]

definition add_nack :: "u16 \<Rightarrow> u16 \<Rightarrow> receiver \<Rightarrow> receiver" where
  "add_nack b e this =
     (if rc_nack_max_count this \<le> 0 then this else rc_emit Post_process_nack (add_nack_loop b e this))"

definition remove_nack :: "u16 \<Rightarrow> receiver \<Rightarrow> receiver" where
  "remove_nack seq this = this\<lparr>rc_nack_packs := map_erase seq (rc_nack_packs this)\<rparr>"

definition clear_nack :: "receiver \<Rightarrow> receiver" where
  "clear_nack this = this\<lparr>rc_nack_packs := []\<rparr>"

text \<open>The entries by falling sequence number; the map holds them by rising sequence number.\<close>

definition nack_list :: "receiver \<Rightarrow> nack_pkt list" where
  "nack_list this = rev (map snd (rc_nack_packs this))"

fun process_nack_loop :: "nack_pkt list \<Rightarrow> nack_pid_bid \<Rightarrow> receiver \<Rightarrow> nack_pid_bid \<times> receiver" where
  "process_nack_loop [] pb this = (pb, this)"
| "process_nack_loop (itr # rest) pb this =
     (let (ok, pb') = nack_pid_bid_add (np_seq itr) pb;
          (pb, this) = (if ok then (pb', this)
                        else (snd (nack_pid_bid_add (np_seq itr) (nack_pid_bid_reset pb')),
                              rc_emit (On_nack (rc_ssrc this) (nb_pid pb') (nb_bid pb')) this));
          cnt = np_count itr + 1;
          this = (if cnt \<ge> rc_nack_max_count this then remove_nack (np_seq itr) this
                  else case map_find (rc_nack_packs this) (np_seq itr) of
                         None \<Rightarrow> this
                       | Some nack \<Rightarrow> this\<lparr>rc_nack_packs :=
                           map_write (np_seq itr) (nack\<lparr>np_count := cnt\<rparr>) (rc_nack_packs this)\<rparr>)
      in process_nack_loop rest pb this)"

definition process_nack :: "int \<Rightarrow> receiver \<Rightarrow> nat \<times> receiver" where
  "process_nack now this =
     (let nack_pkts = nack_list this;
          this =
            (if length nack_pkts \<ge> 1000 \<or> rc_waiting_for_keyframe this then
               let this = (clear_nack this)\<lparr>rc_reset := True\<rparr> in
               if rc_video this \<and> now - rc_last_keyframe_required this \<ge> 3 * 10 ^ 9 then
                 rc_emit (On_keyframe (rc_ssrc this)) (this\<lparr>rc_last_keyframe_required := now\<rparr>)
               else this
             else
               let (pb, this) = process_nack_loop nack_pkts nack_pid_bid_new this in
               if nb_has_pid pb then rc_emit (On_nack (rc_ssrc this) (nb_pid pb) (nb_bid pb)) this else this)
      in (length (rc_nack_packs this), this))"

definition receiver_handle_timer :: "bool \<Rightarrow> int \<Rightarrow> receiver \<Rightarrow> receiver" where
  "receiver_handle_timer ec now this =
     (if \<not> rc_active this \<or> ec then this
      else case process_nack now this of
             (cnt, this) \<Rightarrow> rc_emit (Timer_armed (if cnt > 0 then 10 else 1000)) this)"

section \<open>Insertion of a packet\<close>

definition receiver_insert_packet :: "int \<Rightarrow> rtp_packet \<Rightarrow> receiver \<Rightarrow> bool \<times> receiver" where
  "receiver_insert_packet now pkt this =
     (let h = rk_header pkt; seq = rh_seq h;
          this = this\<lparr>rc_ssrc := rh_ssrc h\<rparr>;
          this = (if sn_ahead_of 0 (word_of_int (rc_begin_seq this)) seq then this\<lparr>rc_reset := True\<rparr> else this);
          this = (if rc_reset this then
                    this\<lparr>rc_begin_seq := uint seq, rc_end_seq := uint seq, rc_frame_begin_ts := now,
                         rc_recv_packs := replicate 512 None, rc_reset := False\<rparr>
                  else this);
          n = length (rk_payload_data pkt);
          this = this\<lparr>rc_packets_received := rc_packets_received this + 1,
                      rc_packets_received_period := rc_packets_received_period this + 1,
                      rc_bytes_received := rc_bytes_received this + word_of_nat n,
                      rc_bytes_received_period := rc_bytes_received_period this + word_of_nat n,
                      rc_timestamp := rh_ts h,
                      rc_rtp_source := snd (rtp_source_update_seq (rc_rtp_source this) seq),
                      rc_recv_packs := (rc_recv_packs this)[unat seq mod 512 := Some pkt]\<rparr>;
          this = (if sn_ahead_of 0 (word_of_int (rc_end_seq this)) seq then this
                  else
                    let d = sn_forward_diff 0 (word_of_int (rc_end_seq this)) seq;
                        this = (if d > 1 then add_nack (word_of_int (rc_end_seq this + 1)) seq this else this)
                    in this\<lparr>rc_end_seq := uint seq\<rparr>);
          this = (if sn_ahead_of 512 (word_of_int (rc_begin_seq this)) (word_of_int (rc_end_seq this))
                  then this\<lparr>rc_begin_seq := rc_end_seq this\<rparr> else this)
      in (True, this))"

definition is_timeout :: "int \<Rightarrow> receiver \<Rightarrow> bool" where
  "is_timeout now this \<longleftrightarrow> (now - rc_frame_begin_ts this) div 1000000 \<ge> rc_delay this"

definition invoke_rtp_frame :: "av_frame \<Rightarrow> receiver \<Rightarrow> av_frame \<times> receiver" where
  "invoke_rtp_frame frame this =
     (let frame = (if rc_frame_timestamp this > 0
                   then frame\<lparr>af_duration := word_of_int (af_pts frame - uint (rc_frame_timestamp this))\<rparr> else frame);
          this = this\<lparr>rc_frame_timestamp := word_of_int (af_pts frame)\<rparr>
      in (frame, rc_emit (On_frame (rc_ssrc this) frame) this))"

definition receiver_increase_fir :: "receiver \<Rightarrow> receiver" where
  "receiver_increase_fir this = this\<lparr>rc_fir_count := rc_fir_count this + 1, rc_reset := True\<rparr>"

definition receiver_increase_pli :: "receiver \<Rightarrow> receiver" where
  "receiver_increase_pli this = this\<lparr>rc_pli_count := rc_pli_count this + 1, rc_reset := True\<rparr>"

definition receiver_increase_nack :: "receiver \<Rightarrow> receiver" where
  "receiver_increase_nack this = this\<lparr>rc_nack_count := rc_nack_count this + 1\<rparr>"

section \<open>The retransmission stream\<close>

text \<open>
  \<open>receiver_rtx::insert_packet\<close>: the packet it hands to the receiver \<open>apt\<close>, of which it uses the
  payload type \<open>pt\<close> and the source \<open>ssrc\<close>.
\<close>

definition rtx_unwrap :: "byte \<Rightarrow> u32 \<Rightarrow> rtp_packet \<Rightarrow> rtp_packet option cxx" where
  "rtx_unwrap pt ssrc pkt =
     (let payload = rk_payload_data pkt in
      if length payload < 2 then Some None
      else do {
        seq \<leftarrow> rd16 payload 0;
        data \<leftarrow> rd_range payload 2 (length payload);
        Some (Some (snd (packet_set_payload data (packet_new pt ssrc seq (rh_ts (rk_header pkt)))))) })"

section \<open>Loss reports are complete\<close>

text \<open>The sequence numbers the emitted reports stand for.\<close>

definition reported :: "rc_event list \<Rightarrow> u16 set" where
  "reported es = (\<Union>e \<in> set es. case e of On_nack _ p b \<Rightarrow> nack_seqs \<lparr>nb_pid = p, nb_bid = b, nb_has_pid = True\<rparr> | _ \<Rightarrow> {})"

lemma reported_append [simp]: "reported (xs @ ys) = reported xs \<union> reported ys"
  by (simp add: reported_def)

lemma process_nack_loop_reports:
  assumes "process_nack_loop l pb r = (pb', r')" "nb_has_pid pb \<or> nb_bid pb = 0"
  shows "reported (rc_events r') \<union> nack_seqs pb' = reported (rc_events r) \<union> nack_seqs pb \<union> np_seq ` set l \<and>
    (nb_has_pid pb' \<or> nb_bid pb' = 0)"
  using assms
proof (induction l arbitrary: pb r)
  case (Cons itr rest)
  obtain ok pb1 where add: "nack_pid_bid_add (np_seq itr) pb = (ok, pb1)"
    by fastforce
  define pb2 where "pb2 = (if ok then pb1 else snd (nack_pid_bid_add (np_seq itr) (nack_pid_bid_reset pb1)))"
  define r2 where "r2 = (if ok then r else rc_emit (On_nack (rc_ssrc r) (nb_pid pb1) (nb_bid pb1)) r)"
  define r3 where "r3 = (let cnt = np_count itr + 1 in
       if cnt \<ge> rc_nack_max_count r2 then remove_nack (np_seq itr) r2
       else case map_find (rc_nack_packs r2) (np_seq itr) of None \<Rightarrow> r2
            | Some nack \<Rightarrow> r2\<lparr>rc_nack_packs := map_write (np_seq itr) (nack\<lparr>np_count := cnt\<rparr>) (rc_nack_packs r2)\<rparr>)"
  have loop: "process_nack_loop rest pb2 r3 = (pb', r')"
    using Cons.prems(1) unfolding r3_def r2_def pb2_def by (cases ok) (simp_all add: add Let_def split: if_splits)
  have "rc_events r3 = rc_events r2"
    by (auto simp: r3_def remove_nack_def Let_def split: option.splits)
  moreover have "reported (rc_events r2) \<union> nack_seqs pb2 = reported (rc_events r) \<union> insert (np_seq itr) (nack_seqs pb) \<and>
      (nb_has_pid pb2 \<or> nb_bid pb2 = 0)"
  proof (cases ok)
    case True
    then show ?thesis
      using nack_add_seqs [of "np_seq itr" pb pb1] add Cons.prems(2)
      by (auto simp: pb2_def r2_def nack_pid_bid_add_def Let_def split: if_splits)
  next
    case False
    then have "pb1 = pb" "nb_has_pid pb"
      using add by (auto simp: nack_pid_bid_add_def Let_def split: if_splits)
    then show ?thesis
      using False by (cases pb) (auto simp: pb2_def r2_def rc_emit_def reported_def nack_seqs_def nack_pid_bid_reset_def nack_pid_bid_add_def)
  qed
  ultimately show ?case
    using Cons.IH [OF loop] by auto
qed simp

text \<open>
  C28: with fewer than 1000 entries in the table of lost packets and no wait for a key frame, a
  round of process_nack reports exactly the packets of the table: the pairs of pid and bit mask
  it hands to the handler stand for their sequence numbers and no others, with bit i for pid +
  i. Otherwise it reports nothing, clears the table and asks for a reset.
\<close>

theorem process_nack_reports:
  assumes "process_nack now r = (n, r')"
  shows "if length (rc_nack_packs r) \<ge> 1000 \<or> rc_waiting_for_keyframe r
    then n = 0 \<and> rc_nack_packs r' = [] \<and> rc_reset r' \<and> reported (rc_events r') = reported (rc_events r)
    else reported (rc_events r') = reported (rc_events r) \<union> np_seq ` snd ` set (rc_nack_packs r)"
proof (cases "length (rc_nack_packs r) \<ge> 1000 \<or> rc_waiting_for_keyframe r")
  case True
  then show ?thesis
    using assms by (auto simp: process_nack_def Let_def nack_list_def clear_nack_def rc_emit_def
        reported_def split: if_splits)
next
  case False
  obtain pb r1 where l: "process_nack_loop (nack_list r) nack_pid_bid_new r = (pb, r1)"
    by fastforce
  have "reported (rc_events r1) \<union> nack_seqs pb = reported (rc_events r) \<union> np_seq ` set (nack_list r)"
    using process_nack_loop_reports [OF l] by (simp add: nack_pid_bid_new_def nack_seqs_def)
  moreover have "r' = (if nb_has_pid pb then rc_emit (On_nack (rc_ssrc r1) (nb_pid pb) (nb_bid pb)) r1 else r1)"
    using assms l False by (simp add: process_nack_def Let_def nack_list_def)
  moreover have "\<lparr>nb_pid = nb_pid pb, nb_bid = nb_bid pb, nb_has_pid = True\<rparr> = pb" if "nb_has_pid pb"
    using that by simp
  ultimately show ?thesis
    using False by (auto simp: rc_emit_def reported_def nack_list_def nack_seqs_def image_image)
qed

theorem process_nack_reports_witness:
  "reported (rc_events (snd (process_nack 0
     ((receiver_new 1 False)\<lparr>rc_nack_packs := [(5, \<lparr>np_ssrc = 1, np_seq = 5, np_count = 1\<rparr>)]\<rparr>)))) = {5}"
  using process_nack_reports [of 0 "(receiver_new 1 False)\<lparr>rc_nack_packs := [(5, \<lparr>np_ssrc = 1, np_seq = 5, np_count = 1\<rparr>)]\<rparr>",
    OF prod.collapse [symmetric]]
  by (simp add: receiver_new_def reported_def)

end
