(* ===== verification/H264_Receiver.thy ===== *)
theory H264_Receiver
  imports Rtp_Receiver H264
begin

text \<open>
  The H.264 depacketizer, \<open>rtpx/receivers/receiver_video_h264.cpp\<close>: it takes complete frames out of
  the packet buffer of the base class, drops frames that stay incomplete for too long, and turns the
  payload formats of RFC 6184 back into NAL units behind start codes.
\<close>

unbundle bit_operations_syntax

section \<open>Frames in the packet buffer\<close>

text \<open>
  The scan of \<open>find_a_frame\<close> from \<open>i\<close>: the positions up to the packet with the marker bit and the
  sequence number behind it, or \<open>None\<close> where the function returns \<open>false\<close>.
\<close>

function frame_scan :: "rtp_packet option list \<Rightarrow> u16 \<Rightarrow> u16 \<Rightarrow> (nat list \<times> u16) option" where
  "frame_scan packs i e =
     (if sn_ahead_of 0 i e then None
      else
        let pos = unat i mod 512 in
        case packs ! pos of
          None \<Rightarrow> None
        | Some pkt \<Rightarrow>
            if rh_m (rk_header pkt) = 1 then Some ([pos], i + 1)
            else case frame_scan packs (i + 1) e of
                   None \<Rightarrow> None
                 | Some (idx_lst, j) \<Rightarrow> Some (pos # idx_lst, j))"
  by pat_completeness auto
termination
  by (relation "measure (\<lambda>(packs, i, e). unat (e - i + 1))") (auto simp: sn_walk)

declare frame_scan.simps [simp del]

definition seqs_invalid :: "receiver \<Rightarrow> bool" where
  "seqs_invalid this \<longleftrightarrow> rc_begin_seq this < 0 \<or> rc_end_seq this < 0 \<or>
     sn_ahead_of 0 (word_of_int (rc_begin_seq this)) (word_of_int (rc_end_seq this))"

text \<open>\<open>pkts.push_back(recv_packs_[idx]); recv_packs_[idx].reset();\<close> for every index.\<close>

fun take_packs :: "nat list \<Rightarrow> rtp_packet option list \<Rightarrow> rtp_packet option list \<times> rtp_packet option list" where
  "take_packs [] packs = ([], packs)"
| "take_packs (idx # idx_lst) packs =
     (case take_packs idx_lst (packs[idx := None]) of (pkts, packs') \<Rightarrow> (packs ! idx # pkts, packs'))"

definition find_a_frame :: "int \<Rightarrow> receiver \<Rightarrow> (rtp_packet option list \<times> receiver) option" where
  "find_a_frame now this =
     (if seqs_invalid this then None
      else case frame_scan (rc_recv_packs this) (word_of_int (rc_begin_seq this)) (word_of_int (rc_end_seq this)) of
             None \<Rightarrow> None
           | Some (idx_lst, i) \<Rightarrow>
               let (pkts, packs) = take_packs idx_lst (rc_recv_packs this)
               in Some (pkts, this\<lparr>rc_begin_seq := uint i, rc_frame_begin_ts := now, rc_recv_packs := packs\<rparr>))"

function drop_loop :: "int \<Rightarrow> u16 \<Rightarrow> receiver \<Rightarrow> (u16 \<times> receiver) cxx" where
  "drop_loop now i this =
     (if sn_ahead_of 0 i (word_of_int (rc_end_seq this)) then Some (i, this)
      else
        let idx = unat i mod 512 in
        case rc_recv_packs this ! idx of
          None \<Rightarrow> drop_loop now (i + 1) this
        | Some pkt \<Rightarrow> do {
            b \<leftarrow> rd8 (rk_payload_data pkt) 0;
            let this = (if nal_nri (nal_header_set b) > 0 then this\<lparr>rc_waiting_for_keyframe := True\<rparr> else this);
            let this = this\<lparr>rc_recv_packs := (rc_recv_packs this)[idx := None]\<rparr>;
            if rh_m (rk_header pkt) = 1 then Some (i + 1, this\<lparr>rc_frame_begin_ts := now\<rparr>)
            else drop_loop now (i + 1) this })"
  by pat_completeness auto
termination
  by (relation "measure (\<lambda>(now, i, this). unat (word_of_int (rc_end_seq this) - i + 1))") (auto simp: sn_walk split: if_splits)

declare drop_loop.simps [simp del]

definition check_for_drop :: "int \<Rightarrow> receiver \<Rightarrow> receiver cxx" where
  "check_for_drop now this =
     (if seqs_invalid this \<or> \<not> is_timeout now this then Some this
      else do {
        (i, this) \<leftarrow> drop_loop now (word_of_int (rc_begin_seq this)) this;
        Some (this\<lparr>rc_begin_seq := uint i\<rparr>) })"

section \<open>Depacketization\<close>

definition key_nal :: "byte \<Rightarrow> bool" where
  "key_nal t \<longleftrightarrow> t = 5 \<or> t = 7 \<or> t = 8"

text \<open>The frame is delivered, or counted as dropped while a key frame is awaited.\<close>

definition deliver_frame :: "av_frame \<Rightarrow> receiver \<Rightarrow> av_frame \<times> receiver" where
  "deliver_frame frame this =
     (if \<not> rc_waiting_for_keyframe this then
        case invoke_rtp_frame frame this of
          (frame, this) \<Rightarrow> (frame, this\<lparr>rc_frames_received := rc_frames_received this + 1\<rparr>)
      else (frame, this\<lparr>rc_frames_droped := rc_frames_droped this + 1\<rparr>))"

definition av_frame_zero :: av_frame where
  "av_frame_zero = \<lparr>af_pts = 0, af_dts = 0, af_data = [], af_duration = 0\<rparr>"

text \<open>
  The loops over the units of an aggregation packet. \<open>hdr\<close> is the length of the fields before a
  unit: 2 for STAP, 5 and 6 for the two kinds of MTAP, whose units add an offset to the time stamp
  \<open>ts\<close>. The type tested for a key frame is that of the packet, \<open>t\<close>, and not that of the unit, whose
  first byte \<open>*nal_data\<close> is read all the same.
\<close>

definition ts_offset :: "nat \<Rightarrow> bytes \<Rightarrow> int cxx" where
  "ts_offset hdr buf =
     (if hdr = 5 then do { a \<leftarrow> rd8 buf 3; b \<leftarrow> rd8 buf 4; Some (uint a * 256 + uint b) }
      else if hdr = 6 then do { a \<leftarrow> rd8 buf 3; b \<leftarrow> rd8 buf 4; c \<leftarrow> rd8 buf 5; Some (uint a * 65536 + uint b * 256 + uint c) }
      else Some 0)"

function unit_loop :: "nat \<Rightarrow> byte \<Rightarrow> int \<Rightarrow> bytes \<Rightarrow> av_frame \<Rightarrow> receiver \<Rightarrow> receiver cxx" where
  "unit_loop hdr t ts buf frame this =
     (if hdr = 0 \<or> length buf < hdr then Some this
      else do {
        nal_size \<leftarrow> rd16 buf 0;
        off \<leftarrow> ts_offset hdr buf;
        if unat nal_size > length buf - hdr then Some this
        else do {
          _ \<leftarrow> rd8 buf hdr;
          nal_data \<leftarrow> rd_range buf hdr (hdr + unat nal_size);
          let this = (if key_nal t then this\<lparr>rc_waiting_for_keyframe := False\<rparr> else this);
          let frame = frame\<lparr>af_pts := ts + off, af_dts := ts + off, af_data := [0, 0, 0, 1] @ nal_data\<rparr>;
          let d = deliver_frame frame this;
          unit_loop hdr t ts (drop (hdr + unat nal_size) buf) (fst d) (snd d) } })"
  by pat_completeness auto
termination
  by (relation "measure (\<lambda>(hdr, t, ts, buf, frame, this). length buf)") auto

declare unit_loop.simps [simp del]

text \<open>
  The loop over the packets of a frame. \<open>first\<close> is the time stamp of \<open>first_pkt\<close>, \<open>fu\<close> the string
  \<open>fu_frame_data\<close>. A FU-B payload of less than four bytes makes the unsigned size negative: the
  append does not return normally. A null pointer among the packets is dereferenced.
\<close>

fun combin_loop ::
  "rtp_packet option list \<Rightarrow> u32 option \<Rightarrow> bytes \<Rightarrow> receiver \<Rightarrow> (bool \<times> u32 option \<times> bytes \<times> receiver) cxx" where
  "combin_loop [] first fu this = Some (True, first, fu, this)"
| "combin_loop (None # pkts) first fu this = None"
| "combin_loop (Some pkt # pkts) first fu this =
     (let payload = rk_payload_data pkt; ts = rh_ts (rk_header pkt) in
      if length payload < 2 then combin_loop pkts first fu this
      else do {
        b0 \<leftarrow> rd8 payload 0;
        let fui = nal_header_set b0;
        if nal_f fui \<noteq> 0 then combin_loop pkts first fu this
        else if nal_t fui \<le> 23 then do {
          let this = (if key_nal (nal_t fui) then this\<lparr>rc_waiting_for_keyframe := False\<rparr> else this);
          let frame = av_frame_zero\<lparr>af_pts := uint ts, af_dts := uint ts, af_data := [0, 0, 0, 1] @ payload\<rparr>;
          combin_loop pkts first fu (snd (deliver_frame frame this)) }
        else if nal_t fui = 24 then do {
          this \<leftarrow> unit_loop 2 (nal_t fui) (uint ts) (drop 1 payload) av_frame_zero this;
          combin_loop pkts first fu this }
        else if nal_t fui = 25 \<or> nal_t fui = 26 \<or> nal_t fui = 27 then do {
          _ \<leftarrow> rd16 payload 1;
          this \<leftarrow> unit_loop (if nal_t fui = 25 then 2 else if nal_t fui = 26 then 5 else 6)
                    (nal_t fui) (uint ts) (drop 3 payload) av_frame_zero this;
          combin_loop pkts first fu this }
        else if nal_t fui = 28 \<or> nal_t fui = 29 then do {
          b1 \<leftarrow> rd8 payload 1;
          let fuh = fu_header_set b1;
          let (first, fu) =
            (if fu_s fuh = 1
             then (Some ts, [0, 0, 0, 1] @ [nal_header_get \<lparr>nal_f = nal_f fui, nal_nri = nal_nri fui, nal_t = fu_t fuh\<rparr>])
             else (first, fu));
          if first = None then combin_loop pkts first fu this
          else do {
            let skip = (if nal_t fui = 29 then 4 else 2);
            d \<leftarrow> rd_range payload skip (length payload);
            combin_loop pkts first (fu @ d) this } }
        else Some (False, first, fu, this) })"

definition combin_frame :: "rtp_packet option list \<Rightarrow> receiver \<Rightarrow> (bool \<times> receiver) cxx" where
  "combin_frame pkts this =
     (if pkts = [] then Some (False, this)
      else do {
        (ok, first, fu, this) \<leftarrow> combin_loop pkts None [] this;
        if \<not> ok then Some (False, this)
        else if length fu > 0 then do {
          ts \<leftarrow> first;
          b \<leftarrow> rd8 fu 4;
          let frame = av_frame_zero\<lparr>af_pts := uint ts, af_dts := uint ts, af_data := fu\<rparr>;
          let this = (if key_nal (nal_t (nal_header_set b)) then this\<lparr>rc_waiting_for_keyframe := False\<rparr> else this);
          Some (True, snd (deliver_frame frame this)) }
        else Some (True, this) })"

section \<open>What depacketization leaves alone\<close>

definition rc_window :: "receiver \<Rightarrow> int \<times> int \<times> rtp_packet option list \<times> bool \<times> int \<times> int" where
  "rc_window this = (rc_begin_seq this, rc_end_seq this, rc_recv_packs this, rc_reset this,
     rc_frame_begin_ts this, rc_delay this)"

lemma window_upd [simp]:
  "rc_window (this\<lparr>rc_waiting_for_keyframe := w\<rparr>) = rc_window this"
  "rc_window (this\<lparr>rc_frame_timestamp := ft\<rparr>) = rc_window this"
  "rc_window (this\<lparr>rc_frames_received := k\<rparr>) = rc_window this"
  "rc_window (this\<lparr>rc_frames_droped := k\<rparr>) = rc_window this"
  "rc_window (rc_emit e this) = rc_window this"
  by (simp_all add: rc_window_def rc_emit_def)

lemma window_deliver [simp]: "rc_window (snd (deliver_frame frame this)) = rc_window this"
  by (simp add: deliver_frame_def invoke_rtp_frame_def Let_def)

lemma window_unit_loop: "unit_loop hdr t ts buf frame this = Some this' \<Longrightarrow> rc_window this' = rc_window this"
proof (induction "length buf" arbitrary: buf frame this rule: less_induct)
  case less
  from less.prems show ?case
    by (subst (asm) unit_loop.simps) (auto simp: Let_def bind_eq_Some_conv dest!: less.hyps [rotated] split: if_splits)
qed

lemma window_combin_loop:
  "combin_loop pkts first fu this = Some (ok, first', fu', this') \<Longrightarrow> rc_window this' = rc_window this"
proof (induction pkts arbitrary: first fu this)
  case (Cons p pkts)
  show ?case
  proof (cases p)
    case (Some pkt)
    from Cons.prems show ?thesis
      unfolding Some combin_loop.simps Let_def
      by (auto simp: bind_eq_Some_conv dest!: Cons.IH window_unit_loop split: if_splits prod.splits)
  qed (use Cons.prems in simp)
qed simp

lemma window_combin_frame: "combin_frame pkts this = Some (ok, this') \<Longrightarrow> rc_window this' = rc_window this"
  by (auto simp: combin_frame_def bind_eq_Some_conv Let_def dest!: window_combin_loop split: if_splits)

section \<open>Insertion of a packet\<close>

lemma frame_scan_progress:
  "frame_scan packs i e = Some (idx_lst, j) \<Longrightarrow> unat (e - j + 1) < unat (e - i + 1)"
proof (induction packs i e arbitrary: idx_lst j rule: frame_scan.induct)
  case (1 packs i e)
  note w = sn_walk [of i e]
  show ?case
    using "1.prems" w "1.IH"
    by (subst (asm) frame_scan.simps) (fastforce simp: Let_def split: if_splits option.splits)
qed

lemma find_a_frame_progress:
  assumes "find_a_frame now this = Some (pkts, this')"
  shows "unat (word_of_int (rc_end_seq this') - word_of_int (rc_begin_seq this') + 1 :: u16) <
    unat (word_of_int (rc_end_seq this) - word_of_int (rc_begin_seq this) + 1 :: u16)"
  using assms by (auto simp: find_a_frame_def Let_def split: if_splits option.splits prod.splits dest!: frame_scan_progress)

function frames_loop :: "int \<Rightarrow> receiver \<Rightarrow> receiver cxx" where
  "frames_loop now this =
     (case find_a_frame now this of
        None \<Rightarrow> Some this
      | Some (pkts, this) \<Rightarrow> do { (_, this) \<leftarrow> combin_frame pkts this; frames_loop now this })"
  by pat_completeness auto
termination
  by (relation "measure (\<lambda>(now, this). unat (word_of_int (rc_end_seq this) - word_of_int (rc_begin_seq this) + 1 :: u16))")
    (auto dest!: find_a_frame_progress window_combin_frame simp: rc_window_def)

declare frames_loop.simps [simp del]

definition h264_insert_packet :: "int \<Rightarrow> rtp_packet \<Rightarrow> receiver \<Rightarrow> (bool \<times> receiver) cxx" where
  "h264_insert_packet now pkt this =
     (case receiver_insert_packet now pkt this of
        (ok, this) \<Rightarrow>
          if \<not> ok then Some (False, this)
          else do {
            this \<leftarrow> frames_loop now this;
            this \<leftarrow> check_for_drop now this;
            Some (True, this) })"

end
