(* ===== verification/Frame_Window.thy ===== *)
theory Frame_Window
  imports H264_Receiver
begin

text \<open>
  What the packet buffer of a receiver does with the packets of one frame that arrive in order. The
  locale \<open>frame_receiver\<close> is the interface between the buffer and a depacketizer: the insertion loop
  calls \<open>combin\<close> for every complete frame, which leaves the window alone, and \<open>check\<close>, which does
  nothing before the time limit.
\<close>

section \<open>The ring buffer\<close>

definition slot :: "u16 \<Rightarrow> nat" where
  "slot s = unat s mod 512"

lemma slot_less [simp]: "slot s < 512"
  by (simp add: slot_def)

lemma slot_add: "slot (s + word_of_nat k) = (unat s + k) mod 512"
proof -
  have "(unat s + k mod 65536) mod 512 = (unat s + (k mod 65536) mod 512) mod 512"
    by (simp only: mod_add_right_eq)
  also have "\<dots> = (unat s + k) mod 512"
    by (simp add: mod_mod_cancel mod_add_right_eq)
  finally show ?thesis
    by (simp add: slot_def unat_word_ariths unat_of_nat mod_mod_cancel)
qed

lemma add_mod_inj:
  assumes "i \<le> j" "j < (n :: nat)" "(a + i) mod n = (a + j) mod n"
  shows "i = j"
proof -
  have "n dvd j - i"
    using mod_eq_dvd_iff_nat [of "a + i" "a + j" n] assms by simp
  then show ?thesis
    using assms(1,2) nat_dvd_not_less [of "j - i" n] by linarith
qed

lemma slot_inj:
  "i < 512 \<Longrightarrow> j < 512 \<Longrightarrow> slot (s + word_of_nat i) = slot (s + word_of_nat j) \<Longrightarrow> i = j"
  unfolding slot_add using add_mod_inj [of i j 512 "unat s"] add_mod_inj [of j i 512 "unat s"]
  by (cases "i \<le> j") simp_all

text \<open>The buffer that holds consecutive packets from sequence number \<open>s\<close> on.\<close>

fun fill :: "u16 \<Rightarrow> rtp_packet list \<Rightarrow> rtp_packet option list \<Rightarrow> rtp_packet option list" where
  "fill s [] packs = packs"
| "fill s (p # ps) packs = fill (s + 1) ps (packs[slot s := Some p])"

lemma length_fill [simp]: "length (fill s ps packs) = length packs"
  by (induction s ps packs rule: fill.induct) auto

lemma fill_append: "fill s (ps @ [p]) packs = (fill s ps packs)[slot (s + word_of_nat (length ps)) := Some p]"
  by (induction s ps packs rule: fill.induct) (auto simp: add.assoc)

lemma fill_nth:
  assumes "length ps \<le> 512" "length packs = 512"
  shows "i < length ps \<Longrightarrow> fill s ps packs ! slot (s + word_of_nat i) = Some (ps ! i)"
    and "(\<And>i. i < length ps \<Longrightarrow> j \<noteq> slot (s + word_of_nat i)) \<Longrightarrow> fill s ps packs ! j = packs ! j"
proof -
  have "(i < length ps \<longrightarrow> fill s ps packs ! slot (s + word_of_nat i) = Some (ps ! i)) \<and>
    ((\<forall>i < length ps. j \<noteq> slot (s + word_of_nat i)) \<longrightarrow> fill s ps packs ! j = packs ! j)"
    using assms
  proof (induction ps arbitrary: i j rule: rev_induct)
    case (snoc p ps)
    have "slot (s + word_of_nat i) \<noteq> slot (s + word_of_nat (length ps))" if "i < length ps"
      using slot_inj [of i "length ps" s] that snoc.prems by auto
    then show ?case
      using snoc.IH [of i j] snoc.prems
      by (auto simp: fill_append nth_append less_Suc_eq nth_list_update simp del: slot_add)
  qed simp
  then show "i < length ps \<Longrightarrow> fill s ps packs ! slot (s + word_of_nat i) = Some (ps ! i)"
    "(\<And>i. i < length ps \<Longrightarrow> j \<noteq> slot (s + word_of_nat i)) \<Longrightarrow> fill s ps packs ! j = packs ! j"
    by blast+
qed

lemma take_packs_fst:
  "distinct idx_lst \<Longrightarrow> fst (take_packs idx_lst packs) = map (\<lambda>i. packs ! i) idx_lst"
proof (induction idx_lst arbitrary: packs)
  case (Cons idx idx_lst)
  then have "map ((!) (packs[idx := None])) idx_lst = map ((!) packs) idx_lst"
    by (intro map_cong refl nth_list_update_neq) auto
  then show ?case
    using Cons by (simp add: case_prod_beta)
qed simp

lemma take_packs_snd:
  "length (snd (take_packs idx_lst packs)) = length packs \<and>
   (j < length packs \<longrightarrow> snd (take_packs idx_lst packs) ! j = (if j \<in> set idx_lst then None else packs ! j))"
  by (induction idx_lst arbitrary: packs) (auto simp: case_prod_beta nth_list_update)

section \<open>The scan for a frame\<close>

abbreviation marked :: "rtp_packet \<Rightarrow> bool" where
  "marked p \<equiv> rh_m (rk_header p) = 1"

lemma word_of_nat_diff: "i \<le> j \<Longrightarrow> s + word_of_nat i + word_of_nat (j - i) = (s + word_of_nat j :: u16)"
  by (metis add.assoc le_add_diff_inverse of_nat_add)

lemma walk_in: "i \<le> j \<Longrightarrow> j < 512 \<Longrightarrow> \<not> sn_ahead_of 0 (s + word_of_nat i) (s + word_of_nat j)"
  using sn_not_ahead_of_add [of "j - i" "s + word_of_nat i"] by (simp add: word_of_nat_diff)

lemma walk_out: "sn_ahead_of 0 (s + word_of_nat (Suc j)) (s + word_of_nat j)"
  using sn_ahead_of_add [of 1 "s + word_of_nat j"] by (simp add: ac_simps)

lemma frame_scan_consecutive:
  assumes "\<And>i. i < length ps \<Longrightarrow> packs ! slot (s + word_of_nat i) = Some (ps ! i)"
    "length ps \<le> 512" "i \<le> length ps" "ps \<noteq> []" "\<And>j. j < length ps - 1 \<Longrightarrow> \<not> marked (ps ! j)"
  shows "frame_scan packs (s + word_of_nat i) (s + word_of_nat (length ps - 1)) =
    (if marked (last ps) \<and> i < length ps
     then Some (map (\<lambda>i. slot (s + word_of_nat i)) [i..<length ps], s + word_of_nat (length ps)) else None)"
  using assms(3)
proof (induction "length ps - i" arbitrary: i)
  case 0
  then have "i = Suc (length ps - 1)"
    using assms(4) by (cases ps) auto
  then show ?case
    using walk_out [of s "length ps - 1"] assms(4) by (cases ps; subst frame_scan.simps) simp_all
next
  case (Suc k)
  then have i: "i < length ps" by simp
  note IH = Suc.hyps(1) [of "Suc i"]
  have step: "frame_scan packs (s + word_of_nat i) (s + word_of_nat (length ps - 1)) =
      (if marked (ps ! i) then Some ([slot (s + word_of_nat i)], s + word_of_nat (Suc i))
       else case frame_scan packs (s + word_of_nat (Suc i)) (s + word_of_nat (length ps - 1)) of
          None \<Rightarrow> None | Some (l, j) \<Rightarrow> Some (slot (s + word_of_nat i) # l, j))"
    using walk_in [of i "length ps - 1" s] i assms(1) [OF i] assms(2)
    by (subst frame_scan.simps) (simp add: Let_def slot_def [symmetric] ac_simps)
  show ?case
  proof (cases "Suc i = length ps")
    case True
    then have "last ps = ps ! i"
      using assms(4) by (metis diff_Suc_1 last_conv_nth)
    moreover have "[i..<length ps] = [i]"
      unfolding True [symmetric] by simp
    ultimately show ?thesis
      using True IH Suc.hyps(2) i unfolding step by simp
  next
    case False
    then have "\<not> marked (ps ! i)" "Suc i < length ps"
      using i assms(5) [of i] by auto
    then show ?thesis
      using IH Suc.hyps(2) unfolding step by (simp add: upt_conv_Cons)
  qed
qed

lemma not_ahead_512:
  assumes "k \<le> 256"
  shows "\<not> sn_ahead_of 512 s (s + word_of_nat k)"
proof (cases "s \<le> s + word_of_nat k")
  case True
  then show ?thesis
    using assms by (simp add: sn_ahead_of_512 unat_of_nat)
next
  case False
  let ?e = "s + word_of_nat k"
  have "k \<noteq> 0"
    using False by (cases k) auto
  then have u: "unat (- word_of_nat k :: u16) = 65536 - k" "unat (512 + word_of_nat k :: u16) = 512 + k"
    using assms unat_sub_if' [of 0 "word_of_nat k :: u16"] by (simp_all add: unat_of_nat unat_word_ariths)
  then have m: "min (512 + word_of_nat k) (- word_of_nat k :: u16) \<noteq> 256" "\<not> (- word_of_nat k :: u16) \<le> 256"
    using assms by (auto simp: min_def word_unat_eq_iff word_le_nat_alt)
  have "?e < s" "?e \<le> s"
    using False by auto
  then show ?thesis
    using False m by (simp add: sn_ahead_of_def sn_ahead_or_at_def sn_forward_diff_def sn_min_diff_def sn_reverse_diff_def)
qed

section \<open>One frame through the window\<close>

text \<open>Nothing is buffered and \<open>seq\<close> is expected next, or the buffer starts over with the next packet.\<close>

definition rc_ready :: "u16 \<Rightarrow> receiver \<Rightarrow> bool" where
  "rc_ready seq r \<longleftrightarrow> rc_delay r = 1000 \<and>
     (rc_reset r \<or> rc_begin_seq r = uint seq \<and> rc_end_seq r = uint (seq - 1) \<and> rc_recv_packs r = replicate 512 None)"

text \<open>The packets \<open>ps\<close>, consecutive from \<open>seq\<close>, are in the buffer since the time \<open>t\<close>.\<close>

definition rc_holds :: "u16 \<Rightarrow> rtp_packet list \<Rightarrow> int \<Rightarrow> receiver \<Rightarrow> bool" where
  "rc_holds seq ps t r \<longleftrightarrow>
     rc_window r = (uint seq, uint (seq + word_of_nat (length ps) - 1), fill seq ps (replicate 512 None), False, t, 1000)"

text \<open>What the statistics of the base class change is nothing the window or the application sees.\<close>

definition rc_visible :: "receiver \<Rightarrow> rc_event list \<times> bool \<times> u32" where
  "rc_visible r = (rc_events r, rc_waiting_for_keyframe r, rc_frame_timestamp r)"

lemma insert_holds:
  assumes "rc_holds seq ps t r" "rh_seq (rk_header p) = seq + word_of_nat (length ps)" "ps \<noteq> []" "length ps \<le> 256"
  shows "rc_holds seq (ps @ [p]) t (snd (receiver_insert_packet now p r)) \<and>
    rc_visible (snd (receiver_insert_packet now p r)) = rc_visible r"
proof -
  let ?k = "word_of_nat (length ps) :: u16" and ?s = "rh_seq (rk_header p)"
  have w: "rc_begin_seq r = uint seq" "rc_end_seq r = uint (seq + ?k - 1)" "rc_recv_packs r = fill seq ps (replicate 512 None)"
    "\<not> rc_reset r" "rc_frame_begin_ts r = t" "rc_delay r = 1000"
    using assms(1) by (simp_all add: rc_holds_def rc_window_def)
  have n1: "\<not> sn_ahead_of 0 seq ?s"
    using sn_not_ahead_of_add [of "length ps" seq] assms by simp
  have n2: "\<not> sn_ahead_of 0 (seq + ?k - 1) ?s" "sn_forward_diff 0 (seq + ?k - 1) ?s = 1"
    using sn_not_ahead_of_add [of 1 "seq + ?k - 1"] assms by (simp_all add: sn_forward_diff_def)
  have n3: "\<not> sn_ahead_of 512 seq ?s"
    using not_ahead_512 [of "length ps" seq] assms by simp
  show ?thesis
    using w n1 n2 n3 assms(2)
    by (simp add: receiver_insert_packet_def Let_def rc_holds_def rc_window_def rc_visible_def fill_append slot_def)
qed

lemma insert_ready:
  assumes "rc_ready (rh_seq (rk_header p)) r"
  shows "rc_holds (rh_seq (rk_header p)) [p] (if rc_reset r then now else rc_frame_begin_ts r)
      (snd (receiver_insert_packet now p r)) \<and> rc_visible (snd (receiver_insert_packet now p r)) = rc_visible r"
proof -
  let ?s = "rh_seq (rk_header p)"
  have n1: "\<not> sn_ahead_of 0 ?s ?s" "\<not> sn_ahead_of 512 ?s ?s" "sn_forward_diff 0 ?s ?s = 0"
    by (simp_all add: sn_ahead_of_def sn_forward_diff_def)
  have n2: "\<not> sn_ahead_of 0 (?s - 1) ?s" "sn_forward_diff 0 (?s - 1) ?s = 1"
    using sn_not_ahead_of_add [of 1 "?s - 1"] by (simp_all add: sn_forward_diff_def)
  show ?thesis
    using n1 n2 assms
    by (cases "rc_reset r") (simp_all add: receiver_insert_packet_def Let_def rc_ready_def rc_holds_def rc_window_def rc_visible_def slot_def)
qed

lemma holds_valid:
  assumes "rc_holds seq ps t r" "ps \<noteq> []" "length ps \<le> 512"
  shows "\<not> seqs_invalid r" "word_of_int (rc_begin_seq r) = seq"
    "word_of_int (rc_end_seq r) = seq + word_of_nat (length ps - 1)"
proof -
  have e: "seq + word_of_nat (length ps) - 1 = seq + word_of_nat (length ps - 1)"
    using assms(2) by (simp add: of_nat_diff Suc_leI)
  then show "word_of_int (rc_begin_seq r) = seq" "word_of_int (rc_end_seq r) = seq + word_of_nat (length ps - 1)"
    using assms(1) by (simp_all add: rc_holds_def rc_window_def)
  then show "\<not> seqs_invalid r"
    using assms walk_in [of 0 "length ps - 1" seq] by (simp add: seqs_invalid_def rc_holds_def rc_window_def e)
qed

lemma find_a_frame_holds:
  assumes "rc_holds seq ps t r" "ps \<noteq> []" "length ps \<le> 512" "\<And>j. j < length ps - 1 \<Longrightarrow> \<not> marked (ps ! j)"
  shows "find_a_frame now r =
    (if marked (last ps)
     then Some (map Some ps, r\<lparr>rc_begin_seq := uint (seq + word_of_nat (length ps)), rc_frame_begin_ts := now,
                 rc_recv_packs := replicate 512 None\<rparr>)
     else None)"
proof -
  let ?P = "fill seq ps (replicate 512 None)" and ?I = "map (\<lambda>i. slot (seq + word_of_nat i)) [0..<length ps]"
  have P: "rc_recv_packs r = ?P"
    using assms(1) by (simp add: rc_holds_def rc_window_def)
  note nth = fill_nth [OF assms(3), of "replicate 512 None"]
  have "frame_scan ?P seq (seq + word_of_nat (length ps - 1)) =
      (if marked (last ps) then Some (?I, seq + word_of_nat (length ps)) else None)"
    using frame_scan_consecutive [of ps ?P seq 0] nth(1) assms by simp
  moreover have d: "distinct ?I"
    using slot_inj assms(3) by (auto simp: distinct_map intro!: inj_onI)
  have "fst (take_packs ?I ?P) = map Some ps"
    unfolding take_packs_fst [OF d] using nth(1) by (intro nth_equalityI) auto
  moreover have "snd (take_packs ?I ?P) = replicate 512 None"
  proof (rule nth_equalityI)
    show "length (snd (take_packs ?I ?P)) = length (replicate 512 None)"
      using take_packs_snd [of ?I ?P] by simp
    fix j assume j: "j < length (snd (take_packs ?I ?P))"
    then have "snd (take_packs ?I ?P) ! j = (if j \<in> set ?I then None else ?P ! j)" "j < 512"
      using take_packs_snd [of ?I ?P j] by simp_all
    then show "snd (take_packs ?I ?P) ! j = replicate 512 None ! j"
      using nth(2) [of j seq] by (cases "j \<in> set ?I") (simp_all, force)
  qed
  ultimately show ?thesis
    using holds_valid [OF assms(1-3)] P by (simp add: find_a_frame_def case_prod_beta)
qed

lemma find_a_frame_empty:
  assumes "rc_begin_seq r = uint (s :: u16)" "rc_end_seq r = uint (s - 1)"
  shows "seqs_invalid r" "find_a_frame now r = None"
  using assms sn_ahead_of_add [of 1 "s - 1"] by (simp_all add: seqs_invalid_def find_a_frame_def)

fun insert_all :: "(int \<Rightarrow> rtp_packet \<Rightarrow> receiver \<Rightarrow> (bool \<times> receiver) cxx) \<Rightarrow> (int \<times> rtp_packet) list \<Rightarrow> receiver \<Rightarrow> receiver cxx" where
  "insert_all ins [] r = Some r"
| "insert_all ins ((now, p) # rest) r = do { (_, r) \<leftarrow> ins now p r; insert_all ins rest r }"

lemma insert_all_append: "insert_all ins (xs @ ys) r = do { r \<leftarrow> insert_all ins xs r; insert_all ins ys r }"
proof (induction ins xs r rule: insert_all.induct)
  case (2 ins now p rest r)
  then show ?case
    by (cases "ins now p r") auto
qed simp

locale frame_receiver =
  fixes combin :: "rtp_packet option list \<Rightarrow> receiver \<Rightarrow> (bool \<times> receiver) cxx"
    and check :: "int \<Rightarrow> receiver \<Rightarrow> receiver cxx"
    and loop :: "int \<Rightarrow> receiver \<Rightarrow> receiver cxx"
    and ins :: "int \<Rightarrow> rtp_packet \<Rightarrow> receiver \<Rightarrow> (bool \<times> receiver) cxx"
  assumes combin_window: "combin pkts r = Some (ok, r') \<Longrightarrow> rc_window r' = rc_window r"
    and check_idle: "seqs_invalid r \<or> \<not> is_timeout now r \<Longrightarrow> check now r = Some r"
    and loop_eq: "loop now r =
      (case find_a_frame now r of None \<Rightarrow> Some r | Some (pkts, r) \<Rightarrow> do { (_, r) \<leftarrow> combin pkts r; loop now r })"
    and ins_eq: "ins now p r =
      do { r \<leftarrow> loop now (snd (receiver_insert_packet now p r)); r \<leftarrow> check now r; Some (True, r) }"
begin

lemma step_partial:
  assumes "rc_holds seq ps t (snd (receiver_insert_packet now p r))" "ps \<noteq> []" "length ps \<le> 512"
    "\<And>j. j < length ps \<Longrightarrow> \<not> marked (ps ! j)" "now < t + 1000000000"
  shows "ins now p r = Some (True, snd (receiver_insert_packet now p r))"
proof -
  let ?r = "snd (receiver_insert_packet now p r)"
  have "\<not> marked (last ps)"
    using assms(2,4) by (simp add: last_conv_nth)
  then have "find_a_frame now ?r = None"
    using find_a_frame_holds [OF assms(1-3), of now] assms(4) by simp
  moreover have "\<not> is_timeout now ?r"
    using assms(1,5) by (simp add: is_timeout_def rc_holds_def rc_window_def)
  ultimately show ?thesis
    using check_idle [of ?r now] by (simp add: ins_eq loop_eq [of now ?r])
qed

lemma step_final:
  assumes "rc_holds seq ps t (snd (receiver_insert_packet now p r))" "ps \<noteq> []" "length ps \<le> 512"
    "\<And>j. j < length ps - 1 \<Longrightarrow> \<not> marked (ps ! j)" "marked (last ps)"
  shows "\<exists>r1. rc_visible r1 = rc_visible (snd (receiver_insert_packet now p r)) \<and>
    rc_ready (seq + word_of_nat (length ps)) r1 \<and> \<not> rc_reset r1 \<and>
    ins now p r = do { (_, r2) \<leftarrow> combin (map Some ps) r1; Some (True, r2) }"
proof -
  let ?r = "snd (receiver_insert_packet now p r)"
  let ?r1 = "?r\<lparr>rc_begin_seq := uint (seq + word_of_nat (length ps)), rc_frame_begin_ts := now,
                 rc_recv_packs := replicate 512 None\<rparr>"
  have "loop now r2 = Some r2 \<and> check now r2 = Some r2" if "combin (map Some ps) ?r1 = Some (ok, r2)" for ok r2
  proof -
    have "rc_window r2 = rc_window ?r1"
      using that by (rule combin_window)
    then have "rc_begin_seq r2 = uint (seq + word_of_nat (length ps))"
      "rc_end_seq r2 = uint (seq + word_of_nat (length ps) - 1)"
      using assms(1) by (simp_all add: rc_window_def rc_holds_def)
    note e = find_a_frame_empty [OF this]
    then show ?thesis
      by (simp add: check_idle loop_eq [of now r2])
  qed
  then have "ins now p r = do { (_, r2) \<leftarrow> combin (map Some ps) ?r1; Some (True, r2) }"
    using find_a_frame_holds [OF assms(1-4), of now] assms(5)
    by (cases "combin (map Some ps) ?r1") (auto simp: ins_eq loop_eq [of now ?r])
  moreover have "rc_visible ?r1 = rc_visible ?r" "rc_ready (seq + word_of_nat (length ps)) ?r1" "\<not> rc_reset ?r1"
    using assms(1) by (simp_all add: rc_visible_def rc_ready_def rc_holds_def rc_window_def)
  ultimately show ?thesis by blast
qed

lemma insert_all_partial:
  assumes "rc_holds seq ps t r" "ps \<noteq> []" "length ps + length qs \<le> 257"
    "\<And>i. i < length qs \<Longrightarrow> rh_seq (rk_header (qs ! i)) = seq + word_of_nat (length ps + i)"
    "\<And>q. q \<in> set (ps @ qs) \<Longrightarrow> \<not> marked q" "length ts = length qs" "\<And>t'. t' \<in> set ts \<Longrightarrow> t' < t + 1000000000"
  shows "\<exists>r1. insert_all ins (zip ts qs) r = Some r1 \<and> rc_holds seq (ps @ qs) t r1 \<and> rc_visible r1 = rc_visible r"
  using assms
proof (induction qs arbitrary: ps ts r)
  case (Cons q qs)
  obtain now ts' where ts: "ts = now # ts'"
    using Cons.prems(6) by (cases ts) auto
  let ?r = "snd (receiver_insert_packet now q r)"
  have h: "rc_holds seq (ps @ [q]) t ?r \<and> rc_visible ?r = rc_visible r"
    using Cons.prems(1-3) Cons.prems(4) [of 0] by (intro insert_holds) auto
  moreover have "ins now q r = Some (True, ?r)"
    using Cons.prems h by (intro step_partial [of seq "ps @ [q]" t]) (auto simp: ts nth_append less_Suc_eq)
  moreover have "\<exists>r1. insert_all ins (zip ts' qs) ?r = Some r1 \<and> rc_holds seq ((ps @ [q]) @ qs) t r1 \<and> rc_visible r1 = rc_visible ?r"
  proof (rule Cons.IH)
    show "rh_seq (rk_header (qs ! i)) = seq + word_of_nat (length (ps @ [q]) + i)" if "i < length qs" for i
      using Cons.prems(4) [of "Suc i"] that by simp
  qed (use Cons.prems h in \<open>auto simp: ts\<close>)
  ultimately show ?case
    by (auto simp: ts)
qed simp

lemma frame_in_order:
  assumes "rc_ready seq r" "ps = qs @ [q]" "length ps \<le> 257"
    "\<And>i. i < length ps \<Longrightarrow> rh_seq (rk_header (ps ! i)) = seq + word_of_nat i"
    "\<And>p. p \<in> set qs \<Longrightarrow> \<not> marked p" "marked q" "length ts = length ps"
    "\<And>t'. t' \<in> set (butlast ts) \<Longrightarrow> t' < (if rc_reset r then hd ts else rc_frame_begin_ts r) + 1000000000"
  shows "\<exists>r1. rc_visible r1 = rc_visible r \<and> rc_ready (seq + word_of_nat (length ps)) r1 \<and> \<not> rc_reset r1 \<and>
    insert_all ins (zip ts ps) r = do { (_, r2) \<leftarrow> combin (map Some ps) r1; Some r2 }"
proof -
  obtain ts' now where ts: "ts = ts' @ [now]" "length ts' = length qs"
    using assms(2,7) by (cases ts rule: rev_cases) auto
  let ?t = "if rc_reset r then hd ts else rc_frame_begin_ts r" and ?n = "seq + word_of_nat (length ps)"
  have "\<exists>r1. insert_all ins (zip ts' qs) r = Some r1 \<and> rc_holds seq ps ?t (snd (receiver_insert_packet now q r1)) \<and>
      rc_visible (snd (receiver_insert_packet now q r1)) = rc_visible r"
  proof (cases qs)
    case Nil
    then have "rh_seq (rk_header q) = seq" "hd ts = now"
      using assms(2) assms(4) [of 0] ts by auto
    then show ?thesis
      using insert_ready [of q r now] assms(1) Nil assms(2) by (cases "rc_reset r") auto
  next
    case (Cons p qs')
    then obtain t0 ts'' where ts': "ts' = t0 # ts''" "length ts'' = length qs'"
      using ts(2) by (cases ts') auto
    have p: "rh_seq (rk_header p) = seq"
      using assms(4) [of 0] by (simp add: assms(2) Cons)
    let ?r = "snd (receiver_insert_packet t0 p r)"
    have h: "rc_holds seq [p] ?t ?r" "rc_visible ?r = rc_visible r"
      using insert_ready [of p r t0] assms(1) p ts ts' by auto
    have "ins t0 p r = Some (True, ?r)"
      using h(1) assms(5,8) by (intro step_partial [of seq "[p]" ?t]) (auto simp: Cons ts ts')
    moreover have "\<exists>r1. insert_all ins (zip ts'' qs') ?r = Some r1 \<and> rc_holds seq ([p] @ qs') ?t r1 \<and> rc_visible r1 = rc_visible ?r"
    proof (rule insert_all_partial [OF h(1)])
      show "rh_seq (rk_header (qs' ! i)) = seq + word_of_nat (length [p] + i)" if "i < length qs'" for i
        using assms(4) [of "Suc i"] that by (simp add: assms(2) Cons nth_append)
      show "t' < ?t + 1000000000" if "t' \<in> set ts''" for t'
        using assms(8) [of t'] that by (simp add: ts ts')
    qed (use assms(2,3,5) ts' in \<open>auto simp: Cons\<close>)
    ultimately obtain r1 where r1: "insert_all ins (zip ts' qs) r = Some r1" "rc_holds seq qs ?t r1" "rc_visible r1 = rc_visible r"
      using h(2) by (auto simp: Cons ts')
    then show ?thesis
      using insert_holds [OF r1(2), of q now] assms(2,3) assms(4) [of "length qs"] Cons by (auto simp: nth_append)
  qed
  then obtain r0 where r0: "insert_all ins (zip ts' qs) r = Some r0"
    "rc_holds seq ps ?t (snd (receiver_insert_packet now q r0))" "rc_visible (snd (receiver_insert_packet now q r0)) = rc_visible r"
    by blast
  have "\<exists>r1. rc_visible r1 = rc_visible (snd (receiver_insert_packet now q r0)) \<and> rc_ready ?n r1 \<and> \<not> rc_reset r1 \<and>
      ins now q r0 = do { (_, r2) \<leftarrow> combin (map Some ps) r1; Some (True, r2) }"
  proof (rule step_final [OF r0(2)])
    show "\<not> marked (ps ! j)" if "j < length ps - 1" for j
      using assms(5) that by (simp add: assms(2) nth_append)
  qed (use assms in auto)
  then obtain r1 where r1: "rc_visible r1 = rc_visible r" "rc_ready ?n r1" "\<not> rc_reset r1"
    "ins now q r0 = do { (_, r2) \<leftarrow> combin (map Some ps) r1; Some (True, r2) }"
    using r0(3) by auto
  moreover have "insert_all ins (zip ts ps) r = do { (_, r2) \<leftarrow> combin (map Some ps) r1; Some r2 }"
    using r0(1) r1(4) ts by (cases "combin (map Some ps) r1") (auto simp: assms(2) zip_append insert_all_append)
  ultimately show ?thesis by blast
qed

end

end
