(* ===== verification/H264_Transfer.thy ===== *)
theory H264_Transfer
  imports H264_Stream Frame_Window
begin

text \<open>
  The way of an H.264 access unit from \<open>send_frame\<close> to the frames the receiver hands to the
  application. A fragmented NAL unit is put together again; of several fragmented units of one access
  unit only the last is delivered, behind the units that fit a packet, because the receiver has one
  reassembly buffer and flushes it at the end of the access unit.
\<close>

unbundle bit_operations_syntax

interpretation h264: frame_receiver combin_frame check_for_drop frames_loop h264_insert_packet
proof
  show "rc_window r' = rc_window r" if "combin_frame pkts r = Some (ok, r')" for pkts r ok r'
    using that by (rule window_combin_frame)
  show "check_for_drop now r = Some r" if "seqs_invalid r \<or> \<not> is_timeout now r" for r now
    using that by (auto simp: check_for_drop_def)
  show "frames_loop now r = (case find_a_frame now r of None \<Rightarrow> Some r
      | Some (pkts, r) \<Rightarrow> do { (_, r) \<leftarrow> combin_frame pkts r; frames_loop now r })" for now r
    by (rule frames_loop.simps)
  show "h264_insert_packet now p r =
      do { r \<leftarrow> frames_loop now (snd (receiver_insert_packet now p r)); r \<leftarrow> check_for_drop now r; Some (True, r) }" for now p r
    by (simp add: h264_insert_packet_def receiver_insert_packet_def Let_def)
qed

section \<open>Headers\<close>

lemma nal_header_set_get:
  assumes "nal_f h < 2" "nal_nri h < 4" "nal_t h < 32"
  shows "nal_header_set (nal_header_get h) = h"
proof -
  have *: "take_bit 1 (nal_f h) = nal_f h" "take_bit 2 (nal_nri h) = nal_nri h" "take_bit 5 (nal_t h) = nal_t h"
    using assms by (simp_all only: byte_take_bit)
  let ?b = "push_bit 7 (take_bit 1 (nal_f h)) OR push_bit 5 (take_bit 2 (nal_nri h)) OR take_bit 5 (nal_t h)"
  have "drop_bit 7 (?b AND 0x80) = take_bit 1 (nal_f h)" "drop_bit 5 (?b AND 0x60) = take_bit 2 (nal_nri h)"
    "?b AND 0x1f = take_bit 5 (nal_t h)"
    by (rule byte_eqI; simp add: bit_simps)+
  then show ?thesis
    unfolding * by (simp add: nal_header_set_def nal_header_get_def)
qed

lemma nal_header_get_set: "nal_header_get (nal_header_set v) = v"
  unfolding nal_header_set_def nal_header_get_def nal_header_t.simps
  by (rule byte_eqI; simp add: bit_simps)

lemma byte_take_bit_less:
  "take_bit 1 (x :: byte) < 2" "take_bit 2 (x :: byte) < 4" "take_bit 5 (x :: byte) < 32"
  using take_bit_nat_less_exp [of 1 "unat x"] take_bit_nat_less_exp [of 2 "unat x"] take_bit_nat_less_exp [of 5 "unat x"]
  by (simp_all only: word_less_nat_alt unsigned_take_bit_eq) simp_all

lemma nal_header_range: "nal_f (nal_header_set v) < 2" "nal_nri (nal_header_set v) < 4" "nal_t (nal_header_set v) < 32"
proof -
  have "drop_bit 7 (v AND 0x80) = take_bit 1 (drop_bit 7 v)" "drop_bit 5 (v AND 0x60) = take_bit 2 (drop_bit 5 v)"
    "v AND 0x1f = take_bit 5 v"
    by (rule byte_eqI; simp add: bit_simps even_drop_bit_iff_not_bit)+
  then show "nal_f (nal_header_set v) < 2" "nal_nri (nal_header_set v) < 4" "nal_t (nal_header_set v) < 32"
    by (simp_all only: nal_header_set_def nal_header_t.simps byte_take_bit_less)
qed

lemma fu_header_set_get:
  assumes "fu_s h < 2" "fu_e h < 2" "fu_r h < 2" "fu_t h < 32"
  shows "fu_header_set (fu_header_get h) = h"
proof -
  have *: "take_bit 1 (fu_s h) = fu_s h" "take_bit 1 (fu_e h) = fu_e h" "take_bit 1 (fu_r h) = fu_r h" "take_bit 5 (fu_t h) = fu_t h"
    using assms by (simp_all only: byte_take_bit)
  let ?b = "push_bit 7 (take_bit 1 (fu_s h)) OR push_bit 6 (take_bit 1 (fu_e h)) OR push_bit 5 (take_bit 1 (fu_r h)) OR take_bit 5 (fu_t h)"
  have "drop_bit 7 (?b AND 0x80) = take_bit 1 (fu_s h)" "drop_bit 6 (?b AND 0x40) = take_bit 1 (fu_e h)"
    "drop_bit 5 (?b AND 0x20) = take_bit 1 (fu_r h)" "?b AND 0x1f = take_bit 5 (fu_t h)"
    by (rule byte_eqI; simp add: bit_simps)+
  then show ?thesis
    unfolding * by (simp add: fu_header_set_def fu_header_get_def)
qed

section \<open>Depacketization of one NAL unit\<close>

text \<open>A NAL unit the payload formats can carry: forbidden bit clear, type 0 to 23, at least two bytes.\<close>

definition h264_nal :: "bytes \<Rightarrow> bool" where
  "h264_nal nal \<longleftrightarrow> 2 \<le> length nal \<and> nal_f (nal_header_set (hd nal)) = 0 \<and> nal_t (nal_header_set (hd nal)) \<le> 23"

definition deliver_nal :: "u32 \<Rightarrow> bytes \<Rightarrow> receiver \<Rightarrow> receiver" where
  "deliver_nal ts nal r =
     snd (deliver_frame (av_frame_zero\<lparr>af_pts := uint ts, af_dts := uint ts, af_data := [0, 0, 0, 1] @ nal\<rparr>)
       (if key_nal (nal_t (nal_header_set (hd nal))) then r\<lparr>rc_waiting_for_keyframe := False\<rparr> else r))"

lemma combin_single:
  assumes "h264_nal (rk_payload_data p)"
  shows "combin_loop (Some p # ps) first fu r =
    combin_loop ps first fu (deliver_nal (rh_ts (rk_header p)) (rk_payload_data p) r)"
proof -
  let ?d = "rk_payload_data p"
  have "rd8 ?d 0 = Some (hd ?d)"
    using assms by (cases ?d) (auto simp: h264_nal_def)
  then show ?thesis
    using assms by (simp add: h264_nal_def Let_def deliver_nal_def)
qed

lemma rd_range_from: "length hs = i \<Longrightarrow> rd_range (hs @ xs) i (length (hs @ xs)) = Some xs"
  by (simp add: rd_range_def)

lemma combin_fu_step:
  assumes "rk_payload_data p = [nal_header_get ind, fu_header_get fuh] @ data" "ind = \<lparr>nal_f = 0, nal_nri = n, nal_t = 28\<rparr>" "n < 4"
    "fu_s fuh < 2" "fu_e fuh < 2" "fu_r fuh < 2" "fu_t fuh < 32" "fu_s fuh = 1 \<or> first \<noteq> None"
  shows "combin_loop (Some p # ps) first fu r =
    combin_loop ps (if fu_s fuh = 1 then Some (rh_ts (rk_header p)) else first)
      ((if fu_s fuh = 1 then [0, 0, 0, 1, nal_header_get \<lparr>nal_f = 0, nal_nri = n, nal_t = fu_t fuh\<rparr>] else fu) @ data) r"
proof -
  have i: "nal_header_set (nal_header_get ind) = ind"
    using assms(2,3) by (intro nal_header_set_get) simp_all
  have f: "fu_header_set (fu_header_get fuh) = fuh"
    using assms(4-7) by (rule fu_header_set_get)
  have "rd_range (rk_payload_data p) 2 (length (rk_payload_data p)) = Some data"
    unfolding assms(1) by (rule rd_range_from) simp
  then show ?thesis
    using i f assms(1,2,8) by (auto simp: Let_def)
qed

lemma combin_fu_parts:
  assumes "stamped s seq (fu_parts start h ind data islast) = ps" "nal_f h = 0" "nal_nri h < 4" "nal_t h < 32"
    "ind = nal_header_get \<lparr>nal_f = nal_f h, nal_nri = nal_nri h, nal_t = 28\<rparr>" "start \<longrightarrow> data \<noteq> []" "\<not> start \<longrightarrow> first \<noteq> None"
  shows "combin_loop (map Some ps @ qs) first fu r =
    combin_loop qs (if start then Some (sd_timestamp s) else first)
      ((if start then [0, 0, 0, 1, nal_header_get h] else fu) @ data) r"
  using assms
proof (induction "length data" arbitrary: data start seq ps first fu rule: less_induct)
  case less
  show ?case
  proof (cases "data = []")
    case True
    then show ?thesis
      using less.prems(1,6) by (subst (asm) fu_parts.simps) auto
  next
    case False
    let ?fu = "\<lparr>fu_s = (if start then 1 else 0), fu_e = (if \<not> start \<and> length data \<le> MAX_RTP_PAYLOAD_SIZE then 1 else 0), fu_r = 0, fu_t = nal_t h\<rparr>"
    obtain p ps' where ps: "ps = p # ps'" and p: "rk_payload_data p = [ind, fu_header_get ?fu] @ take MAX_RTP_PAYLOAD_SIZE data"
      "rh_ts (rk_header p) = sd_timestamp s" and ps': "stamped s (seq + 1) (fu_parts False h ind (drop MAX_RTP_PAYLOAD_SIZE data) islast) = ps'"
      using less.prems(1) False by (subst (asm) fu_parts.simps) (auto simp: Let_def)
    have h: "nal_header_get \<lparr>nal_f = 0, nal_nri = nal_nri h, nal_t = nal_t h\<rparr> = nal_header_get h"
      using less.prems(2) by (simp add: nal_header_get_def)
    let ?first = "if start then Some (sd_timestamp s) else first"
    let ?acc = "(if start then [0, 0, 0, 1, nal_header_get h] else fu) @ take MAX_RTP_PAYLOAD_SIZE data"
    have "combin_loop (map Some ps @ qs) first fu r = combin_loop (map Some ps' @ qs) ?first ?acc r"
      unfolding ps list.map append_Cons
      by (subst combin_fu_step [where ind = "\<lparr>nal_f = 0, nal_nri = nal_nri h, nal_t = 28\<rparr>" and fuh = ?fu and n = "nal_nri h"])
        (use p less.prems h in auto)
    also have "\<dots> = combin_loop qs ?first (?acc @ drop MAX_RTP_PAYLOAD_SIZE data) r"
      using less.hyps [OF _ ps', of ?first ?acc] False less.prems(2-) by (simp add: MAX_RTP_PAYLOAD_SIZE_def)
    finally show ?thesis by simp
  qed
qed

section \<open>Depacketization of an access unit\<close>

definition small_nal :: "bytes \<Rightarrow> bool" where
  "small_nal nal \<longleftrightarrow> length nal \<le> MAX_RTP_PAYLOAD_SIZE"

text \<open>What the receiver delivers: the units that fit a packet, then the last fragmented one.\<close>

definition delivered_nals :: "bytes list \<Rightarrow> bytes list" where
  "delivered_nals nals = filter small_nal nals @
     (let big = filter (\<lambda>n. \<not> small_nal n) nals in if big = [] then [] else [last big])"

lemma stamped_append:
  "stamped s seq (xs @ ys) = stamped s seq xs @ stamped s (seq + word_of_nat (length xs)) ys"
  by (induction s seq xs rule: stamped.induct) (auto simp: ac_simps)

lemma length_stamped [simp]: "length (stamped s seq xs) = length xs"
  by (induction s seq xs rule: stamped.induct) auto

lemma stamped_nth:
  "i < length xs \<Longrightarrow> stamped s seq xs ! i = mk_packet (fst (xs ! i)) (snd (xs ! i)) (s\<lparr>sd_seq := seq + word_of_nat i\<rparr>)"
  by (induction s seq xs arbitrary: i rule: stamped.induct) (auto simp: nth_Cons ac_simps split: nat.split)

lemma combin_big:
  assumes "h264_nal nal" "\<not> small_nal nal"
  shows "combin_loop (map Some (stamped s seq (nal_parts nal islast)) @ qs) first fu r =
    combin_loop qs (Some (sd_timestamp s)) ([0, 0, 0, 1] @ nal) r"
proof -
  let ?h = "nal_header_set (hd nal)"
  have "nal = nal_header_get ?h # tl nal" "tl nal \<noteq> []"
    using assms by (cases nal; auto simp: nal_header_get_set h264_nal_def)+
  then show ?thesis
    using combin_fu_parts [of s seq True ?h _ "tl nal" islast _ first qs fu r] assms nal_header_range [of "hd nal"]
    by (simp add: nal_parts_def small_nal_def h264_nal_def Let_def)
qed

lemma combin_nals:
  assumes "list_all h264_nal nals"
  shows "combin_loop (map Some (stamped s seq (frame_parts nals))) first fu r =
    (let big = filter (\<lambda>n. \<not> small_nal n) nals in
     Some (True, if big = [] then first else Some (sd_timestamp s), if big = [] then fu else [0, 0, 0, 1] @ last big,
           fold (deliver_nal (sd_timestamp s)) (filter small_nal nals) r))"
  using assms
proof (induction nals arbitrary: seq first fu r)
  case (Cons nal nals)
  let ?p = "nal_parts nal (nals = [])"
  have split: "map Some (stamped s seq (frame_parts (nal # nals))) = map Some (stamped s seq ?p) @
      map Some (stamped s (seq + word_of_nat (length ?p)) (frame_parts nals))"
    by (simp add: stamped_append)
  show ?case
  proof (cases "small_nal nal")
    case True
    then show ?thesis
      using Cons combin_single [of "mk_packet (if nals = [] then 1 else 0) nal (s\<lparr>sd_seq := seq\<rparr>)"] unfolding split
      by (simp add: nal_parts_def small_nal_def Let_def)
  next
    case False
    then show ?thesis
      using Cons combin_big [of nal] unfolding split by (simp add: Let_def)
  qed
qed simp

lemma combin_frame_nals:
  assumes "list_all h264_nal nals" "frame_parts nals \<noteq> []"
  shows "combin_frame (map Some (stamped s seq (frame_parts nals))) r =
    Some (True, fold (deliver_nal (sd_timestamp s)) (delivered_nals nals) r)"
proof -
  let ?big = "filter (\<lambda>n. \<not> small_nal n) nals"
  have ne: "stamped s seq (frame_parts nals) \<noteq> []"
    using assms(2) by (metis length_0_conv length_stamped)
  show ?thesis
  proof (cases "?big = []")
    case True
    then show ?thesis
      using combin_nals [OF assms(1), of s seq None "[]" r] ne by (simp add: combin_frame_def delivered_nals_def)
  next
    case False
    then have "h264_nal (last ?big)"
      using assms(1) last_in_set [OF False] by (simp add: list_all_iff)
    then have "rd8 ([0, 0, 0, 1] @ last ?big) 4 = Some (hd (last ?big))"
      by (cases "last ?big") (auto simp: h264_nal_def)
    then show ?thesis
      using combin_nals [OF assms(1), of s seq None "[]" r] ne False
      by (simp add: combin_frame_def delivered_nals_def deliver_nal_def Let_def)
  qed
qed

section \<open>Frames handed to the application\<close>

fun frames_of :: "rc_event list \<Rightarrow> (int \<times> bytes) list" where
  "frames_of [] = []"
| "frames_of (On_frame _ f # es) = (af_pts f, af_data f) # frames_of es"
| "frames_of (_ # es) = frames_of es"

lemma frames_of_append [simp]: "frames_of (xs @ ys) = frames_of xs @ frames_of ys"
  by (induction xs rule: frames_of.induct) auto

lemma deliver_nal_frames:
  assumes "\<not> rc_waiting_for_keyframe r \<or> key_nal (nal_t (nal_header_set (hd nal)))"
  shows "\<not> rc_waiting_for_keyframe (deliver_nal ts nal r) \<and>
    frames_of (rc_events (deliver_nal ts nal r)) = frames_of (rc_events r) @ [(uint ts, [0, 0, 0, 1] @ nal)]"
  using assms
  by (auto simp: deliver_nal_def deliver_frame_def invoke_rtp_frame_def rc_emit_def Let_def av_frame_zero_def)

lemma fold_deliver_frames:
  assumes "\<not> rc_waiting_for_keyframe r \<or> nals \<noteq> [] \<and> key_nal (nal_t (nal_header_set (hd (hd nals))))"
  shows "\<not> rc_waiting_for_keyframe (fold (deliver_nal ts) nals r) \<and>
    frames_of (rc_events (fold (deliver_nal ts) nals r)) = frames_of (rc_events r) @ map (\<lambda>n. (uint ts, [0, 0, 0, 1] @ n)) nals"
  using assms
proof (induction nals arbitrary: r)
  case (Cons nal nals)
  then show ?case
    using deliver_nal_frames [of r nal ts] by simp
qed simp

section \<open>Marker bits\<close>

definition marked_last :: "bool \<Rightarrow> (byte \<times> bytes) list \<Rightarrow> bool" where
  "marked_last islast parts \<longleftrightarrow> parts \<noteq> [] \<and> fst (last parts) = (if islast then 1 else 0) \<and>
     (\<forall>x \<in> set (butlast parts). fst x = 0)"

lemma marked_last_append:
  assumes "marked_last False xs" "marked_last b ys"
  shows "marked_last b (xs @ ys)"
proof -
  have "xs = butlast xs @ [last xs]"
    using assms(1) by (simp add: marked_last_def)
  then have "set xs = insert (last xs) (set (butlast xs))"
    by (metis Un_insert_right list.simps(15) empty_set set_append sup_bot.right_neutral)
  then have "\<forall>x \<in> set xs. fst x = 0"
    using assms(1) by (auto simp: marked_last_def)
  then show ?thesis
    using assms(2) by (auto simp: marked_last_def butlast_append)
qed

lemma marked_last_fu_parts: "data \<noteq> [] \<Longrightarrow> marked_last islast (fu_parts start h ind data islast)"
proof (induction "length data" arbitrary: data start rule: less_induct)
  case less
  let ?d = "drop MAX_RTP_PAYLOAD_SIZE data"
  show ?case
  proof (cases "?d = []")
    case True
    then have "fu_parts False h ind ?d islast = []"
      by (subst fu_parts.simps) simp
    then show ?thesis
      using less.prems True by (subst fu_parts.simps) (simp add: marked_last_def Let_def)
  next
    case False
    then have "marked_last islast (fu_parts False h ind ?d islast)"
      using less.prems by (intro less.hyps) (auto simp: MAX_RTP_PAYLOAD_SIZE_def)
    then show ?thesis
      using less.prems False by (subst fu_parts.simps) (auto simp: marked_last_def Let_def)
  qed
qed

lemma marked_last_nal_parts: "nal \<noteq> [] \<Longrightarrow> marked_last islast (nal_parts nal islast)"
proof -
  assume "nal \<noteq> []"
  moreover have "tl nal \<noteq> []" if "\<not> length nal \<le> MAX_RTP_PAYLOAD_SIZE"
    using that by (cases nal) (auto simp: MAX_RTP_PAYLOAD_SIZE_def)
  ultimately show ?thesis
    by (auto simp: nal_parts_def Let_def marked_last_fu_parts) (simp_all add: marked_last_def)
qed

lemma marked_last_frame_parts: "nals \<noteq> [] \<Longrightarrow> [] \<notin> set nals \<Longrightarrow> marked_last True (frame_parts nals)"
proof (induction nals)
  case (Cons nal nals)
  then show ?case
    using marked_last_nal_parts [of nal "nals = []"] by (cases "nals = []") (auto intro: marked_last_append)
qed simp

section \<open>Transfer\<close>

lemma stamped_marked_last:
  assumes "marked_last True parts"
  shows "\<exists>qs q. stamped s seq parts = qs @ [q] \<and> marked q \<and> (\<forall>p \<in> set qs. \<not> marked p)"
proof -
  obtain xs m d where p: "parts = xs @ [(m, d)]" "m = 1" "\<forall>x \<in> set xs. fst x = 0"
    using assms by (cases parts rule: rev_cases) (auto simp: marked_last_def)
  have "\<not> marked q" if q: "q \<in> set (stamped s seq xs)" for q
  proof -
    obtain i where i: "i < length xs" "q = stamped s seq xs ! i"
      using q by (auto simp: in_set_conv_nth)
    moreover have "fst (xs ! i) = 0"
      using p(3) nth_mem [OF i(1)] by blast
    ultimately show ?thesis
      by (simp add: stamped_nth)
  qed
  then show ?thesis
    using p by (auto simp: stamped_append)
qed

text \<open>
  C4: an H.264 access unit given to the sender as an Annex B stream of NAL units (each of at
  least two bytes, not ending in 0, without a start code inside, forbidden bit 0, type at most
  23) arrives. Assumed: the unit is a single NAL unit or larger than 1200 bytes, so that it goes
  out as single NAL units and FU-A fragments, of at most 257 packets; the receiver's window is
  at the sender's sequence number, and it does not await a key frame unless the first NAL unit
  it delivers is of type 5, 7 or 8; the packets are inserted in order, all but the last within
  one second of the start of the frame. Then every insertion is defined, the receiver delivers
  behind start codes, with the sender's time stamp, every NAL unit sent in one packet and then
  the last fragmented one (no other fragmented one), and both ends are ready for the next access
  unit.
\<close>

theorem h264_transfer:
  assumes nals: "nals \<noteq> []" "list_all (\<lambda>(_, n). nal_unit n \<and> h264_nal n) nals"
    and single: "length nals = 1 \<or> MAX_RTP_PAYLOAD_SIZE < sum_list (map (length \<circ> snd) nals)"
    and window: "length (frame_parts (map snd nals)) \<le> 257"
    and key: "\<not> rc_waiting_for_keyframe r \<or> key_nal (nal_t (nal_header_set (hd (hd (delivered_nals (map snd nals))))))"
    and ready: "rc_ready (sd_seq s) r"
    and sent: "s' = h264_send_frame (annexb nals) duration s" "sd_out s' = sd_out s @ ps"
    and times: "length ts = length ps"
      "\<forall>t \<in> set (butlast ts). t < (if rc_reset r then hd ts else rc_frame_begin_ts r) + 1000000000"
  shows "\<exists>r'. insert_all h264_insert_packet (zip ts ps) r = Some r' \<and>
    frames_of (rc_events r') = frames_of (rc_events r) @
      map (\<lambda>n. (uint (sd_timestamp s), [0, 0, 0, 1] @ n)) (delivered_nals (map snd nals)) \<and>
    rc_ready (sd_seq s') r' \<and> \<not> rc_waiting_for_keyframe r' \<and> sd_timestamp s' = sd_timestamp s + duration"
proof -
  let ?n = "map snd nals" and ?parts = "frame_parts (map snd nals)"
  have ok: "list_all (nal_unit \<circ> snd) nals" "list_all h264_nal ?n" "[] \<notin> set ?n"
    using nals(2) by (auto simp: list_all_iff nal_unit_def)
  have "split_nals (annexb nals) 0 = ?n"
    using split_nals_annexb_from [OF ok(1), of "[]"] by simp
  then have s': "s' = (let s = send_list ?parts s in s\<lparr>sd_timestamp := sd_timestamp s + duration\<rparr>)"
    using single nals(1) ok(3) by (auto simp: sent(1) h264_send_frame_def send_nals_parts Let_def)
  then have ps: "ps = stamped s (sd_seq s) ?parts" and seq: "sd_seq s' = sd_seq s + word_of_nat (length ps)"
    and time: "sd_timestamp s' = sd_timestamp s + duration"
    using sent(2) send_list_fields [of ?parts s] by (auto simp: Let_def)
  have m: "marked_last True ?parts"
    using nals(1) ok(3) by (intro marked_last_frame_parts) auto
  then obtain qs q where q: "ps = qs @ [q]" "marked q" "\<forall>p \<in> set qs. \<not> marked p"
    using stamped_marked_last ps by blast
  have "\<exists>r1. rc_visible r1 = rc_visible r \<and> rc_ready (sd_seq s + word_of_nat (length ps)) r1 \<and> \<not> rc_reset r1 \<and>
    insert_all h264_insert_packet (zip ts ps) r = do { (_, r2) \<leftarrow> combin_frame (map Some ps) r1; Some r2 }"
    by (rule h264.frame_in_order [OF ready q(1)]) (use q(2,3) times window in \<open>auto simp: ps stamped_nth\<close>)
  then obtain r1 where r1: "rc_visible r1 = rc_visible r" "rc_ready (sd_seq s + word_of_nat (length ps)) r1"
    "insert_all h264_insert_packet (zip ts ps) r = do { (_, r2) \<leftarrow> combin_frame (map Some ps) r1; Some r2 }"
    by blast
  let ?r2 = "fold (deliver_nal (sd_timestamp s)) (delivered_nals ?n) r1"
  have c: "combin_frame (map Some ps) r1 = Some (True, ?r2)"
    using combin_frame_nals [OF ok(2)] m by (simp add: ps marked_last_def)
  then have "rc_ready (sd_seq s') ?r2"
    using window_combin_frame [OF c] r1(2) by (simp add: rc_ready_def rc_window_def seq)
  moreover have "delivered_nals ?n \<noteq> []"
    using nals(1) by (cases nals) (auto simp: delivered_nals_def Let_def)
  then have "\<not> rc_waiting_for_keyframe ?r2 \<and> frames_of (rc_events ?r2) = frames_of (rc_events r) @
      map (\<lambda>n. (uint (sd_timestamp s), [0, 0, 0, 1] @ n)) (delivered_nals ?n)"
    using fold_deliver_frames [of r1 "delivered_nals ?n" "sd_timestamp s"] key r1(1) by (auto simp: rc_visible_def)
  ultimately show ?thesis
    using r1(3) c time by simp
qed

theorem h264_transfer_witness:
  "\<exists>r'. insert_all h264_insert_packet
      (zip [0] (sd_out (h264_send_frame [0, 0, 0, 1, 0x67, 1] 90 (sender_new 96 5 96 255)))) (receiver_new 1 True) = Some r' \<and>
    frames_of (rc_events r') = [(0, [0, 0, 0, 1, 0x67, 1])]"
proof -
  let ?nals = "[(True, [0x67, 1])]" and ?s = "sender_new 96 5 96 255"
  let ?s' = "h264_send_frame (annexb ?nals) 90 ?s"
  have a: "annexb ?nals = [0, 0, 0, 1, 0x67, 1]"
    by (simp add: annexb_def start_code_def)
  have u: "list_all (\<lambda>(_, n). nal_unit n \<and> h264_nal n) ?nals" "delivered_nals (map snd ?nals) = [[0x67, 1]]"
    "length (frame_parts (map snd ?nals)) \<le> 257" "key_nal (nal_t (nal_header_set 0x67))"
    by (code_simp, code_simp, code_simp, code_simp)
  have "length (sd_out ?s') = 1"
    unfolding a by code_simp
  then obtain p where p: "sd_out ?s' = sd_out ?s @ [p]" "sd_out ?s = []"
    by (auto simp: sender_new_def length_Suc_conv)
  have "rc_ready (sd_seq ?s) (receiver_new 1 True)"
    by (simp add: rc_ready_def receiver_new_def)
  moreover have "rc_events (receiver_new 1 True) = []" "rc_reset (receiver_new 1 True)" "sd_timestamp ?s = 0"
    by (simp_all add: receiver_new_def sender_new_def)
  ultimately show ?thesis
    using h264_transfer [of ?nals "receiver_new 1 True" ?s ?s' 90 "[p]" "[0]"] u p unfolding a
    by (auto simp del: insert_all.simps zip_Cons_Cons)
qed

section \<open>Aggregation packets\<close>

lemma deliver_frame_frames:
  "\<not> rc_waiting_for_keyframe r \<Longrightarrow> \<not> rc_waiting_for_keyframe (snd (deliver_frame f r)) \<and>
   frames_of (rc_events (snd (deliver_frame f r))) = frames_of (rc_events r) @ [(af_pts f, af_data f)]"
  by (auto simp: deliver_frame_def invoke_rtp_frame_def rc_emit_def Let_def)

lemma unit_loop_stap:
  assumes "list_all (\<lambda>n. n \<noteq> [] \<and> length n < 65536) nals" "\<not> rc_waiting_for_keyframe r"
  shows "\<exists>r'. unit_loop 2 24 ts (concat (map (\<lambda>n. b16 (word_of_nat (length n)) @ n) nals)) f r = Some r' \<and>
    \<not> rc_waiting_for_keyframe r' \<and> frames_of (rc_events r') = frames_of (rc_events r) @ map (\<lambda>n. (ts, [0, 0, 0, 1] @ n)) nals"
  using assms
proof (induction nals arbitrary: f r)
  case Nil
  then show ?case
    by (simp add: unit_loop.simps)
next
  case (Cons n nals)
  let ?l = "b16 (word_of_nat (length n))" and ?rest = "concat (map (\<lambda>n. b16 (word_of_nat (length n)) @ n) nals)"
  let ?buf = "?l @ n @ ?rest"
  have u: "unat (word_of_nat (length n) :: u16) = length n" "rd8 ?buf 2 = Some (hd n)"
    using Cons.prems(1) by (auto simp: unat_of_nat rd8_append) (cases n; simp)
  have "rd_range ?buf 2 (2 + length n) = Some n"
    by (rule rd_range_mid) simp_all
  moreover have "rd16 ?buf 0 = Some (word_of_nat (length n))"
    by simp
  moreover define d where "d = deliver_frame (f\<lparr>af_pts := ts, af_dts := ts, af_data := [0, 0, 0, 1] @ n\<rparr>) r"
  ultimately have step: "unit_loop 2 24 ts ?buf f r = unit_loop 2 24 ts ?rest (fst d) (snd d)"
    using u by (subst unit_loop.simps) (simp add: ts_offset_def key_nal_def Let_def)
  have d: "\<not> rc_waiting_for_keyframe (snd d)" "frames_of (rc_events (snd d)) = frames_of (rc_events r) @ [(ts, [0, 0, 0, 1] @ n)]"
    using deliver_frame_frames [OF Cons.prems(2)] by (simp_all add: d_def)
  obtain r' where "unit_loop 2 24 ts ?rest (fst d) (snd d) = Some r'" "\<not> rc_waiting_for_keyframe r'"
    "frames_of (rc_events r') = frames_of (rc_events (snd d)) @ map (\<lambda>n. (ts, [0, 0, 0, 1] @ n)) nals"
    using Cons.IH [OF _ d(1), of "fst d"] Cons.prems(1) by auto
  then show ?case
    using step d(2) by simp
qed

lemma h264_insert_true: "h264_insert_packet now p r = Some (ok, r') \<Longrightarrow> ok"
  by (auto simp: h264_insert_packet_def receiver_insert_packet_def Let_def bind_eq_Some_conv)

text \<open>
  C24: several NAL units of together at most 1200 bytes, the first neither SPS nor PPS, are sent
  as one STAP-A packet, from which a receiver that does not await a key frame delivers every NAL
  unit; the sender's time stamp is not advanced.
\<close>

theorem h264_stap_transfer:
  assumes nals: "list_all (\<lambda>(_, n). nal_unit n) nals" "1 < length nals"
      "sum_list (map (length \<circ> snd) nals) \<le> MAX_RTP_PAYLOAD_SIZE"
    and first: "nal_f (nal_header_set (hd (snd (hd nals)))) = 0" "nal_t (nal_header_set (hd (snd (hd nals)))) \<notin> {7, 8}"
    and ready: "rc_ready (sd_seq s) r" "\<not> rc_waiting_for_keyframe r"
    and sent: "s' = h264_send_frame (annexb nals) duration s"
  shows "\<exists>p r'. sd_out s' = sd_out s @ [p] \<and> h264_insert_packet now p r = Some (True, r') \<and>
    frames_of (rc_events r') = frames_of (rc_events r) @ map (\<lambda>(_, n). (uint (sd_timestamp s), [0, 0, 0, 1] @ n)) nals \<and>
    rc_ready (sd_seq s') r' \<and> sd_timestamp s' = sd_timestamp s"
proof -
  let ?n = "map snd nals"
  have ok: "list_all (nal_unit \<circ> snd) nals"
    using nals(1) by (auto simp: list_all_iff)
  have split: "split_nals (annexb nals) 0 = ?n"
    using split_nals_annexb_from [OF ok, of "[]"] by simp
  define h where "h = nal_header_set (hd (snd (hd nals)))"
  define ind where "ind = nal_header_get \<lparr>nal_f = nal_f h, nal_nri = nal_nri h, nal_t = 24\<rparr>"
  define p where "p = mk_packet 1 (stap_payload ?n ind) s"
  have hd: "hd (hd ?n) = hd (snd (hd nals))"
    using nals(2) by (cases nals) auto
  have s': "s' = sender_send_packet p s"
    using nals(2,3) first(2) by (simp add: sent h264_send_frame_def split Let_def hd h_def [symmetric] ind_def p_def)
  have i: "nal_header_set ind = \<lparr>nal_f = 0, nal_nri = nal_nri h, nal_t = 24\<rparr>"
    unfolding ind_def using nal_header_range [of "hd (snd (hd nals))"] first(1)
    by (subst nal_header_set_get) (simp_all add: h_def)
  have "\<forall>x \<in> set ?n. length x \<le> sum_list (map length ?n)"
    by (intro ballI member_le_sum_list) (simp_all only: set_map imageI zero_le)
  then have len: "list_all (\<lambda>n. n \<noteq> [] \<and> length n < 65536) ?n"
    using nals(1,3) by (fastforce simp: list_all_iff nal_unit_def MAX_RTP_PAYLOAD_SIZE_def)
  have "\<exists>r1. rc_visible r1 = rc_visible r \<and> rc_ready (sd_seq s + word_of_nat (length [p])) r1 \<and> \<not> rc_reset r1 \<and>
    insert_all h264_insert_packet (zip [now] [p]) r = do { (_, r2) \<leftarrow> combin_frame (map Some [p]) r1; Some r2 }"
    by (rule h264.frame_in_order [OF ready(1), of "[p]" "[]" p]) (simp_all add: p_def)
  then obtain r1 where r1: "rc_visible r1 = rc_visible r" "rc_ready (sd_seq s + 1) r1"
    "insert_all h264_insert_packet (zip [now] [p]) r = do { (_, r2) \<leftarrow> combin_frame (map Some [p]) r1; Some r2 }"
    by auto
  obtain r2 where r2: "unit_loop 2 24 (uint (sd_timestamp s)) (concat (map (\<lambda>n. b16 (word_of_nat (length n)) @ n) ?n)) av_frame_zero r1 = Some r2"
    "frames_of (rc_events r2) = frames_of (rc_events r) @ map (\<lambda>n. (uint (sd_timestamp s), [0, 0, 0, 1] @ n)) ?n"
    using unit_loop_stap [OF len, of r1] ready(2) r1(1) by (auto simp: rc_visible_def)
  have "length (stap_payload ?n ind) \<ge> 2" "drop 1 (stap_payload ?n ind) = concat (map (\<lambda>n. b16 (word_of_nat (length n)) @ n) ?n)"
    "rd8 (stap_payload ?n ind) 0 = Some ind"
    using nals(2) by (cases nals; simp add: stap_payload_def)+
  then have "combin_frame [Some p] r1 = Some (True, r2)"
    using r2(1) i by (simp add: combin_frame_def p_def)
  moreover from this have "rc_ready (sd_seq s + 1) r2"
    using window_combin_frame r1(2) by (fastforce simp: rc_ready_def rc_window_def)
  ultimately obtain ok r3 where "h264_insert_packet now p r = Some (ok, r3)" "insert_all h264_insert_packet [] r3 = Some r2"
    using r1(3) by (cases "h264_insert_packet now p r") auto
  then have "h264_insert_packet now p r = Some (True, r2)"
    using h264_insert_true [of now p r ok r3] by simp
  with \<open>rc_ready (sd_seq s + 1) r2\<close> show ?thesis
    using r2(2) s' by (auto simp: p_def case_prod_beta comp_def)
qed

theorem h264_stap_transfer_witness:
  "\<exists>p r'. sd_out (h264_send_frame [0, 0, 1, 0x41, 1, 0, 0, 1, 0x41, 2] 90 (sender_new 96 5 96 255)) = [p] \<and>
    h264_insert_packet 0 p (receiver_new 1 False) = Some (True, r') \<and>
    frames_of (rc_events r') = [(0, [0, 0, 0, 1, 0x41, 1]), (0, [0, 0, 0, 1, 0x41, 2])]"
proof -
  let ?nals = "[(False, [0x41, 1]), (False, [0x41, 2])]"
  have a: "annexb ?nals = [0, 0, 1, 0x41, 1, 0, 0, 1, 0x41, 2]"
    by code_simp
  have u: "list_all (\<lambda>(_, n). nal_unit n) ?nals" "nal_f (nal_header_set 0x41) = 0" "nal_t (nal_header_set 0x41) \<notin> {7, 8}"
    by (code_simp, code_simp, code_simp)
  moreover have "rc_ready (sd_seq (sender_new 96 5 96 255)) (receiver_new 1 False)" "\<not> rc_waiting_for_keyframe (receiver_new 1 False)"
    "sd_timestamp (sender_new 96 5 96 255) = 0" "rc_events (receiver_new 1 False) = []" "sd_out (sender_new 96 5 96 255) = []"
    by (simp_all add: rc_ready_def receiver_new_def sender_new_def)
  ultimately show ?thesis
    using h264_stap_transfer [of ?nals "sender_new 96 5 96 255" "receiver_new 1 False" _ 90 0, OF _ _ _ _ _ _ _ refl] unfolding a
    by (auto simp: MAX_RTP_PAYLOAD_SIZE_def)
qed

section \<open>Retransmission\<close>

text \<open>The marker bit does not survive a retransmission.\<close>

lemma rtx_wire:
  "rtx_unwrap (sd_format_pt s) (sd_ssrc s) (last (sd_out (rtx_send_packet (mk_packet m p s) rtx))) =
   Some (Some (mk_packet 0 p s))"
proof -
  let ?d = "[ucast (drop_bit 8 (sd_seq s)), ucast (sd_seq s)] @ p"
  let ?q = "snd (packet_set_payload ?d (packet_new (sd_pt rtx) (sd_ssrc rtx) (sd_seq rtx) (sd_timestamp s)))"
  have "last (sd_out (rtx_send_packet (mk_packet m p s) rtx)) = ?q"
    by (simp add: rtx_send_packet_def Let_def)
  moreover have "rk_payload_data ?q = ?d" "rh_ts (rk_header ?q) = sd_timestamp s"
    by (simp_all add: packet_set_payload_def rtp_packet_set_payload_def packet_new_def rtp_packet_init_def
        rtp_packet_create_def rtp_header_init_def rk_payload_data_def)
  moreover have "rd16 ?d 0 = Some (sd_seq s)" "rd_range ?d 2 (length ?d) = Some p"
    using rd_range_from [of "[ucast (drop_bit 8 (sd_seq s)), ucast (sd_seq s)]" 2 p] by (simp_all add: rd16_def)
  moreover have "mk_packet 0 p s = snd (packet_set_payload p (packet_new (sd_format_pt s) (sd_ssrc s) (sd_seq s) (sd_timestamp s)))"
    by (simp add: mk_packet_def packet_new_def rtp_packet_init_def rtp_packet_create_def rtp_header_init_def rtp_header_create_def)
  ultimately show ?thesis
    by (simp add: rtx_unwrap_def Let_def)
qed


end
