(* ===== verification/Rtcp_Header.thy ===== *)
theory Rtcp_Header
  imports Prelude
begin

text \<open>
  The common header of RTCP packets, \<open>rtpx/rtp/rtcp_header.c\<close>, the packet type of a buffer
  (\<open>rtcp_util.c\<close>) and the integers of three bytes of \<open>rtpx/rtp/util.c\<close>. The bit fields of the
  header are bytes; an assignment to one keeps the bits that fit.
\<close>

unbundle bit_operations_syntax

definition RTCP_SR :: byte where "RTCP_SR = 200"
definition RTCP_RR :: byte where "RTCP_RR = 201"
definition RTCP_SDES :: byte where "RTCP_SDES = 202"
definition RTCP_BYE :: byte where "RTCP_BYE = 203"
definition RTCP_APP :: byte where "RTCP_APP = 204"
definition RTCP_RTPFB :: byte where "RTCP_RTPFB = 205"
definition RTCP_PSFB :: byte where "RTCP_PSFB = 206"

lemmas rtcp_types = RTCP_SR_def RTCP_RR_def RTCP_SDES_def RTCP_BYE_def RTCP_APP_def RTCP_RTPFB_def RTCP_PSFB_def

section \<open>The header\<close>

record rtcp_header =
  th_version :: byte
  th_p :: byte
  th_count :: byte
  th_pt :: byte
  th_length :: u16

definition rtcp_header_zero :: rtcp_header where
  "rtcp_header_zero = \<lparr>th_version = 0, th_p = 0, th_count = 0, th_pt = 0, th_length = 0\<rparr>"

definition rtcp_header_serialize :: "rtcp_header \<Rightarrow> bytes \<Rightarrow> (int \<times> bytes) cxx" where
  "rtcp_header_serialize header buffer =
     (if length buffer < 4 then Some (-1, buffer)
      else do {
        buffer \<leftarrow> wr_range buffer 0
          ([push_bit 6 (th_version header) OR push_bit 5 (th_p header) OR th_count header, th_pt header] @
           b16 (th_length header));
        Some (4, buffer) })"

definition rtcp_header_parse :: "rtcp_header \<Rightarrow> bytes \<Rightarrow> (int \<times> rtcp_header) cxx" where
  "rtcp_header_parse header buffer =
     (if length buffer < 4 then Some (-1, header)
      else do {
        b0 \<leftarrow> rd8 buffer 0;
        pt \<leftarrow> rd8 buffer 1;
        length \<leftarrow> rd16 buffer 2;
        let header = \<lparr>th_version = drop_bit 6 b0 AND 0x3, th_p = drop_bit 5 b0 AND 0x1,
                      th_count = b0 AND 0x1f, th_pt = pt, th_length = length\<rparr>;
        if th_version header \<noteq> 2 then Some (-1, header) else Some (uint pt, header) })"

definition rtcp_type :: "bytes \<Rightarrow> int cxx" where
  "rtcp_type buffer =
     (if length buffer < 2 then Some (-1)
      else do {
        pt \<leftarrow> rd8 buffer 1;
        if pt \<ge> RTCP_SR \<and> pt \<le> RTCP_APP then Some (uint pt) else Some (-1) })"

section \<open>Integers of three bytes\<close>

definition b24 :: "u32 \<Rightarrow> bytes" where
  "b24 w = [ucast (drop_bit 16 w AND 0xff), ucast (drop_bit 8 w AND 0xff), ucast (w AND 0xff)]"

definition rd24 :: "bytes \<Rightarrow> nat \<Rightarrow> u32 cxx" where
  "rd24 buffer i = do {
     a \<leftarrow> rd8 buffer i; b \<leftarrow> rd8 buffer (i + 1); c \<leftarrow> rd8 buffer (i + 2);
     Some (push_bit 16 (ucast a) OR push_bit 8 (ucast b) OR ucast c) }"

definition bs24 :: "int \<Rightarrow> bytes" where
  "bs24 v = b24 (word_of_int v)"

definition rds24 :: "bytes \<Rightarrow> nat \<Rightarrow> int cxx" where
  "rds24 buffer i = do {
     u \<leftarrow> rd24 buffer i;
     if u < 0x800000 then Some (uint u) else Some (-1 * sint ((NOT u AND 0xffffff) + 1)) }"

lemma length_b24 [simp, len_simps]: "length (b24 w) = 3" "length (bs24 v) = 3"
  by (simp_all add: b24_def bs24_def)

lemma and_FFFFFF: "w AND 0xFFFFFF = (take_bit 24 w :: u32)"
  by (simp add: take_bit_eq_mask mask_eq_exp_minus_1)

lemma rd24_b24 [simp]: "rd24 (b24 w @ xs) 0 = Some (take_bit 24 w)"
proof -
  have "push_bit 16 (ucast (ucast (drop_bit 16 w AND 0xff) :: byte)) OR
      push_bit 8 (ucast (ucast (drop_bit 8 w AND 0xff) :: byte)) OR ucast (ucast (w AND 0xff) :: byte) = take_bit 24 w"
  proof (rule bit_word_eqI)
    fix n assume "n < LENGTH(32)"
    then consider "n < 8" | "8 \<le> n \<and> n < 16" | "16 \<le> n \<and> n < 24" | "24 \<le> n"
      by force
    then show "bit (push_bit 16 (ucast (ucast (drop_bit 16 w AND 0xff) :: byte)) OR
      push_bit 8 (ucast (ucast (drop_bit 8 w AND 0xff) :: byte)) OR ucast (ucast (w AND 0xff) :: byte) :: u32) n =
      bit (take_bit 24 w) n"
      by cases (auto simp: bit_simps)
  qed
  then show ?thesis
    by (simp add: rd24_def b24_def)
qed

lemma rd24_append2 [simp]: "length hs \<le> i \<Longrightarrow> rd24 (hs @ xs) i = rd24 xs (i - length hs)"
  by (auto simp: rd24_def rd8_append Suc_diff_le)

lemma rds24_append2 [simp]: "length hs \<le> i \<Longrightarrow> rds24 (hs @ xs) i = rds24 xs (i - length hs)"
  by (simp add: rds24_def)

lemma rds24_Cons_Suc [simp]: "rds24 (x # xs) (Suc i) = rds24 xs i"
  by (simp add: rds24_def rd24_def)

lemma rds24_bs24 [simp]:
  assumes "- (2 ^ 23) \<le> v" "v < 2 ^ 23"
  shows "rds24 (bs24 v @ xs) 0 = Some v"
proof -
  define u :: u32 where "u = take_bit 24 (word_of_int v)"
  have "uint u = take_bit 24 (take_bit LENGTH(32) v)"
    by (simp only: u_def unsigned_take_bit_eq uint_word_of_int_eq)
  then have "uint u = take_bit 24 v"
    by (simp only: take_bit_take_bit) simp
  then have u: "uint u = v mod 2 ^ 24"
    by (simp add: take_bit_eq_mod)
  have rd: "rds24 (bs24 v @ xs) 0 = (if u < 0x800000 then Some (uint u) else Some (-1 * sint ((NOT u AND 0xffffff) + 1)))"
    by (simp add: rds24_def bs24_def u_def del: take_bit_of_1)
  show ?thesis
  proof (cases "v < 0")
    case True
    then have v: "uint u = v + 2 ^ 24"
      using u assms mod_pos_pos_trivial [of "v + 2 ^ 24" "2 ^ 24"] by simp
    have "NOT u AND 0xffffff = mask 24 - u"
      using take_bit_not_eq_mask_diff [of 24 u] by (simp add: and_FFFFFF u_def)
    moreover have "- v = 2 ^ 24 - uint u"
      using v by simp
    then have "word_of_int (- v) = (2 ^ 24 - u :: u32)"
      by (simp only: of_int_diff word_of_int_uint) simp
    ultimately have "(NOT u AND 0xffffff) + 1 = word_of_int (- v)"
      by (simp add: mask_eq_exp_minus_1)
    moreover have "sint (word_of_int (- v) :: u32) = - v"
      using assms by (simp only: sint_sbintrunc') (simp add: signed_take_bit_int_eq_self)
    moreover have "\<not> u < 0x800000"
      using v assms by (simp add: word_less_def)
    ultimately show ?thesis
      by (simp add: rd)
  next
    case False
    then have "uint u = v"
      using u assms by simp
    then show ?thesis
      using assms by (simp add: rd word_less_def)
  qed
qed

section \<open>The wire format\<close>

definition rtcp_header_ok :: "rtcp_header \<Rightarrow> bool" where
  "rtcp_header_ok h \<longleftrightarrow> th_version h = 2 \<and> th_p h < 2 \<and> th_count h < 32"

definition rtcp_header_bytes :: "rtcp_header \<Rightarrow> bytes" where
  "rtcp_header_bytes h = [0x80 OR push_bit 5 (th_p h) OR th_count h, th_pt h] @ b16 (th_length h)"

lemma length_rtcp_header_bytes [simp]: "length (rtcp_header_bytes h) = 4"
  by (simp add: rtcp_header_bytes_def)

lemma rtcp_byte0:
  assumes "p < (2 :: byte)" "c < 32"
  shows "drop_bit 6 (0x80 OR push_bit 5 p OR c) AND 0x3 = 2" "drop_bit 5 (0x80 OR push_bit 5 p OR c) AND 0x1 = p"
    "(0x80 OR push_bit 5 p OR c) AND 0x1f = c"
proof -
  have *: "take_bit 5 c = c" "take_bit 1 p = p"
    using assms by (simp_all only: byte_take_bit)
  let ?b = "0x80 OR push_bit 5 (take_bit 1 p) OR take_bit 5 c"
  have "drop_bit 6 ?b AND 0x3 = 2" "drop_bit 5 ?b AND 0x1 = take_bit 1 p" "?b AND 0x1f = take_bit 5 c"
    by (rule byte_eqI; simp add: bit_simps)+
  then show "drop_bit 6 (0x80 OR push_bit 5 p OR c) AND 0x3 = 2"
    "drop_bit 5 (0x80 OR push_bit 5 p OR c) AND 0x1 = p" "(0x80 OR push_bit 5 p OR c) AND 0x1f = c"
    by (simp_all only: *)
qed

lemma rtcp_header_serialize_bytes:
  "rtcp_header_ok h \<Longrightarrow> 4 \<le> length buffer \<Longrightarrow>
   rtcp_header_serialize h buffer = Some (4, rtcp_header_bytes h @ drop 4 buffer)"
  by (simp add: rtcp_header_serialize_def rtcp_header_bytes_def rtcp_header_ok_def wr_range_0)

lemma rtcp_header_parse_bytes:
  assumes "rtcp_header_ok h"
  shows "rtcp_header_parse h0 (rtcp_header_bytes h @ rest) = Some (uint (th_pt h), h)"
  using assms rtcp_byte0 [of "th_p h" "th_count h"]
  by (cases h) (simp add: rtcp_header_parse_def rtcp_header_bytes_def rtcp_header_ok_def)

end
