(* ===== verification/Rtcp_Fb.thy ===== *)
theory Rtcp_Fb
  imports Rtcp_Header "HOL-Library.Signed_Division"
begin

text \<open>
  RTCP feedback packets, \<open>rtpx/rtp/rtcp_fb.h\<close> and \<open>rtcp_fb.c\<close>: the packet, its codec, the loss
  report (a packet id and a bit mask) and the items of a full intra request. An allocation is an
  optional byte string and succeeds.
\<close>

unbundle bit_operations_syntax

definition RTCP_RTPFB_FMT_NACK :: byte where "RTCP_RTPFB_FMT_NACK = 1"
definition RTCP_PSFB_FMT_PLI :: byte where "RTCP_PSFB_FMT_PLI = 1"
definition RTCP_PSFB_FMT_FIR :: byte where "RTCP_PSFB_FMT_FIR = 4"

record rtcp_fb =
  fb_header :: rtcp_header
  fb_ssrc_sender :: u32
  fb_ssrc_media :: u32
  fb_fci :: "bytes option"
  fb_fci_size :: u16

record rtcp_psfb_fir_item =
  fir_ssrc :: u32
  fir_seq_nr :: byte
  fir_reserved :: u32

definition rtcp_fb_create :: rtcp_fb where
  "rtcp_fb_create = \<lparr>fb_header = rtcp_header_zero, fb_ssrc_sender = 0, fb_ssrc_media = 0, fb_fci = None, fb_fci_size = 0\<rparr>"

definition rtcp_fb_init :: "byte \<Rightarrow> byte \<Rightarrow> rtcp_fb" where
  "rtcp_fb_init pt fmt = rtcp_fb_create\<lparr>fb_header :=
     \<lparr>th_version = 2, th_p = 0, th_count = fmt AND 0x1f, th_pt = pt, th_length = 2\<rparr>\<rparr>"

definition rtcp_fb_size :: "rtcp_fb \<Rightarrow> nat" where
  "rtcp_fb_size packet = 12 + unat (fb_fci_size packet)"

definition rtcp_fb_set_fci :: "bytes \<Rightarrow> u16 \<Rightarrow> rtcp_fb \<Rightarrow> (int \<times> rtcp_fb) cxx" where
  "rtcp_fb_set_fci fci fci_size packet =
     (if fb_fci packet \<noteq> None then Some (-1, packet)
      else do {
        d \<leftarrow> rd_range fci 0 (unat fci_size);
        let packet = packet\<lparr>fb_fci := Some d, fb_fci_size := fci_size\<rparr>;
        Some (0, packet\<lparr>fb_header := (fb_header packet)
          \<lparr>th_length := word_of_nat (rtcp_fb_size packet div 4 - 1)\<rparr>\<rparr>) })"

definition rtcp_fb_free_fci :: "rtcp_fb \<Rightarrow> rtcp_fb" where
  "rtcp_fb_free_fci packet =
     packet\<lparr>fb_fci := None, fb_fci_size := 0, fb_header := (fb_header packet)\<lparr>th_length := 2, th_p := 0\<rparr>\<rparr>"

definition rtcp_fb_serialize :: "rtcp_fb \<Rightarrow> bytes \<Rightarrow> (int \<times> bytes) cxx" where
  "rtcp_fb_serialize packet buffer =
     (let packet_size = rtcp_fb_size packet in
      if length buffer < packet_size then Some (-1, buffer)
      else do {
        (r, buffer) \<leftarrow> rtcp_header_serialize (fb_header packet) buffer;
        if r < 0 then Some (r, buffer)
        else do {
          buffer \<leftarrow> wr_range buffer 4 (b32 (fb_ssrc_sender packet) @ b32 (fb_ssrc_media packet));
          buffer \<leftarrow> (case fb_fci packet of
              None \<Rightarrow> Some buffer
            | Some fci \<Rightarrow>
                if fb_fci_size packet > 0 then do {
                  d \<leftarrow> rd_range fci 0 (unat (fb_fci_size packet));
                  wr_range buffer 12 d }
                else Some buffer);
          Some (int packet_size, buffer) } })"

text \<open>
  The result of \<open>rtcp_header_parse\<close> is cut to 16 bits, as are \<open>(length - 2) * 4\<close> and the size of
  the packet computed from it.
\<close>

definition rtcp_fb_parse :: "rtcp_fb \<Rightarrow> bytes \<Rightarrow> (int \<times> rtcp_fb) cxx" where
  "rtcp_fb_parse packet buffer = do {
     (r, header) \<leftarrow> rtcp_header_parse (fb_header packet) buffer;
     let packet = packet\<lparr>fb_header := header\<rparr>;
     let pt = (word_of_int r :: u16);
     if pt \<noteq> ucast RTCP_RTPFB \<and> pt \<noteq> ucast RTCP_PSFB then Some (-1, packet)
     else do {
       ssrc_sender \<leftarrow> rd32 buffer 4;
       ssrc_media \<leftarrow> rd32 buffer 8;
       let packet = packet\<lparr>fb_ssrc_sender := ssrc_sender, fb_ssrc_media := ssrc_media\<rparr>;
       let fci_size = (th_length header - 2) * 4;
       let packet_size = 12 + fci_size;
       if length buffer < unat packet_size then Some (-1, packet)
       else do {
         (r, packet) \<leftarrow> rtcp_fb_set_fci (drop 12 buffer) fci_size packet;
         Some (if r < 0 then r else uint packet_size, packet) } } }"

section \<open>Loss reports\<close>

definition rtcp_rtpfb_nack_set :: "u16 \<Rightarrow> u16 \<Rightarrow> rtcp_fb \<Rightarrow> (int \<times> rtcp_fb) cxx" where
  "rtcp_rtpfb_nack_set fst_pid nxt16_pid packet = rtcp_fb_set_fci (b16 fst_pid @ b16 nxt16_pid) 4 packet"

text \<open>The result is \<open>None\<close> inside where the function fails and leaves its output arguments alone.\<close>

definition rtcp_rtpfb_nack_get :: "rtcp_fb \<Rightarrow> (u16 \<times> u16) option cxx" where
  "rtcp_rtpfb_nack_get packet =
     (if fb_fci_size packet < 4 then Some None
      else do {
        fci \<leftarrow> fb_fci packet;
        fst_pid \<leftarrow> rd16 fci 0;
        nxt16_pid \<leftarrow> rd16 fci 2;
        Some (Some (fst_pid, nxt16_pid)) })"

section \<open>Full intra requests\<close>

definition fir_item_bytes :: "rtcp_psfb_fir_item \<Rightarrow> bytes" where
  "fir_item_bytes item = b32 (fir_ssrc item) @ [fir_seq_nr item] @ b24 (fir_reserved item)"

definition rtcp_psfb_fir_set_items :: "rtcp_psfb_fir_item list \<Rightarrow> rtcp_fb \<Rightarrow> (int \<times> rtcp_fb) cxx" where
  "rtcp_psfb_fir_set_items items packet =
     (let buffer = concat (map fir_item_bytes items) in
      if length buffer = 0 then Some (-1, packet)
      else do {
        (_, packet) \<leftarrow> rtcp_fb_set_fci buffer (word_of_nat (length buffer)) packet;
        Some (0, packet) })"

definition rtcp_psfb_fir_item_count :: "rtcp_fb \<Rightarrow> int" where
  "rtcp_psfb_fir_item_count packet = (uint (th_length (fb_header packet)) - 2) sdiv 2"

definition rd_fir_item :: "bytes \<Rightarrow> nat \<Rightarrow> rtcp_psfb_fir_item cxx" where
  "rd_fir_item fci pos = do {
     ssrc \<leftarrow> rd32 fci pos;
     seq_nr \<leftarrow> rd8 fci (pos + 4);
     reserved \<leftarrow> rd24 fci (pos + 5);
     Some \<lparr>fir_ssrc = ssrc, fir_seq_nr = seq_nr, fir_reserved = reserved\<rparr> }"

definition rtcp_psfb_fir_get_item :: "rtcp_fb \<Rightarrow> int \<Rightarrow> rtcp_psfb_fir_item option cxx" where
  "rtcp_psfb_fir_get_item packet idx =
     (if idx \<ge> rtcp_psfb_fir_item_count packet \<or> idx < 0 then Some None
      else do {
        fci \<leftarrow> fb_fci packet;
        item \<leftarrow> rd_fir_item fci (nat idx * 8);
        Some (Some item) })"

fun fir_find_loop :: "bytes option \<Rightarrow> u32 \<Rightarrow> nat \<Rightarrow> nat \<Rightarrow> (int \<times> rtcp_psfb_fir_item option) cxx" where
  "fir_find_loop fci src i 0 = Some (-1, None)"
| "fir_find_loop fci src i (Suc n) = do {
     d \<leftarrow> fci;
     ssrc \<leftarrow> rd32 d (i * 8);
     if ssrc = src then do { item \<leftarrow> rd_fir_item d (i * 8); Some (int i, Some item) }
     else fir_find_loop fci src (i + 1) n }"

definition rtcp_psfb_fir_find_item :: "rtcp_fb \<Rightarrow> u32 \<Rightarrow> (int \<times> rtcp_psfb_fir_item option) cxx" where
  "rtcp_psfb_fir_find_item packet src = fir_find_loop (fb_fci packet) src 0 (nat (rtcp_psfb_fir_item_count packet))"

section \<open>The wire format\<close>

definition rtcp_fb_ok :: "rtcp_fb \<Rightarrow> bool" where
  "rtcp_fb_ok fb \<longleftrightarrow> rtcp_header_ok (fb_header fb) \<and> th_pt (fb_header fb) \<in> {RTCP_RTPFB, RTCP_PSFB} \<and>
     (case fb_fci fb of None \<Rightarrow> False
      | Some d \<Rightarrow> length d mod 4 = 0 \<and> length d < 65524 \<and> fb_fci_size fb = word_of_nat (length d) \<and>
          th_length (fb_header fb) = word_of_nat (length d div 4 + 2))"

definition fb_fci_data :: "rtcp_fb \<Rightarrow> bytes" where
  "fb_fci_data fb = (case fb_fci fb of None \<Rightarrow> [] | Some d \<Rightarrow> d)"

definition rtcp_fb_bytes :: "rtcp_fb \<Rightarrow> bytes" where
  "rtcp_fb_bytes fb = rtcp_header_bytes (fb_header fb) @ b32 (fb_ssrc_sender fb) @ b32 (fb_ssrc_media fb) @ fb_fci_data fb"

lemma rtcp_fb_serialize_bytes:
  assumes "rtcp_header_ok (fb_header fb)" "unat (fb_fci_size fb) = length (fb_fci_data fb)" "rtcp_fb_size fb \<le> length buffer"
  shows "rtcp_fb_serialize fb buffer = Some (int (rtcp_fb_size fb), rtcp_fb_bytes fb @ drop (rtcp_fb_size fb) buffer)"
proof -
  define h where "h = rtcp_header_bytes (fb_header fb)"
  define n where "n = length (fb_fci_data fb)"
  have n: "rtcp_fb_size fb = 12 + n" "unat (fb_fci_size fb) = n"
    using assms(2) by (simp_all add: rtcp_fb_size_def n_def)
  have l: "length h = 4"
    by (simp add: h_def)
  have 1: "rtcp_header_serialize (fb_header fb) buffer = Some (4, h @ drop 4 buffer)"
    using assms n unfolding h_def by (intro rtcp_header_serialize_bytes) auto
  have 2: "wr_range (h @ drop 4 buffer) 4 (b32 (fb_ssrc_sender fb) @ b32 (fb_ssrc_media fb)) =
      Some (h @ (b32 (fb_ssrc_sender fb) @ b32 (fb_ssrc_media fb)) @ drop 12 buffer)"
    using assms(3) n l by (subst wr_range_at) simp_all
  have 3: "wr_range (h @ (b32 (fb_ssrc_sender fb) @ b32 (fb_ssrc_media fb)) @ drop 12 buffer) 12 (fb_fci_data fb) =
      Some ((h @ b32 (fb_ssrc_sender fb) @ b32 (fb_ssrc_media fb)) @ fb_fci_data fb @ drop (12 + n) buffer)"
    using assms(3) n l wr_range_at [of 12 "h @ b32 (fb_ssrc_sender fb) @ b32 (fb_ssrc_media fb)" "fb_fci_data fb" "drop 12 buffer"]
    by (simp add: n_def add.commute)
  show ?thesis
    using assms(3) 1 2 3 n unfolding rtcp_fb_serialize_def Let_def
    by (cases "fb_fci fb")
      (auto simp: rtcp_fb_bytes_def h_def fb_fci_data_def rd_range_def word_gt_0 unat_eq_0 n_def)
qed

lemma rtcp_fb_wire:
  assumes "rtcp_fb_ok fb"
  shows "rtcp_fb_serialize fb (replicate (rtcp_fb_size fb) 0) = Some (int (rtcp_fb_size fb), rtcp_fb_bytes fb) \<and>
    rtcp_fb_parse rtcp_fb_create (rtcp_fb_bytes fb) = Some (int (rtcp_fb_size fb), fb)"
proof -
  obtain d where d: "fb_fci fb = Some d" "length d mod 4 = 0" "length d < 65524"
      "fb_fci_size fb = word_of_nat (length d)" "th_length (fb_header fb) = word_of_nat (length d div 4 + 2)"
    using assms by (auto simp: rtcp_fb_ok_def split: option.splits)
  have h: "rtcp_header_ok (fb_header fb)" "th_pt (fb_header fb) \<in> {RTCP_RTPFB, RTCP_PSFB}"
    using assms by (auto simp: rtcp_fb_ok_def)
  have s: "(th_length (fb_header fb) - 2) * 4 = (word_of_nat (length d) :: u16)"
  proof -
    have "(word_of_nat (length d div 4 + 2) - 2) * 4 = (word_of_nat (length d div 4 * 4) :: u16)"
      by simp
    also have "length d div 4 * 4 = length d"
      using d(2) by auto
    finally show ?thesis
      by (simp add: d(5))
  qed
  have u: "unat (word_of_nat (length d) :: u16) = length d" "unat (12 + word_of_nat (length d) :: u16) = 12 + length d"
    using d(3) unat_of_nat_small [of "length d", where 'a = 16] unat_of_nat_small [of "12 + length d", where 'a = 16] by simp_all
  have ser: "rtcp_fb_serialize fb (replicate (rtcp_fb_size fb) 0) = Some (int (rtcp_fb_size fb), rtcp_fb_bytes fb)"
    using h d u rtcp_fb_serialize_bytes [of fb "replicate (rtcp_fb_size fb) 0"]
    by (simp add: fb_fci_data_def)
  have p: "uint (12 + word_of_nat (length d) :: u16) = int (rtcp_fb_size fb)"
    using d(4) by (simp only: uint_nat u) (simp add: rtcp_fb_size_def u)
  have sz: "rtcp_fb_size fb div 4 - 1 = length d div 4 + 2"
    using d(2) u d(4) by (auto simp: rtcp_fb_size_def)
  have bytes: "rtcp_fb_bytes fb = rtcp_header_bytes (fb_header fb) @ b32 (fb_ssrc_sender fb) @ b32 (fb_ssrc_media fb) @ d"
    by (simp add: rtcp_fb_bytes_def fb_fci_data_def d(1))
  have "rtcp_fb_parse rtcp_fb_create (rtcp_fb_bytes fb) = Some (int (rtcp_fb_size fb), fb)"
    using h d u s p sz unfolding bytes rtcp_fb_parse_def
    by (cases fb) (auto simp: rtcp_header_parse_bytes rtcp_fb_create_def rtcp_fb_set_fci_def rd_range_def Let_def
        rtcp_fb_size_def rtcp_types)
  with ser show ?thesis by blast
qed

text \<open>The inputs on which parsing reads outside the buffer.\<close>

lemma rtcp_fb_parse_undefined_iff:
  "rtcp_fb_parse rtcp_fb_create d = None \<longleftrightarrow>
   4 \<le> length d \<and> drop_bit 6 (d ! 0) AND 0x3 = 2 \<and> d ! 1 \<in> {RTCP_RTPFB, RTCP_PSFB} \<and>
   (length d < 12 \<or>
    (let fci_size = (be16 (d ! 2) (d ! 3) - 2) * 4
     in unat (12 + fci_size) \<le> length d \<and> length d < 12 + unat fci_size))"
proof -
  have w: "uint (word_of_int (uint b) :: u16) = uint b" "uint (ucast b :: u16) = uint b" for b :: byte
    using uint_bounded [of b] uint_nonnegative [of b] by (simp_all add: uint_word_of_int_eq unsigned_ucast_eq take_bit_int_eq_self)
  have pt: "(word_of_int (uint b) :: u16) = ucast c \<longleftrightarrow> b = c" for b c :: byte
    by (simp only: word_uint_eq_iff w)
  have pt': "ucast b = (205 :: u16) \<longleftrightarrow> b = 205" "ucast b = (206 :: u16) \<longleftrightarrow> b = 206" for b :: byte
    using pt [of b 205] pt [of b 206] by simp_all
  show ?thesis
  proof (cases "length d < 4")
    case False
    then have r: "rd8 d 0 = Some (d ! 0)" "rd8 d 1 = Some (d ! 1)" "rd16 d 2 = Some (be16 (d ! 2) (d ! 3))"
      by (auto simp: rd8_def rd16_in)
    have n: "rd32 d i = None \<longleftrightarrow> length d < i + 4" for i
      by (auto simp: rd32_def rd8_def)
    show ?thesis
      using False r n [of 4] n [of 8]
      by (cases "rd32 d 4"; cases "rd32 d 8")
        (auto simp: rtcp_fb_parse_def rtcp_header_parse_def rtcp_fb_set_fci_def rtcp_fb_create_def Let_def
          rd_range_def rtcp_types pt' split: if_splits)
  qed (simp add: rtcp_fb_parse_def rtcp_header_parse_def rtcp_types)
qed

end
