(* ===== verification/Rtcp_Report.thy ===== *)
theory Rtcp_Report
  imports Rtcp_Header
begin

text \<open>
  Sender and receiver reports: \<open>rtpx/rtp/rtcp_report.c\<close>, \<open>rtcp_sr.c\<close>, \<open>rtcp_rr.c\<close> and the class of
  \<open>rtpx/rtcp/report.cpp\<close> around them. The two packets hold their report blocks in an allocated array
  and treat it in the same way; the operations on that array are defined once. \<open>rtcp_report_init\<close>
  computes with floating point and is left out.
\<close>

unbundle bit_operations_syntax

section \<open>Report blocks\<close>

text \<open>\<open>lost\<close> is a signed bit field of 24 bits.\<close>

record rtcp_report =
  rp_ssrc :: u32
  rp_fraction :: byte
  rp_lost :: int
  rp_last_seq :: u32
  rp_jitter :: u32
  rp_lsr :: u32
  rp_dlsr :: u32

definition rtcp_report_zero :: rtcp_report where
  "rtcp_report_zero = \<lparr>rp_ssrc = 0, rp_fraction = 0, rp_lost = 0, rp_last_seq = 0, rp_jitter = 0, rp_lsr = 0, rp_dlsr = 0\<rparr>"

definition rtcp_report_serialize :: "rtcp_report \<Rightarrow> bytes \<Rightarrow> (int \<times> bytes) cxx" where
  "rtcp_report_serialize report buffer =
     (if length buffer < 24 then Some (-1, buffer)
      else do {
        buffer \<leftarrow> wr_range buffer 0 (b32 (rp_ssrc report) @ [rp_fraction report] @ bs24 (rp_lost report) @
          b32 (rp_last_seq report) @ b32 (rp_jitter report) @ b32 (rp_lsr report) @ b32 (rp_dlsr report));
        Some (24, buffer) })"

definition rtcp_report_parse :: "rtcp_report \<Rightarrow> bytes \<Rightarrow> (int \<times> rtcp_report) cxx" where
  "rtcp_report_parse report buffer =
     (if length buffer < 24 then Some (-1, report)
      else do {
        ssrc \<leftarrow> rd32 buffer 0;
        fraction \<leftarrow> rd8 buffer 4;
        lost \<leftarrow> rds24 buffer 5;
        last_seq \<leftarrow> rd32 buffer 8;
        jitter \<leftarrow> rd32 buffer 12;
        lsr \<leftarrow> rd32 buffer 16;
        dlsr \<leftarrow> rd32 buffer 20;
        Some (0, \<lparr>rp_ssrc = ssrc, rp_fraction = fraction, rp_lost = lost, rp_last_seq = last_seq,
                  rp_jitter = jitter, rp_lsr = lsr, rp_dlsr = dlsr\<rparr>) })"

section \<open>Arrays of report blocks\<close>

text \<open>
  The loops of serialization and parsing, from index \<open>i\<close> with \<open>n\<close> blocks left. An \<open>offset\<close> behind the
  end makes the unsigned \<open>size - offset\<close> wrap, so that the size check passes and the access is
  outside the buffer.
\<close>

fun write_reports :: "rtcp_report list option \<Rightarrow> nat \<Rightarrow> nat \<Rightarrow> nat \<Rightarrow> bytes \<Rightarrow> (bool \<times> nat \<times> bytes) cxx" where
  "write_reports reports i 0 offset buffer = Some (True, offset, buffer)"
| "write_reports reports i (Suc n) offset buffer = do {
     report \<leftarrow> arr_get reports i;
     if length buffer < offset then None
     else do {
       (result, b) \<leftarrow> rtcp_report_serialize report (drop offset buffer);
       if result < 0 then Some (False, offset, buffer)
       else write_reports reports (i + 1) n (offset + nat result) (take offset buffer @ b) } }"

fun read_reports :: "bytes \<Rightarrow> nat \<Rightarrow> nat \<Rightarrow> (bool \<times> rtcp_report list) cxx" where
  "read_reports buffer offset 0 = Some (True, [])"
| "read_reports buffer offset (Suc n) =
     (if length buffer < offset then None
      else do {
        (r, report) \<leftarrow> rtcp_report_parse rtcp_report_zero (drop offset buffer);
        if r < 0 then Some (False, replicate (Suc n) rtcp_report_zero)
        else do { (ok, reports) \<leftarrow> read_reports buffer (offset + 24) n; Some (ok, report # reports) } })"

fun reports_find_loop :: "rtcp_report list option \<Rightarrow> u32 \<Rightarrow> nat \<Rightarrow> nat \<Rightarrow> nat option cxx" where
  "reports_find_loop reports src i 0 = Some None"
| "reports_find_loop reports src i (Suc n) = do {
     report \<leftarrow> arr_get reports i;
     if rp_ssrc report = src then Some (Some i) else reports_find_loop reports src (i + 1) n }"

definition reports_find :: "rtcp_report list option \<Rightarrow> byte \<Rightarrow> u32 \<Rightarrow> nat option cxx" where
  "reports_find reports count src = reports_find_loop reports src 0 (unat count)"

text \<open>
  The count is a bit field of five bits: it wraps at 32, and the guard for \<open>0xff\<close> never applies. The
  element written is then that at index \<open>-1\<close>.
\<close>

definition reports_add :: "rtcp_report list option \<Rightarrow> byte \<Rightarrow> rtcp_report \<Rightarrow> (rtcp_report list option \<times> byte) option cxx" where
  "reports_add reports count report =
     (if count = 0 then Some (Some (Some [report], 1))
      else if count = 0xff then Some None
      else do {
        found \<leftarrow> reports_find reports count (rp_ssrc report);
        if found \<noteq> None then Some None
        else do {
          let count' = (count + 1) AND 0x1f;
          if count' = 0 then None
          else do {
            old \<leftarrow> reports;
            if length old < unat count then None
            else Some (Some (Some (take (unat count) old @ [report]), count')) } } })"

text \<open>
  A block as its six words in memory. The removal divides the index of the block by the size of a
  block once more, and moves as many words as it should move blocks.
\<close>

definition report_words :: "rtcp_report \<Rightarrow> u32 list" where
  "report_words r = [rp_ssrc r, ucast (rp_fraction r) OR push_bit 8 (word_of_int (rp_lost r)),
     rp_last_seq r, rp_jitter r, rp_lsr r, rp_dlsr r]"

fun words_reports :: "u32 list \<Rightarrow> rtcp_report list" where
  "words_reports (a # b # c # d # e # f # ws) =
     \<lparr>rp_ssrc = a, rp_fraction = ucast b, rp_lost = signed_take_bit 23 (sint (drop_bit 8 b)),
      rp_last_seq = c, rp_jitter = d, rp_lsr = e, rp_dlsr = f\<rparr> # words_reports ws"
| "words_reports _ = []"

definition reports_remove :: "rtcp_report list option \<Rightarrow> byte \<Rightarrow> u32 \<Rightarrow> (rtcp_report list option \<times> byte) option cxx" where
  "reports_remove reports count src = do {
     found \<leftarrow> reports_find reports count src;
     case found of
       None \<Rightarrow> Some None
     | Some offset \<Rightarrow> do {
         old \<leftarrow> reports;
         let n = unat count - offset div 24;
         let words = concat (map report_words old);
         if 6 * (offset + 1) + n > length words then None
         else do {
           let moved = take (6 * offset) words @ take n (drop (6 * (offset + 1)) words) @ drop (6 * offset + n) words;
           let count' = count - 1;
           Some (Some (if count' > 0 then Some (take (unat count') (words_reports moved)) else None, count')) } } }"

section \<open>Sender reports\<close>

record rtcp_sr =
  sr_header :: rtcp_header
  sr_ssrc :: u32
  sr_ntp_sec :: u32
  sr_ntp_frac :: u32
  sr_rtp_ts :: u32
  sr_pkt_count :: u32
  sr_byte_count :: u32
  sr_reports :: "rtcp_report list option"
  sr_ext_size :: nat
  sr_ext_data :: "bytes option"

definition rtcp_sr_create :: rtcp_sr where
  "rtcp_sr_create = \<lparr>sr_header = rtcp_header_zero, sr_ssrc = 0, sr_ntp_sec = 0, sr_ntp_frac = 0, sr_rtp_ts = 0,
     sr_pkt_count = 0, sr_byte_count = 0, sr_reports = None, sr_ext_size = 0, sr_ext_data = None\<rparr>"

definition rtcp_sr_init :: "rtcp_sr \<Rightarrow> rtcp_sr" where
  "rtcp_sr_init packet =
     packet\<lparr>sr_header := (sr_header packet)\<lparr>th_version := 2, th_pt := RTCP_SR, th_length := 6\<rparr>\<rparr>"

text \<open>The bytes the extension adds to a size, with the padding of the sum.\<close>

definition rtcp_ext_size :: "nat \<Rightarrow> nat \<Rightarrow> bytes option \<Rightarrow> nat" where
  "rtcp_ext_size base ext_size ext_data =
     (if ext_data \<noteq> None \<and> ext_size \<noteq> 0 then base + ext_size + pad4 (base + ext_size) else base)"

definition rtcp_sr_size :: "rtcp_sr \<Rightarrow> nat" where
  "rtcp_sr_size packet =
     rtcp_ext_size (28 + unat (th_count (sr_header packet)) * 24) (sr_ext_size packet) (sr_ext_data packet)"

definition rtcp_sr_serialize :: "rtcp_sr \<Rightarrow> bytes \<Rightarrow> (int \<times> bytes) cxx" where
  "rtcp_sr_serialize packet buffer =
     (let packet_size = rtcp_sr_size packet in
      if length buffer < packet_size then Some (-1, buffer)
      else do {
        (r, buffer) \<leftarrow> rtcp_header_serialize (sr_header packet) buffer;
        if r < 0 then Some (-1, buffer)
        else do {
          buffer \<leftarrow> wr_range buffer 4 (b32 (sr_ssrc packet) @ b32 (sr_ntp_sec packet) @ b32 (sr_ntp_frac packet) @
            b32 (sr_rtp_ts packet) @ b32 (sr_pkt_count packet) @ b32 (sr_byte_count packet));
          (ok, offset, buffer) \<leftarrow> write_reports (sr_reports packet) 0 (unat (th_count (sr_header packet))) 28 buffer;
          if \<not> ok then Some (-1, buffer)
          else do {
            buffer \<leftarrow> (case sr_ext_data packet of None \<Rightarrow> Some buffer
                       | Some e \<Rightarrow> do { d \<leftarrow> rd_range e 0 (sr_ext_size packet); wr_range buffer offset d });
            Some (int packet_size, buffer) } } })"

text \<open>
  The rest of a packet is its extension: \<open>length - offset\<close> is unsigned, and where it wraps the
  allocation of that size fails and the copy goes to a null pointer.
\<close>

definition rtcp_ext_parse :: "bytes \<Rightarrow> u16 \<Rightarrow> nat \<Rightarrow> bytes option cxx" where
  "rtcp_ext_parse buffer len offset =
     (let length = (unat len + 1) * 4 in
      if length < offset then None
      else if length = offset then Some None
      else do { d \<leftarrow> rd_range buffer offset length; Some (Some d) })"

definition ext_len :: "bytes option \<Rightarrow> nat" where
  "ext_len ext = (case ext of None \<Rightarrow> 0 | Some d \<Rightarrow> length d)"

definition rtcp_sr_parse :: "rtcp_sr \<Rightarrow> bytes \<Rightarrow> (int \<times> rtcp_sr) cxx" where
  "rtcp_sr_parse packet buffer = do {
     (pt, header) \<leftarrow> rtcp_header_parse (sr_header packet) buffer;
     let packet = packet\<lparr>sr_header := header\<rparr>;
     if pt \<noteq> uint RTCP_SR then Some (-1, packet)
     else do {
       ssrc \<leftarrow> rd32 buffer 4;
       ntp_sec \<leftarrow> rd32 buffer 8;
       ntp_frac \<leftarrow> rd32 buffer 12;
       rtp_ts \<leftarrow> rd32 buffer 16;
       pkt_count \<leftarrow> rd32 buffer 20;
       byte_count \<leftarrow> rd32 buffer 24;
       let packet = packet\<lparr>sr_ssrc := ssrc, sr_ntp_sec := ntp_sec, sr_ntp_frac := ntp_frac, sr_rtp_ts := rtp_ts,
                           sr_pkt_count := pkt_count, sr_byte_count := byte_count\<rparr>;
       let count = unat (th_count header);
       (ok, reports) \<leftarrow> read_reports buffer 28 count;
       let packet = (if count \<noteq> 0 then packet\<lparr>sr_reports := Some reports\<rparr> else packet);
       if \<not> ok then Some (-1, packet)
       else do {
         ext \<leftarrow> rtcp_ext_parse buffer (th_length header) (28 + count * 24);
         let packet = packet\<lparr>sr_ext_size := ext_len ext\<rparr>;
         Some (0, if ext \<noteq> None then packet\<lparr>sr_ext_data := ext\<rparr> else packet) } } }"

definition rtcp_sr_find_report :: "rtcp_sr \<Rightarrow> u32 \<Rightarrow> nat option cxx" where
  "rtcp_sr_find_report packet src_id = reports_find (sr_reports packet) (th_count (sr_header packet)) src_id"

definition sr_update_length :: "rtcp_sr \<Rightarrow> rtcp_sr" where
  "sr_update_length packet =
     packet\<lparr>sr_header := (sr_header packet)\<lparr>th_length := word_of_nat (rtcp_sr_size packet div 4 - 1)\<rparr>\<rparr>"

definition rtcp_sr_add_report :: "rtcp_report \<Rightarrow> rtcp_sr \<Rightarrow> (int \<times> rtcp_sr) cxx" where
  "rtcp_sr_add_report report packet = do {
     added \<leftarrow> reports_add (sr_reports packet) (th_count (sr_header packet)) report;
     Some (case added of
         None \<Rightarrow> (-1, packet)
       | Some (reports, count) \<Rightarrow>
           (0, sr_update_length (packet\<lparr>sr_reports := reports, sr_header := (sr_header packet)\<lparr>th_count := count\<rparr>\<rparr>))) }"

definition rtcp_sr_remove_report :: "u32 \<Rightarrow> rtcp_sr \<Rightarrow> rtcp_sr cxx" where
  "rtcp_sr_remove_report src_id packet = do {
     removed \<leftarrow> reports_remove (sr_reports packet) (th_count (sr_header packet)) src_id;
     Some (case removed of
         None \<Rightarrow> packet
       | Some (reports, count) \<Rightarrow>
           sr_update_length (packet\<lparr>sr_reports := reports, sr_header := (sr_header packet)\<lparr>th_count := count\<rparr>\<rparr>)) }"

definition rtcp_sr_set_ext :: "bytes \<Rightarrow> rtcp_sr \<Rightarrow> int \<times> rtcp_sr" where
  "rtcp_sr_set_ext data packet =
     (if length data mod 4 \<noteq> 0 then (-1, packet)
      else if sr_ext_data packet \<noteq> None then (-1, packet)
      else (0, sr_update_length (packet\<lparr>sr_ext_size := length data, sr_ext_data := Some data\<rparr>)))"

definition rtcp_sr_clear_ext :: "rtcp_sr \<Rightarrow> rtcp_sr" where
  "rtcp_sr_clear_ext packet =
     sr_update_length (if sr_ext_data packet \<noteq> None then packet\<lparr>sr_ext_data := None, sr_ext_size := 0\<rparr> else packet)"

section \<open>Receiver reports\<close>

record rtcp_rr =
  rr_header :: rtcp_header
  rr_ssrc :: u32
  rr_reports :: "rtcp_report list option"
  rr_ext_size :: nat
  rr_ext_data :: "bytes option"

definition rtcp_rr_create :: rtcp_rr where
  "rtcp_rr_create = \<lparr>rr_header = rtcp_header_zero, rr_ssrc = 0, rr_reports = None, rr_ext_size = 0, rr_ext_data = None\<rparr>"

definition rtcp_rr_init :: "rtcp_rr \<Rightarrow> rtcp_rr" where
  "rtcp_rr_init packet =
     packet\<lparr>rr_header := (rr_header packet)\<lparr>th_version := 2, th_pt := RTCP_RR, th_length := 1\<rparr>\<rparr>"

definition rtcp_rr_size :: "rtcp_rr \<Rightarrow> nat" where
  "rtcp_rr_size packet =
     rtcp_ext_size (8 + unat (th_count (rr_header packet)) * 24) (rr_ext_size packet) (rr_ext_data packet)"

definition rtcp_rr_serialize :: "rtcp_rr \<Rightarrow> bytes \<Rightarrow> (int \<times> bytes) cxx" where
  "rtcp_rr_serialize packet buffer =
     (let packet_size = rtcp_rr_size packet in
      if length buffer < packet_size then Some (-1, buffer)
      else do {
        (r, buffer) \<leftarrow> rtcp_header_serialize (rr_header packet) buffer;
        if r < 0 then Some (-1, buffer)
        else do {
          buffer \<leftarrow> wr_range buffer 4 (b32 (rr_ssrc packet));
          (ok, offset, buffer) \<leftarrow> write_reports (rr_reports packet) 0 (unat (th_count (rr_header packet))) 8 buffer;
          if \<not> ok then Some (-1, buffer)
          else do {
            buffer \<leftarrow> (case rr_ext_data packet of None \<Rightarrow> Some buffer
                       | Some e \<Rightarrow> do { d \<leftarrow> rd_range e 0 (rr_ext_size packet); wr_range buffer offset d });
            Some (int packet_size, buffer) } } })"

definition rtcp_rr_parse :: "rtcp_rr \<Rightarrow> bytes \<Rightarrow> (int \<times> rtcp_rr) cxx" where
  "rtcp_rr_parse packet buffer = do {
     (pt, header) \<leftarrow> rtcp_header_parse (rr_header packet) buffer;
     let packet = packet\<lparr>rr_header := header\<rparr>;
     if pt \<noteq> uint RTCP_RR then Some (-1, packet)
     else do {
       ssrc \<leftarrow> rd32 buffer 4;
       let packet = packet\<lparr>rr_ssrc := ssrc\<rparr>;
       let count = unat (th_count header);
       (ok, reports) \<leftarrow> read_reports buffer 8 count;
       let packet = (if count \<noteq> 0 then packet\<lparr>rr_reports := Some reports\<rparr> else packet);
       if \<not> ok then Some (-1, packet)
       else do {
         ext \<leftarrow> rtcp_ext_parse buffer (th_length header) (8 + count * 24);
         let packet = packet\<lparr>rr_ext_size := ext_len ext\<rparr>;
         Some (0, if ext \<noteq> None then packet\<lparr>rr_ext_data := ext\<rparr> else packet) } } }"

definition rtcp_rr_find_report :: "rtcp_rr \<Rightarrow> u32 \<Rightarrow> nat option cxx" where
  "rtcp_rr_find_report packet src_id = reports_find (rr_reports packet) (th_count (rr_header packet)) src_id"

definition rr_update_length :: "rtcp_rr \<Rightarrow> rtcp_rr" where
  "rr_update_length packet =
     packet\<lparr>rr_header := (rr_header packet)\<lparr>th_length := word_of_nat (rtcp_rr_size packet div 4 - 1)\<rparr>\<rparr>"

definition rtcp_rr_add_report :: "rtcp_report \<Rightarrow> rtcp_rr \<Rightarrow> (int \<times> rtcp_rr) cxx" where
  "rtcp_rr_add_report report packet = do {
     added \<leftarrow> reports_add (rr_reports packet) (th_count (rr_header packet)) report;
     Some (case added of
         None \<Rightarrow> (-1, packet)
       | Some (reports, count) \<Rightarrow>
           (0, rr_update_length (packet\<lparr>rr_reports := reports, rr_header := (rr_header packet)\<lparr>th_count := count\<rparr>\<rparr>))) }"

definition rtcp_rr_remove_report :: "u32 \<Rightarrow> rtcp_rr \<Rightarrow> rtcp_rr cxx" where
  "rtcp_rr_remove_report src_id packet = do {
     removed \<leftarrow> reports_remove (rr_reports packet) (th_count (rr_header packet)) src_id;
     Some (case removed of
         None \<Rightarrow> packet
       | Some (reports, count) \<Rightarrow>
           rr_update_length (packet\<lparr>rr_reports := reports, rr_header := (rr_header packet)\<lparr>th_count := count\<rparr>\<rparr>)) }"

definition rtcp_rr_set_ext :: "bytes \<Rightarrow> rtcp_rr \<Rightarrow> int \<times> rtcp_rr" where
  "rtcp_rr_set_ext data packet =
     (if rr_ext_data packet \<noteq> None then (-1, packet)
      else (0, rr_update_length (packet\<lparr>rr_ext_size := length data, rr_ext_data := Some data\<rparr>)))"

definition rtcp_rr_clear_ext :: "rtcp_rr \<Rightarrow> rtcp_rr" where
  "rtcp_rr_clear_ext packet =
     rr_update_length (if rr_ext_data packet \<noteq> None then packet\<lparr>rr_ext_data := None, rr_ext_size := 0\<rparr> else packet)"

section \<open>The class around them\<close>

text \<open>\<open>rtcp::report\<close>: its members are left uninitialised by the constructor.\<close>

record report_obj =
  ro_header :: rtcp_header
  ro_ssrc :: u32
  ro_ntp_sec :: u32
  ro_ntp_frac :: u32
  ro_rtp_ts :: u32
  ro_pkt_count :: u32
  ro_byte_count :: u32
  ro_reports :: "rtcp_report list"
  ro_ext_data :: bytes

fun sr_add_all :: "rtcp_report list \<Rightarrow> rtcp_sr \<Rightarrow> rtcp_sr cxx" where
  "sr_add_all [] sr = Some sr"
| "sr_add_all (report # reports) sr = do { (_, sr) \<leftarrow> rtcp_sr_add_report report sr; sr_add_all reports sr }"

fun rr_add_all :: "rtcp_report list \<Rightarrow> rtcp_rr \<Rightarrow> rtcp_rr cxx" where
  "rr_add_all [] rr = Some rr"
| "rr_add_all (report # reports) rr = do { (_, rr) \<leftarrow> rtcp_rr_add_report report rr; rr_add_all reports rr }"

text \<open>\<open>byte_count_\<close> is not written; the result is \<open>None\<close> inside where the function returns \<open>false\<close>.\<close>

definition report_serialize_sr :: "report_obj \<Rightarrow> bytes option cxx" where
  "report_serialize_sr this = do {
     let sr = (rtcp_sr_init rtcp_sr_create)\<lparr>sr_header := ro_header this, sr_ssrc := ro_ssrc this,
                sr_ntp_sec := ro_ntp_sec this, sr_ntp_frac := ro_ntp_frac this, sr_rtp_ts := ro_rtp_ts this,
                sr_pkt_count := ro_pkt_count this\<rparr>;
     sr \<leftarrow> sr_add_all (ro_reports this) sr;
     let sr = (if length (ro_ext_data this) > 0 then snd (rtcp_sr_set_ext (ro_ext_data this) sr) else sr);
     (r, buf) \<leftarrow> rtcp_sr_serialize sr (replicate (rtcp_sr_size sr) 0);
     Some (if r < 0 then None else Some buf) }"

definition report_serialize_rr :: "report_obj \<Rightarrow> bytes option cxx" where
  "report_serialize_rr this = do {
     let rr = (rtcp_rr_init rtcp_rr_create)\<lparr>rr_header := ro_header this, rr_ssrc := ro_ssrc this\<rparr>;
     rr \<leftarrow> rr_add_all (ro_reports this) rr;
     let rr = (if length (ro_ext_data this) > 0 then snd (rtcp_rr_set_ext (ro_ext_data this) rr) else rr);
     (r, buf) \<leftarrow> rtcp_rr_serialize rr (replicate (rtcp_rr_size rr) 0);
     Some (if r < 0 then None else Some buf) }"

definition report_serialize :: "report_obj \<Rightarrow> bytes option cxx" where
  "report_serialize this =
     (if th_pt (ro_header this) = RTCP_SR then report_serialize_sr this
      else if th_pt (ro_header this) = RTCP_RR then report_serialize_rr this
      else Some None)"

definition copy_reports :: "rtcp_report list option \<Rightarrow> byte \<Rightarrow> rtcp_report list cxx" where
  "copy_reports reports count =
     (if count = 0 then Some []
      else do { rs \<leftarrow> reports; if length rs < unat count then None else Some (take (unat count) rs) })"

definition report_parse_sr :: "bytes \<Rightarrow> report_obj \<Rightarrow> (bool \<times> report_obj) cxx" where
  "report_parse_sr buffer this = do {
     (r, sr) \<leftarrow> rtcp_sr_parse (rtcp_sr_init rtcp_sr_create) buffer;
     if r < 0 then Some (False, this)
     else do {
       reports \<leftarrow> copy_reports (sr_reports sr) (th_count (sr_header sr));
       let this = this\<lparr>ro_header := sr_header sr, ro_ssrc := sr_ssrc sr, ro_ntp_sec := sr_ntp_sec sr,
         ro_ntp_frac := sr_ntp_frac sr, ro_rtp_ts := sr_rtp_ts sr, ro_pkt_count := sr_pkt_count sr,
         ro_byte_count := sr_byte_count sr, ro_reports := reports\<rparr>;
       Some (True, case sr_ext_data sr of
           Some d \<Rightarrow> if sr_ext_size sr > 0 then this\<lparr>ro_ext_data := d\<rparr> else this
         | None \<Rightarrow> this) } }"

definition report_parse_rr :: "bytes \<Rightarrow> report_obj \<Rightarrow> (bool \<times> report_obj) cxx" where
  "report_parse_rr buffer this = do {
     (r, rr) \<leftarrow> rtcp_rr_parse (rtcp_rr_init rtcp_rr_create) buffer;
     if r < 0 then Some (False, this)
     else do {
       reports \<leftarrow> copy_reports (rr_reports rr) (th_count (rr_header rr));
       let this = this\<lparr>ro_header := rr_header rr, ro_ssrc := rr_ssrc rr, ro_reports := reports\<rparr>;
       Some (True, case rr_ext_data rr of
           Some d \<Rightarrow> if rr_ext_size rr > 0 then this\<lparr>ro_ext_data := d\<rparr> else this
         | None \<Rightarrow> this) } }"

definition report_parse :: "bytes \<Rightarrow> report_obj \<Rightarrow> (bool \<times> report_obj) cxx" where
  "report_parse buffer this = do {
     pt \<leftarrow> rtcp_type buffer;
     if pt = uint RTCP_RR then report_parse_rr buffer this
     else if pt = uint RTCP_SR then report_parse_sr buffer this
     else Some (False, this) }"

section \<open>The wire format\<close>

definition report_ok :: "rtcp_report \<Rightarrow> bool" where
  "report_ok r \<longleftrightarrow> - (2 ^ 23) \<le> rp_lost r \<and> rp_lost r < 2 ^ 23"

definition report_bytes :: "rtcp_report \<Rightarrow> bytes" where
  "report_bytes r = b32 (rp_ssrc r) @ [rp_fraction r] @ bs24 (rp_lost r) @ b32 (rp_last_seq r) @
     b32 (rp_jitter r) @ b32 (rp_lsr r) @ b32 (rp_dlsr r)"

definition reports_bytes :: "rtcp_report list \<Rightarrow> bytes" where
  "reports_bytes rs = concat (map report_bytes rs)"

lemma length_report_bytes [simp]: "length (report_bytes r) = 24"
  by (simp add: report_bytes_def)

lemma length_reports_bytes [simp]: "length (reports_bytes rs) = 24 * length rs"
  by (induction rs) (simp_all add: reports_bytes_def)

lemma report_roundtrip:
  "24 \<le> length b \<Longrightarrow> rtcp_report_serialize r b = Some (24, report_bytes r @ drop 24 b)"
  "report_ok r \<Longrightarrow> rtcp_report_parse r0 (report_bytes r @ rest) = Some (0, r)"
  by (simp_all add: rtcp_report_serialize_def report_bytes_def wr_range_0 rtcp_report_parse_def report_ok_def rd8_append)

lemma write_reports_bytes:
  assumes "i + n \<le> length rs" "offset = length pre" "24 * n \<le> length old"
  shows "write_reports (Some rs) i n offset (pre @ old) =
    Some (True, offset + 24 * n, pre @ reports_bytes (take n (drop i rs)) @ drop (24 * n) old)"
  using assms
proof (induction n arbitrary: i offset pre old)
  case (Suc n)
  then have i: "i < length rs" by simp
  have "rtcp_report_serialize (rs ! i) old = Some (24, report_bytes (rs ! i) @ drop 24 old)"
    using Suc.prems by (intro report_roundtrip) simp
  moreover have "write_reports (Some rs) (Suc i) n (offset + 24) ((pre @ report_bytes (rs ! i)) @ drop 24 old) =
      Some (True, offset + 24 + 24 * n, (pre @ report_bytes (rs ! i)) @ reports_bytes (take n (drop (Suc i) rs)) @
        drop (24 * n) (drop 24 old))"
    using Suc.prems by (intro Suc.IH) simp_all
  moreover have "take (Suc n) (drop i rs) = rs ! i # take n (drop (Suc i) rs)"
    by (simp add: Cons_nth_drop_Suc [OF i, symmetric])
  ultimately show ?case
    using Suc.prems i by (simp add: arr_get_def reports_bytes_def add.commute)
qed (simp add: reports_bytes_def)

lemma read_reports_bytes:
  "list_all report_ok rs \<Longrightarrow> offset = length pre \<Longrightarrow>
   read_reports (pre @ reports_bytes rs @ rest) offset (length rs) = Some (True, rs)"
proof (induction rs arbitrary: pre offset)
  case (Cons r rs)
  have "read_reports ((pre @ report_bytes r) @ reports_bytes rs @ rest) (offset + 24) (length rs) = Some (True, rs)"
    using Cons.prems by (intro Cons.IH) simp_all
  then show ?case
    using Cons.prems by (simp add: reports_bytes_def report_roundtrip)
qed simp

text \<open>
  What makes the report blocks and the extension of a packet consistent: \<open>base\<close> is the number of
  bytes in front of the blocks.
\<close>

definition reports_ok :: "rtcp_report list option \<Rightarrow> byte \<Rightarrow> bool" where
  "reports_ok reports count \<longleftrightarrow>
     (case reports of None \<Rightarrow> count = 0
      | Some rs \<Rightarrow> 0 < length rs \<and> length rs < 32 \<and> count = word_of_nat (length rs) \<and> list_all report_ok rs)"

definition ext_ok :: "nat \<Rightarrow> bytes option \<Rightarrow> bool" where
  "ext_ok ext_size ext \<longleftrightarrow> ext_size = ext_len ext \<and> ext_size mod 4 = 0 \<and> ext_size < 260000 \<and> ext \<noteq> Some []"

definition sr_ok :: "rtcp_sr \<Rightarrow> bool" where
  "sr_ok p \<longleftrightarrow> rtcp_header_ok (sr_header p) \<and> th_pt (sr_header p) = RTCP_SR \<and>
     reports_ok (sr_reports p) (th_count (sr_header p)) \<and> ext_ok (sr_ext_size p) (sr_ext_data p) \<and>
     th_length (sr_header p) = word_of_nat (rtcp_sr_size p div 4 - 1)"

definition rr_ok :: "rtcp_rr \<Rightarrow> bool" where
  "rr_ok p \<longleftrightarrow> rtcp_header_ok (rr_header p) \<and> th_pt (rr_header p) = RTCP_RR \<and>
     reports_ok (rr_reports p) (th_count (rr_header p)) \<and> ext_ok (rr_ext_size p) (rr_ext_data p) \<and>
     th_length (rr_header p) = word_of_nat (rtcp_rr_size p div 4 - 1)"

definition reports_data :: "rtcp_report list option \<Rightarrow> bytes" where
  "reports_data reports = (case reports of None \<Rightarrow> [] | Some rs \<Rightarrow> reports_bytes rs)"

definition ext_data :: "bytes option \<Rightarrow> bytes" where
  "ext_data ext = (case ext of None \<Rightarrow> [] | Some d \<Rightarrow> d)"

lemma reports_data_length: "reports_ok reports count \<Longrightarrow> length (reports_data reports) = 24 * unat count"
  by (auto simp: reports_ok_def reports_data_def unat_of_nat split: option.splits)

lemma reports_count: "reports_ok reports count \<Longrightarrow> unat count < 32"
  by (auto simp: reports_ok_def unat_of_nat split: option.splits)

lemma write_reports_ok:
  assumes "reports_ok reports count" "offset = length pre" "24 * unat count \<le> length old"
  shows "write_reports reports 0 (unat count) offset (pre @ old) =
    Some (True, offset + 24 * unat count, pre @ reports_data reports @ drop (24 * unat count) old)"
proof (cases reports)
  case (Some rs)
  then have "unat count = length rs"
    using assms(1) by (auto simp: reports_ok_def unat_of_nat)
  then show ?thesis
    using Some assms write_reports_bytes [of 0 "length rs" rs offset pre old] by (simp add: reports_data_def)
qed (use assms in \<open>simp add: reports_ok_def reports_data_def\<close>)

lemma read_reports_ok:
  assumes "reports_ok reports count" "offset = length pre"
  shows "read_reports (pre @ reports_data reports @ rest) offset (unat count) =
    Some (True, case reports of None \<Rightarrow> [] | Some rs \<Rightarrow> rs)"
  using assms read_reports_bytes [of _ offset pre rest]
  by (auto simp: reports_ok_def reports_data_def unat_of_nat split: option.splits)

lemma rtcp_ext_size_ok: "ext_ok n ext \<Longrightarrow> base mod 4 = 0 \<Longrightarrow> rtcp_ext_size base n ext = base + length (ext_data ext)"
  by (auto simp: ext_ok_def rtcp_ext_size_def ext_data_def ext_len_def pad4_def mod_add_eq [symmetric] split: option.splits)

lemma write_ext_ok:
  assumes "ext_ok n ext" "offset = length pre" "length (ext_data ext) = length old"
  shows "(case ext of None \<Rightarrow> Some (pre @ old @ post)
          | Some e \<Rightarrow> do { d \<leftarrow> rd_range e 0 n; wr_range (pre @ old @ post) offset d }) = Some (pre @ ext_data ext @ post)"
  using assms by (auto simp: ext_ok_def ext_len_def ext_data_def rd_range_def wr_range_mid split: option.splits)

lemma parse_ext_ok:
  assumes "ext_ok n ext" "offset = length pre" "(unat len + 1) * 4 = offset + length (ext_data ext)"
  shows "rtcp_ext_parse (pre @ ext_data ext @ rest) len offset = Some ext"
  using assms by (auto simp: ext_ok_def ext_len_def ext_data_def rtcp_ext_parse_def Let_def rd_range_def split: option.splits)

lemma report_length:
  assumes "n mod 4 = 0" "4 \<le> n" "n < 262144"
  shows "(unat (word_of_nat (n div 4 - 1) :: u16) + 1) * 4 = n"
proof -
  have "unat (word_of_nat (n div 4 - 1) :: u16) = n div 4 - 1"
    using assms by (intro unat_of_nat_small) simp
  then show ?thesis
    using assms by auto
qed

text \<open>Both packets are a header, fixed fields \<open>head\<close>, the report blocks and the extension.\<close>

lemma report_packet_size:
  assumes "reports_ok reports count" "ext_ok n ext" "base mod 4 = 0" "base \<le> 28"
  shows "rtcp_ext_size (base + unat count * 24) n ext = base + 24 * unat count + length (ext_data ext)"
    "(base + 24 * unat count + length (ext_data ext)) mod 4 = 0"
    "base + 24 * unat count + length (ext_data ext) < 262144"
proof -
  have e: "length (ext_data ext) mod 4 = 0" "length (ext_data ext) < 260000"
    using assms(2) by (auto simp: ext_ok_def ext_len_def ext_data_def split: option.splits)
  have "(base + unat count * 24) mod 4 = 0"
    using assms(3) by presburger
  then show "rtcp_ext_size (base + unat count * 24) n ext = base + 24 * unat count + length (ext_data ext)"
    using rtcp_ext_size_ok [OF assms(2)] by (simp add: mult.commute)
  show "(base + 24 * unat count + length (ext_data ext)) mod 4 = 0"
    using e assms(3) by presburger
  show "base + 24 * unat count + length (ext_data ext) < 262144"
    using e reports_count [OF assms(1)] assms(4) by simp
qed

lemma serialize_report_packet:
  fixes h :: rtcp_header
  defines "c \<equiv> unat (th_count h)"
  assumes "rtcp_header_ok h" "reports_ok reports (th_count h)" "ext_ok n ext"
    "base = 4 + length head" "sz = base + 24 * c + length (ext_data ext)"
  shows "do {
     (r, buffer) \<leftarrow> rtcp_header_serialize h (replicate sz 0);
     if r < 0 then Some (-1, buffer)
     else do {
       buffer \<leftarrow> wr_range buffer 4 head;
       (ok, offset, buffer) \<leftarrow> write_reports reports 0 c base buffer;
       if \<not> ok then Some (-1, buffer)
       else do {
         buffer \<leftarrow> (case ext of None \<Rightarrow> Some buffer | Some e \<Rightarrow> do { d \<leftarrow> rd_range e 0 n; wr_range buffer offset d });
         Some (int sz, buffer) } } } =
   Some (int sz, rtcp_header_bytes h @ head @ reports_data reports @ ext_data ext)"
proof -
  let ?e = "length (ext_data ext)" and ?h = "rtcp_header_bytes h"
  have 1: "rtcp_header_serialize h (replicate sz 0) = Some (4, ?h @ replicate (length head + 24 * c + ?e) 0)"
    using rtcp_header_serialize_bytes [OF assms(2), of "replicate sz 0"] assms(5,6) by simp
  have 2: "wr_range (?h @ replicate (length head + 24 * c + ?e) 0) 4 head = Some (?h @ head @ replicate (24 * c + ?e) 0)"
    by (subst wr_range_at) simp_all
  have 3: "write_reports reports 0 c base (?h @ head @ replicate (24 * c + ?e) 0) =
      Some (True, base + 24 * c, (?h @ head) @ reports_data reports @ replicate ?e 0)"
    using write_reports_ok [OF assms(3), of base "?h @ head" "replicate (24 * c + ?e) 0"] assms(5) by (simp add: c_def)
  have 4: "(case ext of None \<Rightarrow> Some ((?h @ head) @ reports_data reports @ replicate ?e 0)
       | Some e \<Rightarrow> do { d \<leftarrow> rd_range e 0 n; wr_range ((?h @ head) @ reports_data reports @ replicate ?e 0) (base + 24 * c) d }) =
      Some ((?h @ head) @ reports_data reports @ ext_data ext)"
    using write_ext_ok [OF assms(4), of "base + 24 * c" "(?h @ head) @ reports_data reports" "replicate ?e 0" "[]"]
      reports_data_length [OF assms(3)] assms(5) by (simp add: c_def cong: option.case_cong)
  show ?thesis
    using 1 2 3 4 by (simp cong: option.case_cong)
qed

lemma parse_report_packet:
  assumes "reports_ok reports count" "ext_ok n ext" "base = length pre" "base mod 4 = 0" "4 \<le> base" "base \<le> 28"
    "len = word_of_nat ((base + 24 * unat count + length (ext_data ext)) div 4 - 1)"
    "d = pre @ reports_data reports @ ext_data ext @ rest"
  shows "read_reports d base (unat count) = Some (True, case reports of None \<Rightarrow> [] | Some rs \<Rightarrow> rs)"
    "rtcp_ext_parse d len (base + unat count * 24) = Some ext"
proof -
  note sz = report_packet_size [OF assms(1,2,4,6)]
  show "read_reports d base (unat count) = Some (True, case reports of None \<Rightarrow> [] | Some rs \<Rightarrow> rs)"
    unfolding assms(8) by (rule read_reports_ok [OF assms(1,3)])
  have l: "(unat len + 1) * 4 = (base + unat count * 24) + length (ext_data ext)"
    using report_length [OF sz(2) _ sz(3)] assms(5) unfolding assms(7) by (simp add: mult.commute)
  show "rtcp_ext_parse d len (base + unat count * 24) = Some ext"
    using parse_ext_ok [OF assms(2) _ l, of "pre @ reports_data reports" rest] reports_data_length [OF assms(1)]
    by (simp add: assms(3,8))
qed

definition sr_head :: "rtcp_sr \<Rightarrow> bytes" where
  "sr_head p = b32 (sr_ssrc p) @ b32 (sr_ntp_sec p) @ b32 (sr_ntp_frac p) @ b32 (sr_rtp_ts p) @
     b32 (sr_pkt_count p) @ b32 (sr_byte_count p)"

definition sr_bytes :: "rtcp_sr \<Rightarrow> bytes" where
  "sr_bytes p = rtcp_header_bytes (sr_header p) @ sr_head p @ reports_data (sr_reports p) @ ext_data (sr_ext_data p)"

definition rr_bytes :: "rtcp_rr \<Rightarrow> bytes" where
  "rr_bytes p = rtcp_header_bytes (rr_header p) @ b32 (rr_ssrc p) @ reports_data (rr_reports p) @ ext_data (rr_ext_data p)"

lemma length_sr_head [simp]: "length (sr_head p) = 24"
  by (simp add: sr_head_def)

lemma sr_size_ok:
  "sr_ok p \<Longrightarrow> rtcp_sr_size p = 28 + 24 * unat (th_count (sr_header p)) + length (ext_data (sr_ext_data p))"
  using report_packet_size(1) [of "sr_reports p" _ "sr_ext_size p" "sr_ext_data p" 28] by (simp add: sr_ok_def rtcp_sr_size_def)

lemma rr_size_ok:
  "rr_ok p \<Longrightarrow> rtcp_rr_size p = 8 + 24 * unat (th_count (rr_header p)) + length (ext_data (rr_ext_data p))"
  using report_packet_size(1) [of "rr_reports p" _ "rr_ext_size p" "rr_ext_data p" 8] by (simp add: rr_ok_def rtcp_rr_size_def)

lemma sr_serialize_bytes:
  assumes "sr_ok p"
  shows "rtcp_sr_serialize p (replicate (rtcp_sr_size p) 0) = Some (int (rtcp_sr_size p), sr_bytes p)"
proof -
  have "rtcp_header_ok (sr_header p)" "reports_ok (sr_reports p) (th_count (sr_header p))" "ext_ok (sr_ext_size p) (sr_ext_data p)"
    using assms by (auto simp: sr_ok_def)
  note s = serialize_report_packet [OF this, of 28 "sr_head p" "rtcp_sr_size p"]
  show ?thesis
    unfolding rtcp_sr_serialize_def Let_def length_replicate sr_head_def [symmetric] sr_bytes_def
    by (subst if_not_P, simp, rule s) (simp_all add: sr_size_ok [OF assms])
qed

lemma rr_serialize_bytes:
  assumes "rr_ok p"
  shows "rtcp_rr_serialize p (replicate (rtcp_rr_size p) 0) = Some (int (rtcp_rr_size p), rr_bytes p)"
proof -
  have "rtcp_header_ok (rr_header p)" "reports_ok (rr_reports p) (th_count (rr_header p))" "ext_ok (rr_ext_size p) (rr_ext_data p)"
    using assms by (auto simp: rr_ok_def)
  note s = serialize_report_packet [OF this, of 8 "b32 (rr_ssrc p)" "rtcp_rr_size p"]
  show ?thesis
    unfolding rtcp_rr_serialize_def Let_def length_replicate rr_bytes_def
    by (subst if_not_P, simp, rule s) (simp_all add: rr_size_ok [OF assms])
qed

lemma reports_None: "reports_ok reports count \<Longrightarrow> reports = None \<longleftrightarrow> unat count = 0"
  by (auto simp: reports_ok_def unat_of_nat split: option.splits)

lemma sr_parse_bytes:
  assumes "sr_ok p" "sr_reports q = None" "sr_ext_data q = None"
  shows "rtcp_sr_parse q (sr_bytes p @ rest) = Some (0, p)"
proof -
  have ok: "reports_ok (sr_reports p) (th_count (sr_header p))" "ext_ok (sr_ext_size p) (sr_ext_data p)"
      "rtcp_header_ok (sr_header p)" "th_pt (sr_header p) = RTCP_SR" "th_length (sr_header p) = word_of_nat (rtcp_sr_size p div 4 - 1)"
    using assms(1) by (auto simp: sr_ok_def)
  have r: "read_reports (sr_bytes p @ rest) 28 (unat (th_count (sr_header p))) =
      Some (True, case sr_reports p of None \<Rightarrow> [] | Some rs \<Rightarrow> rs)"
    "rtcp_ext_parse (sr_bytes p @ rest) (th_length (sr_header p)) (28 + unat (th_count (sr_header p)) * 24) = Some (sr_ext_data p)"
    using parse_report_packet [OF ok(1,2), of 28 "rtcp_header_bytes (sr_header p) @ sr_head p" "th_length (sr_header p)" _ rest]
      ok(5) sr_size_ok [OF assms(1)] by (simp_all add: sr_bytes_def)
  have h: "rtcp_header_parse h0 (sr_bytes p @ rest) = Some (uint RTCP_SR, sr_header p)" for h0
    using rtcp_header_parse_bytes [OF ok(3)] ok(4) by (simp add: sr_bytes_def)
  have f: "rd32 (sr_bytes p @ rest) 4 = Some (sr_ssrc p)" "rd32 (sr_bytes p @ rest) 8 = Some (sr_ntp_sec p)"
    "rd32 (sr_bytes p @ rest) 12 = Some (sr_ntp_frac p)" "rd32 (sr_bytes p @ rest) 16 = Some (sr_rtp_ts p)"
    "rd32 (sr_bytes p @ rest) 20 = Some (sr_pkt_count p)" "rd32 (sr_bytes p @ rest) 24 = Some (sr_byte_count p)"
    by (simp_all add: sr_bytes_def sr_head_def)
  show ?thesis
    using r h f reports_None [OF ok(1)] ok(2) assms(2,3) unfolding rtcp_sr_parse_def
    by (cases p; cases "sr_reports p"; cases "sr_ext_data p") (auto simp: ext_ok_def Let_def)
qed

lemma rr_parse_bytes:
  assumes "rr_ok p" "rr_reports q = None" "rr_ext_data q = None"
  shows "rtcp_rr_parse q (rr_bytes p @ rest) = Some (0, p)"
proof -
  have ok: "reports_ok (rr_reports p) (th_count (rr_header p))" "ext_ok (rr_ext_size p) (rr_ext_data p)"
      "rtcp_header_ok (rr_header p)" "th_pt (rr_header p) = RTCP_RR" "th_length (rr_header p) = word_of_nat (rtcp_rr_size p div 4 - 1)"
    using assms(1) by (auto simp: rr_ok_def)
  have r: "read_reports (rr_bytes p @ rest) 8 (unat (th_count (rr_header p))) =
      Some (True, case rr_reports p of None \<Rightarrow> [] | Some rs \<Rightarrow> rs)"
    "rtcp_ext_parse (rr_bytes p @ rest) (th_length (rr_header p)) (8 + unat (th_count (rr_header p)) * 24) = Some (rr_ext_data p)"
    using parse_report_packet [OF ok(1,2), of 8 "rtcp_header_bytes (rr_header p) @ b32 (rr_ssrc p)" "th_length (rr_header p)" _ rest]
      ok(5) rr_size_ok [OF assms(1)] by (simp_all add: rr_bytes_def)
  have h: "rtcp_header_parse h0 (rr_bytes p @ rest) = Some (uint RTCP_RR, rr_header p)" for h0
    using rtcp_header_parse_bytes [OF ok(3)] ok(4) by (simp add: rr_bytes_def)
  have f: "rd32 (rr_bytes p @ rest) 4 = Some (rr_ssrc p)"
    by (simp add: rr_bytes_def)
  show ?thesis
    using r h f reports_None [OF ok(1)] ok(2) assms(2,3) unfolding rtcp_rr_parse_def
    by (cases p; cases "rr_reports p"; cases "rr_ext_data p") (auto simp: ext_ok_def Let_def)
qed

section \<open>Building reports\<close>

definition report_list :: "rtcp_report list option \<Rightarrow> rtcp_report list" where
  "report_list reports = (case reports of None \<Rightarrow> [] | Some rs \<Rightarrow> rs)"

lemma reports_find_loop_None:
  "i + n \<le> length rs \<Longrightarrow> src \<notin> rp_ssrc ` set rs \<Longrightarrow> reports_find_loop (Some rs) src i n = Some None"
  by (induction n arbitrary: i) (auto simp: arr_get_def)

lemma reports_add_ok:
  assumes "reports_ok reports count" "report_ok r" "rp_ssrc r \<notin> rp_ssrc ` set (report_list reports)"
    "length (report_list reports) < 31"
  shows "\<exists>count'. reports_add reports count r = Some (Some (Some (report_list reports @ [r]), count')) \<and>
     reports_ok (Some (report_list reports @ [r])) count' \<and> count' < 32"
proof (cases reports)
  case None
  then show ?thesis
    using assms by (auto simp: reports_ok_def reports_add_def report_list_def)
next
  case (Some rs)
  then have rs: "0 < length rs" "length rs < 31" "list_all report_ok rs" and c: "count = word_of_nat (length rs)"
    using assms by (auto simp: reports_ok_def report_list_def)
  have u: "unat count = length rs" "unat (count + 1) = length rs + 1"
    using rs unat_of_nat_small [of "length rs", where 'a = 8] unat_of_nat_small [of "length rs + 1", where 'a = 8]
    by (simp_all add: c add.commute)
  then have n: "count \<noteq> 0" "count \<noteq> 0xff" "count + 1 \<noteq> 0" "count + 1 < 32"
    using rs by (auto simp: word_less_nat_alt word_unat_eq_iff)
  have "(count + 1) AND 0x1f = count + 1"
    using n by (intro byte_and_small)
  moreover have "reports_find reports count (rp_ssrc r) = Some None"
    using assms Some u by (simp add: reports_find_def reports_find_loop_None report_list_def)
  ultimately show ?thesis
    using Some n u rs assms(2) by (simp add: reports_add_def reports_ok_def report_list_def Let_def c)
qed

lemma header_count_ok: "rtcp_header_ok h \<Longrightarrow> c < 32 \<Longrightarrow> rtcp_header_ok (h\<lparr>th_count := c, th_length := l\<rparr>)"
  by (simp add: rtcp_header_ok_def)

lemma sr_add_report_ok:
  assumes "sr_ok p" "report_ok r" "rp_ssrc r \<notin> rp_ssrc ` set (report_list (sr_reports p))"
    "length (report_list (sr_reports p)) < 31"
  shows "\<exists>p'. rtcp_sr_add_report r p = Some (0, p') \<and> sr_ok p' \<and> sr_reports p' = Some (report_list (sr_reports p) @ [r]) \<and>
    sr_ssrc p' = sr_ssrc p \<and> sr_ext_data p' = sr_ext_data p"
proof -
  obtain c where c: "reports_add (sr_reports p) (th_count (sr_header p)) r = Some (Some (Some (report_list (sr_reports p) @ [r]), c))"
      "reports_ok (Some (report_list (sr_reports p) @ [r])) c" "c < 32"
    using reports_add_ok [OF _ assms(2-4)] assms(1) by (auto simp: sr_ok_def)
  then show ?thesis
    using assms(1) header_count_ok [of "sr_header p" c]
    by (auto simp: rtcp_sr_add_report_def sr_update_length_def sr_ok_def rtcp_sr_size_def)
qed

lemma rr_add_report_ok:
  assumes "rr_ok p" "report_ok r" "rp_ssrc r \<notin> rp_ssrc ` set (report_list (rr_reports p))"
    "length (report_list (rr_reports p)) < 31"
  shows "\<exists>p'. rtcp_rr_add_report r p = Some (0, p') \<and> rr_ok p' \<and> rr_reports p' = Some (report_list (rr_reports p) @ [r]) \<and>
    rr_ssrc p' = rr_ssrc p \<and> rr_ext_data p' = rr_ext_data p"
proof -
  obtain c where c: "reports_add (rr_reports p) (th_count (rr_header p)) r = Some (Some (Some (report_list (rr_reports p) @ [r]), c))"
      "reports_ok (Some (report_list (rr_reports p) @ [r])) c" "c < 32"
    using reports_add_ok [OF _ assms(2-4)] assms(1) by (auto simp: rr_ok_def)
  then show ?thesis
    using assms(1) header_count_ok [of "rr_header p" c]
    by (auto simp: rtcp_rr_add_report_def rr_update_length_def rr_ok_def rtcp_rr_size_def)
qed

lemma sr_add_all_ok:
  assumes "sr_ok p" "list_all report_ok rs" "distinct (map rp_ssrc (report_list (sr_reports p) @ rs))"
    "length (report_list (sr_reports p) @ rs) < 32"
  shows "\<exists>p'. sr_add_all rs p = Some p' \<and> sr_ok p' \<and> report_list (sr_reports p') = report_list (sr_reports p) @ rs \<and>
    sr_ssrc p' = sr_ssrc p \<and> sr_ext_data p' = sr_ext_data p"
  using assms
proof (induction rs arbitrary: p)
  case (Cons r rs)
  obtain p1 where p1: "rtcp_sr_add_report r p = Some (0, p1)" "sr_ok p1" "sr_reports p1 = Some (report_list (sr_reports p) @ [r])"
      "sr_ssrc p1 = sr_ssrc p" "sr_ext_data p1 = sr_ext_data p"
    using sr_add_report_ok [of p r] Cons.prems by auto
  then show ?case
    using Cons.IH [of p1] Cons.prems by (auto simp: report_list_def)
qed simp

lemma sr_init_ok: "sr_ok (rtcp_sr_init rtcp_sr_create)"
  by (simp add: sr_ok_def rtcp_sr_init_def rtcp_sr_create_def rtcp_header_ok_def rtcp_header_zero_def reports_ok_def
      ext_ok_def ext_len_def rtcp_sr_size_def rtcp_ext_size_def)

section \<open>Round trips\<close>

lemma sr_roundtrip:
  assumes "sr_ok p"
  shows "rtcp_sr_serialize p (replicate (rtcp_sr_size p) 0) = Some (int (rtcp_sr_size p), sr_bytes p) \<and>
    rtcp_sr_parse rtcp_sr_create (sr_bytes p @ rest) = Some (0, p)"
  using sr_serialize_bytes [OF assms] sr_parse_bytes [OF assms] by (simp add: rtcp_sr_create_def)

text \<open>Reports added one by one to a fresh packet reach the other end.\<close>

text \<open>
  C31: up to 31 report blocks of different sources, with loss counts of 24 signed bits, added
  one after the other to a fresh sender report are all accepted; the packet serializes to
  exactly 28 + 24 n bytes, and parsing these bytes, whatever follows them, gives the packet back
  with the blocks in their order.
\<close>

theorem sr_reports_delivered:
  assumes "list_all report_ok rs" "distinct (map rp_ssrc rs)" "length rs < 32"
  shows "\<exists>p buf. sr_add_all rs (rtcp_sr_init rtcp_sr_create) = Some p \<and>
    rtcp_sr_serialize p (replicate (rtcp_sr_size p) 0) = Some (int (length buf), buf) \<and> length buf = 28 + 24 * length rs \<and>
    rtcp_sr_parse rtcp_sr_create (buf @ rest) = Some (0, p) \<and> report_list (sr_reports p) = rs"
proof -
  have z: "report_list (sr_reports (rtcp_sr_init rtcp_sr_create)) = []" "sr_ext_data (rtcp_sr_init rtcp_sr_create) = None"
    by (simp_all add: rtcp_sr_init_def rtcp_sr_create_def report_list_def)
  obtain p where p: "sr_add_all rs (rtcp_sr_init rtcp_sr_create) = Some p" "sr_ok p" "report_list (sr_reports p) = rs"
      "sr_ext_data p = None"
    using sr_add_all_ok [OF sr_init_ok assms(1)] assms z by auto
  have c: "unat (th_count (sr_header p)) = length rs"
    using p(2,3) by (auto simp: sr_ok_def reports_ok_def report_list_def unat_of_nat split: option.splits)
  have "length (sr_bytes p) = rtcp_sr_size p" "rtcp_sr_size p = 28 + 24 * length rs"
    using p(2,4) sr_size_ok [OF p(2)] c reports_data_length [of "sr_reports p"] by (auto simp: sr_bytes_def ext_data_def sr_ok_def)
  then show ?thesis
    using p sr_serialize_bytes [OF p(2)] sr_parse_bytes [OF p(2)] by (auto simp: rtcp_sr_create_def)
qed

lemma rr_roundtrip:
  assumes "rr_ok p"
  shows "rtcp_rr_serialize p (replicate (rtcp_rr_size p) 0) = Some (int (rtcp_rr_size p), rr_bytes p) \<and>
    rtcp_rr_parse rtcp_rr_create (rr_bytes p @ rest) = Some (0, p)"
  using rr_serialize_bytes [OF assms] rr_parse_bytes [OF assms] by (simp add: rtcp_rr_create_def)

text \<open>
  \<open>rtcp::report\<close> reads a receiver report, but cannot write one back that has report blocks: the
  header it restores already counts them, and the first \<open>add_report\<close> searches an array that is not
  there.
\<close>

lemma report_rewrite:
  assumes "rr_ok p" "ro_ext_data this = []"
  shows "\<exists>o'. report_parse (rr_bytes p) this = Some (True, o') \<and> ro_reports o' = report_list (rr_reports p) \<and>
    report_serialize o' = (if rr_reports p = None then Some (Some (rr_bytes p)) else None)"
proof -
  have ok: "reports_ok (rr_reports p) (th_count (rr_header p))" "ext_ok (rr_ext_size p) (rr_ext_data p)"
      "th_pt (rr_header p) = RTCP_RR"
    using assms by (auto simp: rr_ok_def)
  have empty: "rr_reports (rtcp_rr_init rtcp_rr_create) = None" "rr_ext_data (rtcp_rr_init rtcp_rr_create) = None"
    by (simp_all add: rtcp_rr_init_def rtcp_rr_create_def)
  define o' where "o' = this\<lparr>ro_header := rr_header p, ro_ssrc := rr_ssrc p, ro_reports := report_list (rr_reports p),
    ro_ext_data := ext_data (rr_ext_data p)\<rparr>"
  have "copy_reports (rr_reports p) (th_count (rr_header p)) = Some (report_list (rr_reports p))"
    using ok(1) reports_None [OF ok(1)]
    by (auto simp: copy_reports_def report_list_def reports_ok_def unat_of_nat word_unat_eq_iff split: option.splits)
  moreover have "rtcp_rr_parse (rtcp_rr_init rtcp_rr_create) (rr_bytes p) = Some (0, p)"
    using rr_parse_bytes [OF assms(1) empty, of "[]"] by simp
  ultimately have "report_parse_rr (rr_bytes p) this = Some (True, o')"
    using ok(2) assms(2)
    by (cases this; cases "rr_ext_data p")
      (auto simp: report_parse_rr_def o'_def ext_ok_def ext_len_def ext_data_def)
  moreover have "rtcp_type (rr_bytes p) = Some (uint RTCP_RR)"
    using ok(3) by (simp add: rr_bytes_def rtcp_header_bytes_def rtcp_type_def rtcp_types)
  ultimately have parse: "report_parse (rr_bytes p) this = Some (True, o')"
    by (simp add: report_parse_def)
  have ser: "report_serialize o' = report_serialize_rr o'"
    by (simp add: report_serialize_def o'_def ok(3) rtcp_types)
  have "report_serialize_rr o' = (if rr_reports p = None then Some (Some (rr_bytes p)) else None)"
  proof (cases "rr_reports p")
    case None
    define q where "q = (rtcp_rr_init rtcp_rr_create)\<lparr>rr_header := rr_header p, rr_ssrc := rr_ssrc p\<rparr>"
    have "(if length (ext_data (rr_ext_data p)) > 0 then snd (rtcp_rr_set_ext (ext_data (rr_ext_data p)) q) else q) = p"
      using None ok(2) assms(1)
      by (cases p; cases "rr_ext_data p")
        (auto simp: q_def rtcp_rr_init_def rtcp_rr_create_def ext_data_def ext_ok_def ext_len_def rtcp_rr_set_ext_def
          rr_update_length_def rr_ok_def rtcp_rr_size_def)
    then show ?thesis
      using None rr_serialize_bytes [OF assms(1)]
      by (cases "ext_data (rr_ext_data p) = []")
        (simp_all add: report_serialize_rr_def o'_def report_list_def Let_def flip: q_def)
  next
    case (Some rs)
    then obtain r rs' where rs: "rs = r # rs'"
      using ok(1) by (cases rs) (auto simp: reports_ok_def)
    have c: "th_count (rr_header p) \<noteq> 0" "unat (th_count (rr_header p)) < 32"
      using Some reports_count [OF ok(1)] reports_None [OF ok(1)] by auto
    then obtain n where "unat (th_count (rr_header p)) = Suc n"
      by (metis not0_implies_Suc unat_eq_zero)
    moreover have "th_count (rr_header p) \<noteq> 0xff"
      using c(2) by auto
    ultimately have "reports_add None (th_count (rr_header p)) r = None"
      using c(1) by (simp add: reports_add_def reports_find_def arr_get_def)
    then show ?thesis
      using Some by (simp add: report_serialize_rr_def o'_def report_list_def rs rtcp_rr_add_report_def
          rtcp_rr_init_def rtcp_rr_create_def)
  qed
  then show ?thesis
    using parse ser by (auto simp: o'_def)
qed

section \<open>Witnesses\<close>

theorem sr_reports_delivered_witness:
  "let r = \<lparr>rp_ssrc = 5, rp_fraction = 1, rp_lost = -3, rp_last_seq = 70000, rp_jitter = 2, rp_lsr = 0, rp_dlsr = 0\<rparr>
   in \<exists>p buf. sr_add_all [r, r\<lparr>rp_ssrc := 6\<rparr>] (rtcp_sr_init rtcp_sr_create) = Some p \<and>
     rtcp_sr_serialize p (replicate (rtcp_sr_size p) 0) = Some (76, buf) \<and>
     rtcp_sr_parse rtcp_sr_create (buf @ [1]) = Some (0, p) \<and> report_list (sr_reports p) = [r, r\<lparr>rp_ssrc := 6\<rparr>]"
proof -
  let ?r = "\<lparr>rp_ssrc = 5, rp_fraction = 1, rp_lost = -3, rp_last_seq = 70000, rp_jitter = 2, rp_lsr = 0, rp_dlsr = 0\<rparr>"
  show ?thesis
    using sr_reports_delivered [of "[?r, ?r\<lparr>rp_ssrc := 6\<rparr>]" "[1]"] unfolding Let_def
    by (auto simp: report_ok_def)
qed

end
