(* ===== verification/Rtcp_Sdes.thy ===== *)
theory Rtcp_Sdes
  imports Rtcp_Header
begin

text \<open>
  Source descriptions, \<open>rtpx/rtp/rtcp_sdes.c\<close> and the class of \<open>rtpx/rtcp/sdes.cpp\<close>. The array of items
  of an entry is a list, empty for \<open>NULL\<close>, whose length is \<open>item_count\<close>; the length field of an item
  is the length of its data. A string argument is the list of the characters before its terminator.
\<close>

unbundle bit_operations_syntax

definition RTCP_SDES_CNAME :: byte where "RTCP_SDES_CNAME = 1"

record rtcp_sdes_item =
  it_type :: byte
  it_data :: bytes

record rtcp_sdes_entry =
  en_id :: u32
  en_items :: "rtcp_sdes_item list"

record rtcp_sdes =
  sd_header :: rtcp_header
  sd_srcs :: "rtcp_sdes_entry list option"

section \<open>Items and entries\<close>

definition item_size :: "rtcp_sdes_item \<Rightarrow> nat" where
  "item_size item = 2 + length (it_data item)"

definition entry_size :: "rtcp_sdes_entry \<Rightarrow> nat" where
  "entry_size source = (let n = 5 + sum_list (map item_size (en_items source)) in n + pad4 n)"

text \<open>The index of the item found; \<open>None\<close> for a null pointer.\<close>

fun get_item :: "rtcp_sdes_item list \<Rightarrow> byte \<Rightarrow> nat option" where
  "get_item [] type = None"
| "get_item (item # items) type = (if it_type item = type then Some 0 else map_option Suc (get_item items type))"

definition create_item :: "byte \<Rightarrow> bytes \<Rightarrow> rtcp_sdes_entry \<Rightarrow> rtcp_sdes_entry option" where
  "create_item type data source =
     (if get_item (en_items source) type \<noteq> None then None
      else if length (en_items source) = 0xff then None
      else Some (source\<lparr>en_items := en_items source @ [\<lparr>it_type = type, it_data = data\<rparr>]\<rparr>))"

text \<open>
  The \<open>memmove\<close> of \<open>free_item\<close> is given the number of items counted from an index divided once more by
  the size of an item, 16, and so reads behind the last item.
\<close>

definition free_item :: "byte \<Rightarrow> rtcp_sdes_entry \<Rightarrow> rtcp_sdes_entry cxx" where
  "free_item type source =
     (case get_item (en_items source) type of
        None \<Rightarrow> Some source
      | Some offset \<Rightarrow>
          let old = en_items source; n = length old - offset div 16 in
          if offset + 1 + n > length old then None
          else
            let moved = take offset old @ take n (drop (offset + 1) old) @ drop (offset + n) old
            in Some (source\<lparr>en_items := take (length old - 1) moved\<rparr>))"

definition item_bytes :: "rtcp_sdes_item \<Rightarrow> bytes" where
  "item_bytes item = [it_type item, word_of_nat (length (it_data item))] @ it_data item"

definition serialize_entry :: "rtcp_sdes_entry \<Rightarrow> bytes \<Rightarrow> (int \<times> bytes) cxx" where
  "serialize_entry source buffer =
     (let source_size = entry_size source in
      if length buffer < source_size then Some (-1, buffer)
      else do {
        let items = b32 (en_id source) @ concat (map item_bytes (en_items source));
        buffer \<leftarrow> wr_range buffer 0 (items @ replicate (source_size - length items) 0);
        Some (int source_size, buffer) })"

section \<open>Packets\<close>

definition rtcp_sdes_create :: rtcp_sdes where
  "rtcp_sdes_create = \<lparr>sd_header = rtcp_header_zero, sd_srcs = None\<rparr>"

definition rtcp_sdes_init :: "rtcp_sdes \<Rightarrow> rtcp_sdes" where
  "rtcp_sdes_init packet = packet\<lparr>sd_header := (sd_header packet)\<lparr>th_version := 2, th_pt := RTCP_SDES\<rparr>\<rparr>"

fun sdes_size_loop :: "rtcp_sdes_entry list option \<Rightarrow> nat \<Rightarrow> nat \<Rightarrow> nat cxx" where
  "sdes_size_loop srcs i 0 = Some 0"
| "sdes_size_loop srcs i (Suc n) = do {
     source \<leftarrow> arr_get srcs i;
     k \<leftarrow> sdes_size_loop srcs (i + 1) n;
     Some (entry_size source + k) }"

definition rtcp_sdes_size :: "rtcp_sdes \<Rightarrow> nat cxx" where
  "rtcp_sdes_size packet = do {
     n \<leftarrow> sdes_size_loop (sd_srcs packet) 0 (unat (th_count (sd_header packet)));
     Some (4 + n) }"

fun write_entries :: "rtcp_sdes_entry list option \<Rightarrow> nat \<Rightarrow> nat \<Rightarrow> nat \<Rightarrow> bytes \<Rightarrow> (bool \<times> bytes) cxx" where
  "write_entries srcs i 0 offset buffer = Some (True, buffer)"
| "write_entries srcs i (Suc n) offset buffer = do {
     source \<leftarrow> arr_get srcs i;
     if length buffer < offset then None
     else do {
       (result, b) \<leftarrow> serialize_entry source (drop offset buffer);
       if result < 0 then Some (False, buffer)
       else write_entries srcs (i + 1) n (offset + nat result) (take offset buffer @ b) } }"

definition rtcp_sdes_serialize :: "rtcp_sdes \<Rightarrow> bytes \<Rightarrow> (int \<times> bytes) cxx" where
  "rtcp_sdes_serialize packet buffer = do {
     packet_size \<leftarrow> rtcp_sdes_size packet;
     if length buffer < packet_size then Some (-1, buffer)
     else do {
       (r, buffer) \<leftarrow> rtcp_header_serialize (sd_header packet) buffer;
       if r < 0 then Some (-1, buffer)
       else do {
         (ok, buffer) \<leftarrow> write_entries (sd_srcs packet) 0 (unat (th_count (sd_header packet))) 4 buffer;
         Some (if ok then int packet_size else -1, buffer) } } }"

text \<open>
  The list of items of a source from \<open>offset\<close> on. It is read up to its terminator without a look at
  the size of the buffer.
\<close>

function parse_items :: "bytes \<Rightarrow> nat \<Rightarrow> rtcp_sdes_entry \<Rightarrow> (bool \<times> nat \<times> rtcp_sdes_entry) cxx" where
  "parse_items buffer offset source =
     (case rd8 buffer offset of
        None \<Rightarrow> None
      | Some type \<Rightarrow>
          if type = 0 then Some (True, offset + (4 - offset mod 4), source)
          else do {
            len \<leftarrow> rd8 buffer (offset + 1);
            if create_item type [] source = None then Some (False, offset, source)
            else do {
              data \<leftarrow> rd_range buffer (offset + 2) (offset + 2 + unat len);
              source \<leftarrow> create_item type data source;
              parse_items buffer (offset + 2 + unat len) source } })"
  by pat_completeness auto
termination
  by (relation "measure (\<lambda>(buffer, offset, source). length buffer - offset)") (auto simp: rd8_def split: if_splits)

declare parse_items.simps [simp del]

definition sdes_entry_zero :: rtcp_sdes_entry where
  "sdes_entry_zero = \<lparr>en_id = 0, en_items = []\<rparr>"

fun parse_entries :: "bytes \<Rightarrow> nat \<Rightarrow> nat \<Rightarrow> (bool \<times> rtcp_sdes_entry list) cxx" where
  "parse_entries buffer offset 0 = Some (True, [])"
| "parse_entries buffer offset (Suc n) = do {
     id' \<leftarrow> rd32 buffer offset;
     (ok, offset, source) \<leftarrow> parse_items buffer (offset + 4) \<lparr>en_id = id', en_items = []\<rparr>;
     if \<not> ok then Some (False, source # replicate n sdes_entry_zero)
     else do { (ok, srcs) \<leftarrow> parse_entries buffer offset n; Some (ok, source # srcs) } }"

definition rtcp_sdes_parse :: "rtcp_sdes \<Rightarrow> bytes \<Rightarrow> (int \<times> rtcp_sdes) cxx" where
  "rtcp_sdes_parse packet buffer = do {
     (pt, header) \<leftarrow> rtcp_header_parse (sd_header packet) buffer;
     let packet = packet\<lparr>sd_header := header\<rparr>;
     if pt \<noteq> uint RTCP_SDES then Some (-1, packet)
     else if th_count header = 0 then Some (0, packet)
     else do {
       (ok, srcs) \<leftarrow> parse_entries buffer 4 (unat (th_count header));
       Some (if ok then 0 else -1, packet\<lparr>sd_srcs := Some srcs\<rparr>) } }"

section \<open>Access by source and type\<close>

fun sdes_find_loop :: "rtcp_sdes_entry list option \<Rightarrow> u32 \<Rightarrow> nat \<Rightarrow> nat \<Rightarrow> int cxx" where
  "sdes_find_loop srcs src i 0 = Some (-1)"
| "sdes_find_loop srcs src i (Suc n) = do {
     source \<leftarrow> arr_get srcs i;
     if en_id source = src then Some (int i) else sdes_find_loop srcs src (i + 1) n }"

definition rtcp_sdes_find_entry :: "rtcp_sdes \<Rightarrow> u32 \<Rightarrow> int cxx" where
  "rtcp_sdes_find_entry packet src = sdes_find_loop (sd_srcs packet) src 0 (unat (th_count (sd_header packet)))"

text \<open>The count is a bit field of five bits, as in the reports.\<close>

definition rtcp_sdes_add_entry :: "u32 \<Rightarrow> rtcp_sdes \<Rightarrow> (int \<times> rtcp_sdes) cxx" where
  "rtcp_sdes_add_entry src packet =
     (let count = th_count (sd_header packet); source = \<lparr>en_id = src, en_items = []\<rparr> in
      if count = 0 then
        Some (0, packet\<lparr>sd_srcs := Some [source], sd_header := (sd_header packet)\<lparr>th_count := 1\<rparr>\<rparr>)
      else if count = 0xff then Some (-1, packet)
      else do {
        r \<leftarrow> rtcp_sdes_find_entry packet src;
        if r \<noteq> -1 then Some (-1, packet)
        else do {
          let count' = (count + 1) AND 0x1f;
          if count' = 0 then None
          else do {
            old \<leftarrow> sd_srcs packet;
            if length old < unat count then None
            else Some (0, packet\<lparr>sd_srcs := Some (take (unat count) old @ [source]),
                                 sd_header := (sd_header packet)\<lparr>th_count := count'\<rparr>\<rparr>) } } })"

text \<open>
  The removal frees the items one by one though they are one allocation, which is defined for at most
  one item, and its \<open>memmove\<close> takes one entry more than there is behind the removed one.
\<close>

definition rtcp_sdes_remove_entry :: "u32 \<Rightarrow> rtcp_sdes \<Rightarrow> rtcp_sdes cxx" where
  "rtcp_sdes_remove_entry src packet = do {
     index \<leftarrow> rtcp_sdes_find_entry packet src;
     if index < 0 then Some packet
     else do {
       source \<leftarrow> arr_get (sd_srcs packet) (nat index);
       if length (en_items source) > 1 then None
       else do {
         old \<leftarrow> sd_srcs packet;
         let count = th_count (sd_header packet);
         let n = unat count - nat index;
         if nat index + 1 + n > length old then None
         else do {
           let moved = take (nat index) old @ take n (drop (nat index + 1) old) @ drop (nat index + n) old;
           let count' = count - 1;
           Some (packet\<lparr>sd_header := (sd_header packet)\<lparr>th_count := count'\<rparr>,
                        sd_srcs := (if count' > 0 then Some (take (unat count') moved) else None)\<rparr>) } } } }"

text \<open>\<open>size\<close> is that of the buffer of the caller; the result is what is written to it.\<close>

definition rtcp_sdes_get_item :: "u32 \<Rightarrow> byte \<Rightarrow> nat \<Rightarrow> rtcp_sdes \<Rightarrow> (int \<times> bytes) cxx" where
  "rtcp_sdes_get_item src type n packet = do {
     index \<leftarrow> rtcp_sdes_find_entry packet src;
     if index < 0 then Some (-1, [])
     else do {
       source \<leftarrow> arr_get (sd_srcs packet) (nat index);
       i \<leftarrow> get_item (en_items source) type;
       let item = en_items source ! i;
       if n < length (it_data item) + 1 then Some (-1, [])
       else Some (int (length (it_data item)), it_data item @ [0]) } }"

definition sdes_update_length :: "rtcp_sdes \<Rightarrow> rtcp_sdes cxx" where
  "sdes_update_length packet = do {
     n \<leftarrow> rtcp_sdes_size packet;
     Some (packet\<lparr>sd_header := (sd_header packet)\<lparr>th_length := word_of_nat (n div 4 - 1)\<rparr>\<rparr>) }"

definition set_source :: "nat \<Rightarrow> rtcp_sdes_entry \<Rightarrow> rtcp_sdes \<Rightarrow> rtcp_sdes" where
  "set_source i source packet = packet\<lparr>sd_srcs := map_option (\<lambda>srcs. srcs[i := source]) (sd_srcs packet)\<rparr>"

definition rtcp_sdes_set_item :: "u32 \<Rightarrow> byte \<Rightarrow> bytes \<Rightarrow> rtcp_sdes \<Rightarrow> (int \<times> rtcp_sdes) cxx" where
  "rtcp_sdes_set_item src type data packet = do {
     index \<leftarrow> rtcp_sdes_find_entry packet src;
     if index < 0 then Some (-1, packet)
     else do {
       source \<leftarrow> arr_get (sd_srcs packet) (nat index);
       source \<leftarrow> free_item type source;
       let packet = set_source (nat index) source packet;
       if length data > 0xff then Some (-1, packet)
       else case create_item type data source of
              None \<Rightarrow> Some (-1, packet)
            | Some source \<Rightarrow> do {
                packet \<leftarrow> sdes_update_length (set_source (nat index) source packet);
                Some (0, packet) } } }"

definition rtcp_sdes_clear_item :: "u32 \<Rightarrow> byte \<Rightarrow> rtcp_sdes \<Rightarrow> rtcp_sdes cxx" where
  "rtcp_sdes_clear_item src type packet = do {
     index \<leftarrow> rtcp_sdes_find_entry packet src;
     if index < 0 then Some packet
     else do {
       source \<leftarrow> arr_get (sd_srcs packet) (nat index);
       source \<leftarrow> free_item type source;
       sdes_update_length (set_source (nat index) source packet) } }"

section \<open>The class around them\<close>

definition sdes_new :: rtcp_sdes where
  "sdes_new = rtcp_sdes_init rtcp_sdes_create"

definition sdes_add_item :: "u32 \<Rightarrow> byte \<Rightarrow> bytes \<Rightarrow> rtcp_sdes \<Rightarrow> (bool \<times> rtcp_sdes) cxx" where
  "sdes_add_item src type data this = do {
     (r, this) \<leftarrow> rtcp_sdes_add_entry src this;
     if r < 0 then Some (False, this)
     else do {
       (r, this) \<leftarrow> rtcp_sdes_set_item src type data this;
       if r > 0 then do { this \<leftarrow> rtcp_sdes_remove_entry src this; Some (False, this) }
       else Some (True, this) } }"

definition sdes_remove_item :: "u32 \<Rightarrow> byte \<Rightarrow> rtcp_sdes \<Rightarrow> rtcp_sdes cxx" where
  "sdes_remove_item src type this = do {
     this \<leftarrow> rtcp_sdes_clear_item src type this;
     idx \<leftarrow> rtcp_sdes_find_entry this src;
     if idx \<ge> 0 then do {
       source \<leftarrow> arr_get (sd_srcs this) (nat idx);
       if en_items source = [] then rtcp_sdes_remove_entry src this else Some this }
     else Some this }"

definition sdes_get_item :: "u32 \<Rightarrow> byte \<Rightarrow> rtcp_sdes \<Rightarrow> rtcp_sdes_item option cxx" where
  "sdes_get_item src type this = do {
     index \<leftarrow> rtcp_sdes_find_entry this src;
     if index < 0 then Some None
     else do {
       source \<leftarrow> arr_get (sd_srcs this) (nat index);
       Some (map_option ((!) (en_items source)) (get_item (en_items source) type)) } }"

definition sdes_serialize :: "rtcp_sdes \<Rightarrow> (bool \<times> bytes) cxx" where
  "sdes_serialize this = do {
     n \<leftarrow> rtcp_sdes_size this;
     (_, buf) \<leftarrow> rtcp_sdes_serialize this (replicate n 0);
     Some (True, buf) }"

definition sdes_parse :: "bytes \<Rightarrow> rtcp_sdes \<Rightarrow> (bool \<times> rtcp_sdes) cxx" where
  "sdes_parse buffer this = do { (r, this) \<leftarrow> rtcp_sdes_parse this buffer; Some (\<not> r < 0, this) }"

section \<open>The wire format\<close>

definition item_ok :: "rtcp_sdes_item \<Rightarrow> bool" where
  "item_ok item \<longleftrightarrow> it_type item \<noteq> 0 \<and> length (it_data item) < 256"

definition entry_ok :: "rtcp_sdes_entry \<Rightarrow> bool" where
  "entry_ok e \<longleftrightarrow> list_all item_ok (en_items e) \<and> distinct (map it_type (en_items e)) \<and> length (en_items e) < 256"

definition items_bytes :: "rtcp_sdes_item list \<Rightarrow> bytes" where
  "items_bytes items = concat (map item_bytes items)"

definition entry_bytes :: "rtcp_sdes_entry \<Rightarrow> bytes" where
  "entry_bytes e = b32 (en_id e) @ items_bytes (en_items e) @ replicate (entry_size e - 4 - length (items_bytes (en_items e))) 0"

lemma get_item_None [simp]: "get_item items t = None \<longleftrightarrow> t \<notin> it_type ` set items"
  by (induction items) auto

lemma length_item_bytes [simp]: "length (item_bytes i) = item_size i"
  by (simp add: item_bytes_def item_size_def)

lemma length_items_bytes [simp]: "length (items_bytes items) = sum_list (map item_size items)"
  by (induction items) (simp_all add: items_bytes_def)

lemma entry_size_gt: "4 + sum_list (map item_size (en_items e)) < entry_size e"
  by (simp add: entry_size_def Let_def)

lemma entry_size_mod: "entry_size e mod 4 = 0"
  by (simp add: entry_size_def Let_def)

lemma length_entry_bytes [simp]: "length (entry_bytes e) = entry_size e"
  using entry_size_gt [of e] by (simp add: entry_bytes_def)

lemma serialize_entry_bytes:
  "entry_size e \<le> length b \<Longrightarrow> serialize_entry e b = Some (int (entry_size e), entry_bytes e @ drop (entry_size e) b)"
  using entry_size_gt [of e] by (simp add: serialize_entry_def Let_def wr_range_0 entry_bytes_def flip: items_bytes_def)

lemma next_boundary:
  "o0 mod 4 = 0 \<Longrightarrow> o0 + 4 + m + (4 - (o0 + 4 + m) mod 4) = o0 + (5 + m + pad4 (5 + m))" for o0 m :: nat
  unfolding pad4_def Let_def by (cases "(5 + m) mod 4 = 0") presburger+

lemma entry_next:
  assumes "offset mod 4 = 0"
  shows "(let o' = offset + 4 + sum_list (map item_size (en_items e)) in o' + (4 - o' mod 4)) = offset + entry_size e"
  using next_boundary [OF assms] by (simp only: entry_size_def Let_def)

lemma parse_items_bytes:
  assumes "list_all item_ok items" "distinct (map it_type (en_items e @ items))" "length (en_items e @ items) < 256"
    "offset = length pre"
  shows "parse_items (pre @ items_bytes items @ 0 # rest) offset e =
    (let o' = offset + sum_list (map item_size items)
     in Some (True, o' + (4 - o' mod 4), e\<lparr>en_items := en_items e @ items\<rparr>))"
  using assms
proof (induction items arbitrary: pre offset e)
  case Nil
  then show ?case
    by (simp add: parse_items.simps items_bytes_def rd8_append Let_def)
next
  case (Cons i items)
  let ?d = "pre @ item_bytes i @ items_bytes items @ 0 # rest" and ?e = "e\<lparr>en_items := en_items e @ [i]\<rparr>"
  have l: "unat (word_of_nat (length (it_data i)) :: byte) = length (it_data i)"
    using Cons.prems by (simp add: item_ok_def unat_of_nat)
  have r: "rd8 ?d offset = Some (it_type i)" "rd8 ?d (offset + 1) = Some (word_of_nat (length (it_data i)))"
    using Cons.prems by (simp_all add: item_bytes_def rd8_append)
  have data: "rd_range ?d (offset + 2) (offset + 2 + length (it_data i)) = Some (it_data i)"
    using Cons.prems rd_range_mid [of _ "pre @ [it_type i, word_of_nat (length (it_data i))]" _ "it_data i"]
    by (simp add: item_bytes_def)
  have c: "create_item (it_type i) (it_data i) e = Some ?e" "create_item (it_type i) [] e \<noteq> None"
    using Cons.prems by (auto simp: create_item_def)
  have "parse_items ((pre @ item_bytes i) @ items_bytes items @ 0 # rest) (offset + item_size i) ?e =
    (let o' = offset + item_size i + sum_list (map item_size items)
     in Some (True, o' + (4 - o' mod 4), ?e\<lparr>en_items := en_items ?e @ items\<rparr>))"
    using Cons.prems by (intro Cons.IH) auto
  moreover have "it_type i \<noteq> 0"
    using Cons.prems by (simp_all add: item_ok_def)
  moreover have "item_size i = 2 + length (it_data i)" "items_bytes (i # items) = item_bytes i @ items_bytes items"
    by (simp_all add: item_size_def items_bytes_def)
  ultimately have "parse_items ?d offset e =
    (let o' = offset + sum_list (map item_size (i # items))
     in Some (True, o' + (4 - o' mod 4), e\<lparr>en_items := en_items e @ i # items\<rparr>))"
    using r data c l by (subst parse_items.simps) (simp add: Let_def add.assoc)
  then show ?case
    by (simp add: items_bytes_def)
qed

definition entries_bytes :: "rtcp_sdes_entry list \<Rightarrow> bytes" where
  "entries_bytes es = concat (map entry_bytes es)"

lemma length_entries_bytes [simp]: "length (entries_bytes es) = sum_list (map entry_size es)"
  by (induction es) (simp_all add: entries_bytes_def)

lemma sdes_size_loop_ok:
  "i + n = length es \<Longrightarrow> sdes_size_loop (Some es) i n = Some (sum_list (map entry_size (drop i es)))"
  by (induction n arbitrary: i) (auto simp: arr_get_def Cons_nth_drop_Suc [symmetric])

lemma write_entries_bytes:
  assumes "i + n = length es" "offset = length pre" "sum_list (map entry_size (drop i es)) \<le> length old"
  shows "write_entries (Some es) i n offset (pre @ old) =
    Some (True, pre @ entries_bytes (drop i es) @ drop (sum_list (map entry_size (drop i es))) old)"
  using assms
proof (induction n arbitrary: i offset pre old)
  case (Suc n)
  then have i: "i < length es" and d: "drop i es = es ! i # drop (Suc i) es"
    by (simp_all add: Cons_nth_drop_Suc)
  let ?k = "entry_size (es ! i)"
  have "write_entries (Some es) (Suc i) n (offset + ?k) ((pre @ entry_bytes (es ! i)) @ drop ?k old) =
      Some (True, (pre @ entry_bytes (es ! i)) @ entries_bytes (drop (Suc i) es) @
        drop (sum_list (map entry_size (drop (Suc i) es))) (drop ?k old))"
    using Suc.prems d by (intro Suc.IH) simp_all
  then show ?case
    using Suc.prems i d serialize_entry_bytes [of "es ! i" old] by (simp add: arr_get_def entries_bytes_def add.commute)
qed (simp add: entries_bytes_def)

lemma parse_entries_bytes:
  "list_all entry_ok es \<Longrightarrow> offset = length pre \<Longrightarrow> offset mod 4 = 0 \<Longrightarrow>
   parse_entries (pre @ entries_bytes es @ rest) offset (length es) = Some (True, es)"
proof (induction es arbitrary: pre offset)
  case (Cons e es)
  let ?m = "sum_list (map item_size (en_items e))" and ?d = "pre @ entry_bytes e @ entries_bytes es @ rest"
  define k where "k = entry_size e - 5 - ?m"
  have "entry_size e - 4 - ?m = Suc k"
    using entry_size_gt [of e] by (simp add: k_def)
  then have e: "entry_bytes e = b32 (en_id e) @ items_bytes (en_items e) @ 0 # replicate k 0"
    by (simp add: entry_bytes_def)
  have d: "?d = (pre @ b32 (en_id e)) @ items_bytes (en_items e) @ 0 # (replicate k 0 @ entries_bytes es @ rest)"
    by (simp add: e)
  have "parse_items ?d (offset + 4) \<lparr>en_id = en_id e, en_items = []\<rparr> =
      (let o' = offset + 4 + ?m in Some (True, o' + (4 - o' mod 4), e))"
    unfolding d using Cons.prems by (subst parse_items_bytes) (auto simp: entry_ok_def)
  then have "parse_items ?d (offset + 4) \<lparr>en_id = en_id e, en_items = []\<rparr> = Some (True, offset + entry_size e, e)"
    using entry_next [OF Cons.prems(3), of e] by (simp add: Let_def)
  moreover have "parse_entries ((pre @ entry_bytes e) @ entries_bytes es @ rest) (offset + entry_size e) (length es) = Some (True, es)"
    using Cons.prems entry_size_mod [of e] by (intro Cons.IH) (simp_all add: mod_add_eq [symmetric])
  moreover have "rd32 ?d offset = Some (en_id e)"
    using Cons.prems by (simp add: e)
  ultimately show ?case
    by (simp add: entries_bytes_def)
qed simp

definition sdes_entries :: "rtcp_sdes \<Rightarrow> rtcp_sdes_entry list" where
  "sdes_entries p = (case sd_srcs p of None \<Rightarrow> [] | Some es \<Rightarrow> es)"

definition sdes_ok :: "rtcp_sdes \<Rightarrow> bool" where
  "sdes_ok p \<longleftrightarrow> rtcp_header_ok (sd_header p) \<and> th_pt (sd_header p) = RTCP_SDES \<and> sd_srcs p \<noteq> Some [] \<and>
     length (sdes_entries p) < 32 \<and> th_count (sd_header p) = word_of_nat (length (sdes_entries p)) \<and>
     list_all entry_ok (sdes_entries p)"

definition sdes_bytes :: "rtcp_sdes \<Rightarrow> bytes" where
  "sdes_bytes p = rtcp_header_bytes (sd_header p) @ entries_bytes (sdes_entries p)"

lemma sdes_count: "sdes_ok p \<Longrightarrow> unat (th_count (sd_header p)) = length (sdes_entries p)"
  by (simp add: sdes_ok_def unat_of_nat)

lemma sdes_size_ok: "sdes_ok p \<Longrightarrow> rtcp_sdes_size p = Some (length (sdes_bytes p))"
  using sdes_count [of p] sdes_size_loop_ok [of 0 _ "sdes_entries p"]
  by (cases "sd_srcs p") (auto simp: rtcp_sdes_size_def sdes_bytes_def sdes_entries_def)

lemma sdes_serialize_bytes:
  assumes "sdes_ok p"
  shows "sdes_serialize p = Some (True, sdes_bytes p)"
proof -
  have ok: "rtcp_header_ok (sd_header p)" "th_pt (sd_header p) = RTCP_SDES" "list_all entry_ok (sdes_entries p)"
      "sd_srcs p \<noteq> Some []"
    using assms by (auto simp: sdes_ok_def)
  let ?h = "rtcp_header_bytes (sd_header p)" and ?n = "sum_list (map entry_size (sdes_entries p))"
  note c = sdes_count [OF assms]
  have "rtcp_header_serialize (sd_header p) (replicate (length (sdes_bytes p)) 0) = Some (4, ?h @ replicate ?n 0)"
    using rtcp_header_serialize_bytes [OF ok(1), of "replicate (length (sdes_bytes p)) 0"] by (simp add: sdes_bytes_def)
  moreover have "write_entries (sd_srcs p) 0 (unat (th_count (sd_header p))) 4 (?h @ replicate ?n 0) = Some (True, sdes_bytes p)"
    using c write_entries_bytes [of 0 "length (sdes_entries p)" "sdes_entries p" 4 ?h "replicate ?n 0"]
    by (cases "sd_srcs p") (auto simp: sdes_bytes_def sdes_entries_def entries_bytes_def)
  ultimately show ?thesis
    using sdes_size_ok [OF assms] by (simp add: sdes_serialize_def rtcp_sdes_serialize_def)
qed

lemma sdes_parse_bytes:
  assumes "sdes_ok p" "sd_srcs q = None"
  shows "rtcp_sdes_parse q (sdes_bytes p @ rest) = Some (0, p)"
proof -
  have ok: "rtcp_header_ok (sd_header p)" "th_pt (sd_header p) = RTCP_SDES" "list_all entry_ok (sdes_entries p)"
      "sd_srcs p \<noteq> Some []"
    using assms by (auto simp: sdes_ok_def)
  let ?h = "rtcp_header_bytes (sd_header p)"
  note c = sdes_count [OF assms(1)]
  have "parse_entries (sdes_bytes p @ rest) 4 (unat (th_count (sd_header p))) = Some (True, sdes_entries p)"
    using parse_entries_bytes [OF ok(3), of 4 ?h rest] c by (simp add: sdes_bytes_def)
  moreover have "rtcp_header_parse h0 (sdes_bytes p @ rest) = Some (uint RTCP_SDES, sd_header p)" for h0
    using rtcp_header_parse_bytes [OF ok(1)] ok(2) by (simp add: sdes_bytes_def)
  moreover have "th_count (sd_header p) = 0 \<longleftrightarrow> sd_srcs p = None"
    using c ok(4) by (auto simp: sdes_entries_def word_unat_eq_iff split: option.splits)
  ultimately show ?thesis
    using assms(2) by (cases p; cases "sd_srcs p") (auto simp: rtcp_sdes_parse_def sdes_entries_def)
qed

lemma sdes_roundtrip:
  "sdes_ok p \<Longrightarrow> sdes_serialize p = Some (True, sdes_bytes p) \<and> sdes_parse (sdes_bytes p @ rest) sdes_new = Some (True, p)"
  using sdes_serialize_bytes [of p] sdes_parse_bytes [of p sdes_new rest]
  by (simp add: sdes_parse_def sdes_new_def rtcp_sdes_init_def rtcp_sdes_create_def)

section \<open>Describing a source\<close>

lemma get_item_less: "get_item items t = Some i \<Longrightarrow> i < length items"
  by (induction items arbitrary: i) (auto split: if_splits)

lemma free_item_found: "t \<in> it_type ` set (en_items e) \<Longrightarrow> free_item t e = None"
  using get_item_None [of "en_items e" t]
  by (cases "get_item (en_items e) t") (auto simp: free_item_def Let_def dest: get_item_less)

lemma free_item_absent: "t \<notin> it_type ` set (en_items e) \<Longrightarrow> free_item t e = Some e"
  by (simp add: free_item_def flip: get_item_None)

lemma sdes_find_loop_None:
  "i + n = length es \<Longrightarrow> src \<notin> en_id ` set es \<Longrightarrow> sdes_find_loop (Some es) src i n = Some (-1)"
  by (induction n arbitrary: i) (auto simp: arr_get_def)

lemma sdes_find_loop_last:
  "i + n = length es \<Longrightarrow> en_id e \<notin> en_id ` set es \<Longrightarrow>
   sdes_find_loop (Some (es @ [e])) (en_id e) i (Suc n) = Some (int (length es))"
proof (induction n arbitrary: i)
  case (Suc n)
  then have "es ! i \<in> set es" by simp
  then have "en_id (es ! i) \<noteq> en_id e"
    using Suc.prems by (metis image_eqI)
  then show ?case
    using Suc.IH [of "Suc i"] Suc.prems by (simp add: arr_get_def nth_append del: sdes_find_loop.simps(2)) (simp add: arr_get_def nth_append)
qed (simp add: arr_get_def)

lemma sdes_ok_th_length [simp]: "sdes_ok (p\<lparr>sd_header := (sd_header p)\<lparr>th_length := l\<rparr>\<rparr>) = sdes_ok p"
  by (simp add: sdes_ok_def rtcp_header_ok_def sdes_entries_def)

lemma sdes_entries_last: "sdes_entries p = es @ [e] \<Longrightarrow> sd_srcs p = Some (es @ [e])"
  by (simp add: sdes_entries_def split: option.splits)

lemma find_entry_last:
  assumes "sdes_ok p" "sdes_entries p = es @ [e]" "en_id e \<notin> en_id ` set es"
  shows "rtcp_sdes_find_entry p (en_id e) = Some (int (length es))"
  using sdes_entries_last [OF assms(2)] sdes_count [OF assms(1)] assms(2,3) sdes_find_loop_last [of 0 "length es" es e]
  by (simp add: rtcp_sdes_find_entry_def)

lemma sdes_add_entry_ok:
  assumes "sdes_ok p" "src \<notin> en_id ` set (sdes_entries p)" "length (sdes_entries p) < 31"
  shows "\<exists>p'. rtcp_sdes_add_entry src p = Some (0, p') \<and> sdes_ok p' \<and> sdes_entries p' = sdes_entries p @ [\<lparr>en_id = src, en_items = []\<rparr>]"
proof (cases "sd_srcs p")
  case None
  then show ?thesis
    using assms by (auto simp: rtcp_sdes_add_entry_def sdes_ok_def sdes_entries_def rtcp_header_ok_def entry_ok_def)
next
  case (Some es)
  then have es: "sdes_entries p = es" "es \<noteq> []" "length es < 31" and c: "th_count (sd_header p) = word_of_nat (length es)"
    using assms by (auto simp: sdes_ok_def sdes_entries_def)
  have u: "unat (th_count (sd_header p)) = length es" "unat (th_count (sd_header p) + 1) = length es + 1"
    using es unat_of_nat_small [of "length es", where 'a = 8] unat_of_nat_small [of "length es + 1", where 'a = 8]
    by (simp_all add: c add.commute)
  then have n: "th_count (sd_header p) \<noteq> 0" "th_count (sd_header p) \<noteq> 0xff" "th_count (sd_header p) + 1 \<noteq> 0"
      "th_count (sd_header p) + 1 < 32"
    using es by (auto simp: word_less_nat_alt word_unat_eq_iff)
  have "(th_count (sd_header p) + 1) AND 0x1f = th_count (sd_header p) + 1"
    using n by (intro byte_and_small)
  moreover have "rtcp_sdes_find_entry p src = Some (-1)"
    using assms(2) Some es(1) u sdes_find_loop_None [of 0 "length es" es src] by (simp add: rtcp_sdes_find_entry_def)
  ultimately have r: "rtcp_sdes_add_entry src p = Some (0, p\<lparr>sd_srcs := Some (es @ [\<lparr>en_id = src, en_items = []\<rparr>]),
      sd_header := (sd_header p)\<lparr>th_count := th_count (sd_header p) + 1\<rparr>\<rparr>)"
    using n(1-3) Some u(1) by (simp add: rtcp_sdes_add_entry_def Let_def)
  let ?p = "p\<lparr>sd_srcs := Some (es @ [\<lparr>en_id = src, en_items = []\<rparr>]),
      sd_header := (sd_header p)\<lparr>th_count := th_count (sd_header p) + 1\<rparr>\<rparr>"
  have e: "sdes_entries ?p = es @ [\<lparr>en_id = src, en_items = []\<rparr>]"
    by (simp add: sdes_entries_def)
  moreover have "th_count (sd_header ?p) = word_of_nat (length (sdes_entries ?p))"
    unfolding e using c by (simp add: add.commute)
  moreover have "rtcp_header_ok (sd_header ?p)" "list_all entry_ok (sdes_entries ?p)" "th_pt (sd_header ?p) = RTCP_SDES"
    unfolding e using assms(1) n(4) es(1) by (simp_all add: sdes_ok_def rtcp_header_ok_def entry_ok_def)
  ultimately have "sdes_ok ?p"
    using es(3) by (simp only: sdes_ok_def) simp
  then show ?thesis
    using r e es(1) by blast
qed

text \<open>
  A source described through \<open>add_item\<close> is read by the other end, whatever sources were described
  before; a second value of the same type for it is undefined.
\<close>

text \<open>
  C32: add_item with a new source, a non-zero type and a string of fewer than 256 characters on
  a well-formed description of fewer than 31 sources appends the source; the packet serializes
  with a matching length field, parses back from its bytes, whatever follows them, and get_item
  finds the string. A second value of the same type for the source is undefined: free_item moves
  an item from behind the array.
\<close>

theorem sdes_source_described:
  assumes "sdes_ok p" "src \<notin> en_id ` set (sdes_entries p)" "length (sdes_entries p) < 31" "type \<noteq> 0" "length data < 256"
    and "0 \<notin> set data"
  shows "\<exists>p' buf. sdes_add_item src type data p = Some (True, p') \<and> sdes_serialize p' = Some (True, buf) \<and>
    th_length (sd_header p') = word_of_nat (length buf div 4 - 1) \<and>
    sdes_parse (buf @ rest) sdes_new = Some (True, p') \<and>
    sdes_entries p' = sdes_entries p @ [\<lparr>en_id = src, en_items = [\<lparr>it_type = type, it_data = data\<rparr>]\<rparr>] \<and>
    sdes_get_item src type p' = Some (Some \<lparr>it_type = type, it_data = data\<rparr>) \<and>
    rtcp_sdes_set_item src type data' p' = None"
proof -
  let ?es = "sdes_entries p" and ?blank = "\<lparr>en_id = src, en_items = []\<rparr>"
  let ?e = "\<lparr>en_id = src, en_items = [\<lparr>it_type = type, it_data = data\<rparr>]\<rparr>"
  obtain p1 where p1: "rtcp_sdes_add_entry src p = Some (0, p1)" "sdes_ok p1" "sdes_entries p1 = ?es @ [?blank]"
    using sdes_add_entry_ok [OF assms(1-3)] by blast
  note s1 = sdes_entries_last [OF p1(3)]
  define p2 where "p2 = set_source (length ?es) ?e p1"
  have e2: "sdes_entries p2 = ?es @ [?e]" and h2: "sd_header p2 = sd_header p1" and s2: "sd_srcs p2 = Some (?es @ [?e])"
    by (simp_all add: p2_def set_source_def sdes_entries_def [of "p1\<lparr>sd_srcs := _\<rparr>"] s1)
  have ok2: "sdes_ok p2"
    using p1(2) assms(4,5) unfolding sdes_ok_def e2 h2 s2 p1(3) by (simp add: entry_ok_def item_ok_def)
  define p' where "p' = p2\<lparr>sd_header := (sd_header p2)\<lparr>th_length := word_of_nat (length (sdes_bytes p2) div 4 - 1)\<rparr>\<rparr>"
  have e': "sdes_entries p' = ?es @ [?e]" "sd_srcs p' = Some (?es @ [?e])"
    unfolding sdes_entries_def [of p'] by (simp_all add: p'_def s2)
  have ok': "sdes_ok p'" and len: "length (sdes_bytes p') = length (sdes_bytes p2)"
    using ok2 unfolding sdes_bytes_def e' e2 by (simp_all add: p'_def)
  have "rtcp_sdes_find_entry p1 src = Some (int (length ?es))" and f': "rtcp_sdes_find_entry p' src = Some (int (length ?es))"
    using find_entry_last [OF p1(2,3)] find_entry_last [OF ok' e'(1)] assms(2) by simp_all
  moreover have "set_source (length ?es) ?blank p1 = p1"
    using s1 by (cases p1) (simp add: set_source_def)
  ultimately have "rtcp_sdes_set_item src type data p1 = Some (0, p')"
    using s1 assms(5) sdes_size_ok [OF ok2]
    by (simp add: rtcp_sdes_set_item_def arr_get_def free_item_absent create_item_def sdes_update_length_def p'_def flip: p2_def)
  then have "sdes_add_item src type data p = Some (True, p')"
    using p1(1) by (simp add: sdes_add_item_def)
  moreover have "sdes_get_item src type p' = Some (Some \<lparr>it_type = type, it_data = data\<rparr>)"
      "rtcp_sdes_set_item src type data' p' = None"
    using f' e' by (simp_all add: sdes_get_item_def rtcp_sdes_set_item_def arr_get_def free_item_found)
  moreover have "th_length (sd_header p') = word_of_nat (length (sdes_bytes p') div 4 - 1)"
    using len by (simp add: p'_def)
  ultimately show ?thesis
    using sdes_roundtrip [OF ok', of rest] e'(1) by blast
qed

theorem sdes_source_described_witness:
  "\<exists>p' buf. sdes_add_item 7 1 [97, 64, 98] sdes_new = Some (True, p') \<and> sdes_serialize p' = Some (True, buf) \<and>
     sdes_parse (buf @ [0, 0]) sdes_new = Some (True, p') \<and>
     sdes_get_item 7 1 p' = Some (Some \<lparr>it_type = 1, it_data = [97, 64, 98]\<rparr>) \<and>
     rtcp_sdes_set_item 7 1 [99] p' = None"
proof -
  have "sdes_ok sdes_new" "sdes_entries sdes_new = []"
    by (simp_all add: sdes_ok_def sdes_new_def rtcp_sdes_init_def rtcp_sdes_create_def sdes_entries_def rtcp_header_ok_def
        rtcp_header_zero_def)
  then show ?thesis
    using sdes_source_described [of sdes_new 7 1 "[97, 64, 98]" "[0, 0]" "[99]"] by auto
qed

end
