(* ===== verification/Rtcp_Bye.thy ===== *)
theory Rtcp_Bye
  imports Rtcp_Header
begin

text \<open>
  The goodbye packet, \<open>rtpx/rtp/rtcp_bye.c\<close>, and the application packet, \<open>rtpx/rtp/rtcp_app.c\<close>.
  A C string is the list of the characters before its terminator; allocations succeed.
\<close>

unbundle bit_operations_syntax

section \<open>Goodbye packets\<close>

record rtcp_bye =
  bye_header :: rtcp_header
  bye_src_ids :: "u32 list option"
  bye_message :: "bytes option"

definition rtcp_bye_create :: rtcp_bye where
  "rtcp_bye_create = \<lparr>bye_header = rtcp_header_zero, bye_src_ids = None, bye_message = None\<rparr>"

definition rtcp_bye_init :: "rtcp_bye \<Rightarrow> rtcp_bye" where
  "rtcp_bye_init packet = packet\<lparr>bye_header := (bye_header packet)\<lparr>th_version := 2, th_pt := RTCP_BYE\<rparr>\<rparr>"

definition rtcp_bye_size :: "rtcp_bye \<Rightarrow> nat" where
  "rtcp_bye_size packet =
     (let size = 4 + unat (th_count (bye_header packet)) * 4 in
      case bye_message packet of
        None \<Rightarrow> size
      | Some message \<Rightarrow> let size = size + 1 + length message in size + pad4 size)"

fun write_src_ids :: "u32 list option \<Rightarrow> nat \<Rightarrow> nat \<Rightarrow> nat \<Rightarrow> bytes \<Rightarrow> bytes cxx" where
  "write_src_ids src_ids i 0 offset buffer = Some buffer"
| "write_src_ids src_ids i (Suc n) offset buffer = do {
     src \<leftarrow> arr_get src_ids i;
     buffer \<leftarrow> wr_range buffer offset (b32 src);
     write_src_ids src_ids (i + 1) n (offset + 4) buffer }"

text \<open>The message is written without the padding its size was rounded up by.\<close>

definition rtcp_bye_serialize :: "rtcp_bye \<Rightarrow> bytes \<Rightarrow> (int \<times> bytes) cxx" where
  "rtcp_bye_serialize packet buffer =
     (let packet_size = rtcp_bye_size packet in
      if length buffer < packet_size then Some (-1, buffer)
      else do {
        (r, buffer) \<leftarrow> rtcp_header_serialize (bye_header packet) buffer;
        if r < 0 then Some (-1, buffer)
        else do {
          let count = unat (th_count (bye_header packet));
          buffer \<leftarrow> write_src_ids (bye_src_ids packet) 0 count 4 buffer;
          case bye_message packet of
            None \<Rightarrow> Some (int packet_size, buffer)
          | Some message \<Rightarrow>
              if length message > 0xff then Some (-1, buffer)
              else do {
                buffer \<leftarrow> wr_range buffer (4 + count * 4) (word_of_nat (length message) # message);
                Some (int packet_size, buffer) } } })"

fun read_src_ids :: "bytes \<Rightarrow> nat \<Rightarrow> nat \<Rightarrow> u32 list cxx" where
  "read_src_ids buffer offset 0 = Some []"
| "read_src_ids buffer offset (Suc n) = do {
     src \<leftarrow> rd32 buffer offset;
     srcs \<leftarrow> read_src_ids buffer (offset + 4) n;
     Some (src # srcs) }"

text \<open>
  The allocation for a message has room for its characters and a terminator; the terminator is
  written one place behind that. The packet of the result is \<open>None\<close> where the function has freed it.
\<close>

definition rtcp_bye_parse :: "rtcp_bye \<Rightarrow> bytes \<Rightarrow> (int \<times> rtcp_bye option) cxx" where
  "rtcp_bye_parse packet buffer =
     (if length buffer < 4 then Some (-1, Some packet)
      else do {
        (pt, header) \<leftarrow> rtcp_header_parse (bye_header packet) buffer;
        let packet = packet\<lparr>bye_header := header\<rparr>;
        if pt \<noteq> uint RTCP_BYE then Some (-1, Some packet)
        else do {
          let count = unat (th_count header);
          if count \<noteq> 0 \<and> length buffer < 4 + 4 * count then Some (-1, None)
          else do {
            packet \<leftarrow> (if count \<noteq> 0 then do {
                          src_ids \<leftarrow> read_src_ids buffer 4 count;
                          Some (packet\<lparr>bye_src_ids := Some src_ids\<rparr>) }
                        else Some packet);
            let offset = 4 + 4 * count;
            if length buffer > offset then do {
              n \<leftarrow> rd8 buffer offset;
              let n = min (unat n) (length buffer - (offset + 1));
              data \<leftarrow> rd_range buffer (offset + 1) (offset + 1 + n);
              message \<leftarrow> wr_range (data @ [0]) (n + 1) [0];
              Some (0, Some (packet\<lparr>bye_message := Some message\<rparr>)) }
            else Some (0, Some packet) } } })"

fun bye_find_loop :: "u32 list option \<Rightarrow> u32 \<Rightarrow> nat \<Rightarrow> nat \<Rightarrow> int cxx" where
  "bye_find_loop src_ids src i 0 = Some (-1)"
| "bye_find_loop src_ids src i (Suc n) = do {
     x \<leftarrow> arr_get src_ids i;
     if x = src then Some (int i) else bye_find_loop src_ids src (i + 1) n }"

definition rtcp_bye_find_source :: "rtcp_bye \<Rightarrow> u32 \<Rightarrow> int cxx" where
  "rtcp_bye_find_source packet src_id =
     bye_find_loop (bye_src_ids packet) src_id 0 (unat (th_count (bye_header packet)))"

definition bye_update_length :: "rtcp_bye \<Rightarrow> rtcp_bye" where
  "bye_update_length packet =
     packet\<lparr>bye_header := (bye_header packet)\<lparr>th_length := word_of_nat (rtcp_bye_size packet div 4 - 1)\<rparr>\<rparr>"

text \<open>The count is a bit field of five bits, as in the reports.\<close>

definition rtcp_bye_add_source :: "u32 \<Rightarrow> rtcp_bye \<Rightarrow> (int \<times> rtcp_bye) cxx" where
  "rtcp_bye_add_source src_id packet =
     (let count = th_count (bye_header packet) in
      if count = 0 then
        Some (0, bye_update_length
          (packet\<lparr>bye_src_ids := Some [src_id], bye_header := (bye_header packet)\<lparr>th_count := 1\<rparr>\<rparr>))
      else if count = 0xff then Some (-1, packet)
      else do {
        r \<leftarrow> rtcp_bye_find_source packet src_id;
        if r \<noteq> -1 then Some (-1, packet)
        else do {
          let count' = (count + 1) AND 0x1f;
          if count' = 0 then None
          else do {
            old \<leftarrow> bye_src_ids packet;
            if length old < unat count then None
            else Some (0, bye_update_length
              (packet\<lparr>bye_src_ids := Some (take (unat count) old @ [src_id]),
                      bye_header := (bye_header packet)\<lparr>th_count := count'\<rparr>\<rparr>)) } } })"

text \<open>The \<open>memmove\<close> takes one source more than there is behind the removed one.\<close>

definition rtcp_bye_remove_source :: "u32 \<Rightarrow> rtcp_bye \<Rightarrow> rtcp_bye cxx" where
  "rtcp_bye_remove_source src_id packet = do {
     index \<leftarrow> rtcp_bye_find_source packet src_id;
     if index < 0 then Some packet
     else do {
       old \<leftarrow> bye_src_ids packet;
       let count = th_count (bye_header packet);
       let n = unat count - nat index;
       if nat index + 1 + n > length old then None
       else do {
         let moved = take (nat index) old @ take n (drop (nat index + 1) old) @ drop (nat index + n) old;
         let count' = count - 1;
         Some (bye_update_length
           (packet\<lparr>bye_header := (bye_header packet)\<lparr>th_count := count'\<rparr>,
                   bye_src_ids := (if count' > 0 then Some (take (unat count') moved) else None)\<rparr>)) } } }"

definition rtcp_bye_set_message :: "bytes \<Rightarrow> rtcp_bye \<Rightarrow> int \<times> rtcp_bye" where
  "rtcp_bye_set_message message packet =
     (if bye_message packet \<noteq> None then (-1, packet)
      else (0, bye_update_length (packet\<lparr>bye_message := Some message\<rparr>)))"

definition rtcp_bye_clear_message :: "rtcp_bye \<Rightarrow> rtcp_bye" where
  "rtcp_bye_clear_message packet = bye_update_length (packet\<lparr>bye_message := None\<rparr>)"

section \<open>Application packets\<close>

record rtcp_app =
  app_header :: rtcp_header
  app_ssrc :: u32
  app_name :: u32
  app_size :: nat
  app_data :: "bytes option"

definition rtcp_app_create :: rtcp_app where
  "rtcp_app_create = \<lparr>app_header = rtcp_header_zero, app_ssrc = 0, app_name = 0, app_size = 0, app_data = None\<rparr>"

definition rtcp_app_init :: "byte \<Rightarrow> rtcp_app \<Rightarrow> rtcp_app" where
  "rtcp_app_init subtype packet =
     packet\<lparr>app_header := (app_header packet)
       \<lparr>th_version := 2, th_count := subtype AND 0x1f, th_pt := RTCP_APP, th_length := 2\<rparr>\<rparr>"

definition rtcp_app_size :: "rtcp_app \<Rightarrow> nat" where
  "rtcp_app_size packet =
     (if app_data packet \<noteq> None \<and> app_size packet \<noteq> 0
      then let size = 12 + app_size packet in size + pad4 size else 12)"

definition rtcp_app_serialize :: "rtcp_app \<Rightarrow> bytes \<Rightarrow> (int \<times> bytes) cxx" where
  "rtcp_app_serialize packet buffer =
     (let packet_size = rtcp_app_size packet in
      if length buffer < packet_size then Some (-1, buffer)
      else do {
        buffer \<leftarrow> wr_range buffer 0 (replicate packet_size 0);
        (r, buffer) \<leftarrow> rtcp_header_serialize (app_header packet) buffer;
        if r < 0 then Some (-1, buffer)
        else do {
          buffer \<leftarrow> wr_range buffer 4 (b32 (app_ssrc packet) @ b32 (app_name packet));
          buffer \<leftarrow> (case app_data packet of None \<Rightarrow> Some buffer
                     | Some data \<Rightarrow> do { d \<leftarrow> rd_range data 0 (app_size packet); wr_range buffer 12 d });
          Some (int packet_size, buffer) } })"

definition rtcp_app_parse :: "rtcp_app \<Rightarrow> bytes \<Rightarrow> (int \<times> rtcp_app) cxx" where
  "rtcp_app_parse packet buffer = do {
     (pt, header) \<leftarrow> rtcp_header_parse (app_header packet) buffer;
     let packet = packet\<lparr>app_header := header\<rparr>;
     if pt \<noteq> uint RTCP_APP then Some (-1, packet)
     else do {
       ssrc \<leftarrow> rd32 buffer 4;
       name \<leftarrow> rd32 buffer 8;
       let packet = packet\<lparr>app_ssrc := ssrc, app_name := name\<rparr>;
       let length = (unat (th_length header) + 1) * 4;
       if length > 12 then do {
         d \<leftarrow> rd_range buffer 12 length;
         Some (0, packet\<lparr>app_size := length - 12, app_data := Some d\<rparr>) }
       else Some (0, packet) } }"

definition app_update_length :: "rtcp_app \<Rightarrow> rtcp_app" where
  "app_update_length packet =
     packet\<lparr>app_header := (app_header packet)\<lparr>th_length := word_of_nat (rtcp_app_size packet div 4 - 1)\<rparr>\<rparr>"

definition rtcp_app_set_data :: "bytes \<Rightarrow> rtcp_app \<Rightarrow> int \<times> rtcp_app" where
  "rtcp_app_set_data data packet =
     (if app_data packet \<noteq> None then (-1, packet)
      else (0, app_update_length (packet\<lparr>app_size := length data, app_data := Some data\<rparr>)))"

definition rtcp_app_clear_data :: "rtcp_app \<Rightarrow> rtcp_app" where
  "rtcp_app_clear_data packet =
     app_update_length (if app_data packet \<noteq> None then packet\<lparr>app_data := None, app_size := 0\<rparr> else packet)"

section \<open>The wire format\<close>

definition bye_srcs :: "rtcp_bye \<Rightarrow> u32 list" where
  "bye_srcs p = (case bye_src_ids p of None \<Rightarrow> [] | Some srcs \<Rightarrow> srcs)"

definition bye_srcs_ok :: "rtcp_bye \<Rightarrow> bool" where
  "bye_srcs_ok p \<longleftrightarrow> bye_src_ids p \<noteq> Some [] \<and> length (bye_srcs p) < 32 \<and>
     th_count (bye_header p) = word_of_nat (length (bye_srcs p))"

definition bye_ok :: "rtcp_bye \<Rightarrow> bool" where
  "bye_ok p \<longleftrightarrow> rtcp_header_ok (bye_header p) \<and> th_pt (bye_header p) = RTCP_BYE \<and> bye_srcs_ok p"

definition src_bytes :: "u32 list \<Rightarrow> bytes" where
  "src_bytes srcs = concat (map b32 srcs)"

definition message_bytes :: "rtcp_bye \<Rightarrow> bytes" where
  "message_bytes p =
     (case bye_message p of None \<Rightarrow> []
      | Some m \<Rightarrow> word_of_nat (length m) # m @ replicate (pad4 (1 + length m)) 0)"

definition bye_bytes :: "rtcp_bye \<Rightarrow> bytes" where
  "bye_bytes p = rtcp_header_bytes (bye_header p) @ src_bytes (bye_srcs p) @ message_bytes p"

lemma length_src_bytes [simp]: "length (src_bytes srcs) = 4 * length srcs"
  by (induction srcs) (simp_all add: src_bytes_def)

lemma write_src_ids_bytes:
  assumes "i + n = length srcs" "offset = length pre" "4 * n \<le> length old"
  shows "write_src_ids (Some srcs) i n offset (pre @ old) = Some (pre @ src_bytes (drop i srcs) @ drop (4 * n) old)"
  using assms
proof (induction n arbitrary: i offset pre old)
  case (Suc n)
  then have i: "i < length srcs" and d: "drop i srcs = srcs ! i # drop (Suc i) srcs"
    by (simp_all add: Cons_nth_drop_Suc)
  have "write_src_ids (Some srcs) (Suc i) n (offset + 4) ((pre @ b32 (srcs ! i)) @ drop 4 old) =
      Some ((pre @ b32 (srcs ! i)) @ src_bytes (drop (Suc i) srcs) @ drop (4 * n) (drop 4 old))"
    using Suc.prems by (intro Suc.IH) simp_all
  then show ?case
    using Suc.prems i d by (simp add: arr_get_def src_bytes_def wr_range_at add.commute)
qed (simp add: src_bytes_def)

lemma read_src_ids_bytes:
  "offset = length pre \<Longrightarrow> read_src_ids (pre @ src_bytes srcs @ rest) offset (length srcs) = Some srcs"
proof (induction srcs arbitrary: pre offset)
  case (Cons s srcs)
  have "read_src_ids ((pre @ b32 s) @ src_bytes srcs @ rest) (offset + 4) (length srcs) = Some srcs"
    using Cons.prems by (intro Cons.IH) simp
  then show ?case
    using Cons.prems by (simp add: src_bytes_def)
qed simp

lemma read_src_ids_defined: "offset + 4 * n \<le> length d \<Longrightarrow> read_src_ids d offset n \<noteq> None"
proof (induction n arbitrary: offset)
  case (Suc n)
  then have "read_src_ids d (offset + 4) n \<noteq> None" "rd32 d offset \<noteq> None"
    using rd32_in [of "offset + 3" d] by (auto simp: rd32_def rd8_def)
  then show ?case
    by auto
qed simp

lemma bye_srcs_count: "bye_srcs_ok p \<Longrightarrow> unat (th_count (bye_header p)) = length (bye_srcs p)"
  by (simp add: bye_srcs_ok_def unat_of_nat)

lemma bye_count: "bye_ok p \<Longrightarrow> unat (th_count (bye_header p)) = length (bye_srcs p)"
  by (simp add: bye_ok_def bye_srcs_count)

lemma src_bytes_Nil [simp]: "src_bytes [] = []"
  by (simp add: src_bytes_def)

lemma pad4_message: "pad4 (5 + (n * 4 + k)) = pad4 (Suc k)"
  unfolding pad4_def Let_def by presburger

lemma bye_size_ok: "bye_srcs_ok p \<Longrightarrow> rtcp_bye_size p = length (bye_bytes p)"
  using bye_srcs_count [of p]
  by (cases "bye_message p") (simp_all add: rtcp_bye_size_def bye_bytes_def message_bytes_def Let_def pad4_message)

text \<open>Serialization into a buffer of any size, for a header that need not be initialised.\<close>

lemma bye_serialize_any:
  assumes "bye_srcs_ok p" "\<forall>m. bye_message p = Some m \<longrightarrow> length m < 256" "rtcp_bye_size p \<le> length buffer"
  shows "rtcp_bye_serialize p buffer = Some (int (rtcp_bye_size p),
    (let h = bye_header p in [push_bit 6 (th_version h) OR push_bit 5 (th_p h) OR th_count h, th_pt h] @ b16 (th_length h)) @
    src_bytes (bye_srcs p) @
    (case bye_message p of None \<Rightarrow> drop (4 + 4 * length (bye_srcs p)) buffer
     | Some m \<Rightarrow> (word_of_nat (length m) # m) @ drop (5 + 4 * length (bye_srcs p) + length m) buffer))"
proof -
  define h where "h = (let h = bye_header p in [push_bit 6 (th_version h) OR push_bit 5 (th_p h) OR th_count h, th_pt h] @ b16 (th_length h))"
  let ?s = "src_bytes (bye_srcs p)" and ?n = "length (bye_srcs p)"
  note c = bye_srcs_count [OF assms(1)]
  have sz: "4 + 4 * ?n \<le> length buffer" "\<forall>m. bye_message p = Some m \<longrightarrow> 5 + 4 * ?n + length m \<le> length buffer"
    using assms(3) c by (auto simp: rtcp_bye_size_def Let_def split: option.splits)
  have l: "length h = 4"
    by (simp add: h_def Let_def)
  have "rtcp_header_serialize (bye_header p) buffer = Some (4, h @ drop 4 buffer)"
    using sz(1) wr_range_0 [of h buffer] l by (simp add: rtcp_header_serialize_def h_def Let_def)
  moreover have "write_src_ids (bye_src_ids p) 0 ?n 4 (h @ drop 4 buffer) = Some ((h @ ?s) @ drop (4 + 4 * ?n) buffer)"
    using write_src_ids_bytes [of 0 ?n "bye_srcs p" 4 h "drop 4 buffer"] sz(1) l
    by (cases "bye_src_ids p") (simp_all add: bye_srcs_def add.commute)
  moreover have "wr_range ((h @ ?s) @ drop (4 + 4 * ?n) buffer) (4 + ?n * 4) (word_of_nat (length m) # m) =
      Some ((h @ ?s) @ (word_of_nat (length m) # m) @ drop (5 + 4 * ?n + length m) buffer)" if "bye_message p = Some m" for m
    using that sz l wr_range_at [of "4 + ?n * 4" "h @ ?s" "word_of_nat (length m) # m" "drop (4 + 4 * ?n) buffer"]
    by (simp add: add.commute add.left_commute)
  ultimately show ?thesis
    using assms(2,3) c unfolding h_def [symmetric]
    by (cases "bye_message p") (simp_all add: rtcp_bye_serialize_def Let_def)
qed

lemma bye_serialize_bytes:
  assumes "bye_ok p" "\<forall>m. bye_message p = Some m \<longrightarrow> length m < 256"
  shows "rtcp_bye_serialize p (replicate (rtcp_bye_size p) 0) = Some (int (length (bye_bytes p)), bye_bytes p)"
proof -
  have ok: "bye_srcs_ok p" "th_version (bye_header p) = 2"
    using assms(1) by (simp_all add: bye_ok_def rtcp_header_ok_def)
  show ?thesis
    using bye_serialize_any [OF ok(1) assms(2), of "replicate (rtcp_bye_size p) 0"] bye_size_ok [OF ok(1)] ok(2)
    by (cases "bye_message p")
      (simp_all add: bye_bytes_def message_bytes_def rtcp_header_bytes_def Let_def del: replicate_Suc replicate.simps)
qed

text \<open>The inputs on which parsing is undefined are those with anything behind the sources.\<close>

lemma rtcp_bye_parse_undefined_iff:
  "rtcp_bye_parse packet d = None \<longleftrightarrow>
   4 \<le> length d \<and> drop_bit 6 (d ! 0) AND 0x3 = 2 \<and> d ! 1 = RTCP_BYE \<and> 4 + 4 * unat (d ! 0 AND 0x1f) < length d"
proof (cases "length d < 4")
  case False
  then have r: "rd8 d 0 = Some (d ! 0)" "rd8 d 1 = Some (d ! 1)" "rd16 d 2 = Some (be16 (d ! 2) (d ! 3))"
    by (auto simp: rd8_def rd16_in)
  let ?n = "unat (d ! 0 AND 0x1f)"
  let ?h = "\<lparr>th_version = drop_bit 6 (d ! 0) AND 0x3, th_p = drop_bit 5 (d ! 0) AND 0x1, th_count = d ! 0 AND 0x1f,
    th_pt = d ! 1, th_length = be16 (d ! 2) (d ! 3)\<rparr>"
  have h: "rtcp_header_parse (bye_header packet) d =
      (if drop_bit 6 (d ! 0) AND 0x3 = 2 then Some (uint (d ! 1), ?h) else Some (-1, ?h))"
    using r False by (simp add: rtcp_header_parse_def Let_def)
  show ?thesis
  proof (cases "drop_bit 6 (d ! 0) AND 0x3 = 2 \<and> d ! 1 = RTCP_BYE")
    case True
    then have h: "rtcp_header_parse (bye_header packet) d = Some (uint RTCP_BYE, ?h)"
      using h by simp
    have "\<not> length d < 4 + 4 * ?n \<Longrightarrow> \<exists>srcs. read_src_ids d 4 ?n = Some srcs"
      using read_src_ids_defined [of 4 ?n d] by auto
    then show ?thesis
      using False True
      by (cases "length d < 4 + 4 * ?n"; cases "4 + 4 * ?n < length d"; cases "?n = 0")
        (auto simp: rtcp_bye_parse_def h Let_def rd_range_def wr_range_def rd8_def)
  next
    case False
    moreover have "uint (d ! 1) = uint RTCP_BYE \<longleftrightarrow> d ! 1 = RTCP_BYE" "uint RTCP_BYE \<noteq> -1"
      by (simp_all add: word_uint_eq_iff RTCP_BYE_def)
    ultimately obtain pt where "rtcp_header_parse (bye_header packet) d = Some (pt, ?h)" "pt \<noteq> uint RTCP_BYE"
      using h by (cases "drop_bit 6 (d ! 0) AND 0x3 = 2") auto
    then show ?thesis
      using False by (auto simp: rtcp_bye_parse_def Let_def)
  qed
qed (simp add: rtcp_bye_parse_def)

lemma bye_parse_bytes:
  assumes "bye_ok p" "bye_message p = None"
  shows "rtcp_bye_parse rtcp_bye_create (bye_bytes p) = Some (0, Some p)"
proof -
  have ok: "rtcp_header_ok (bye_header p)" "th_pt (bye_header p) = RTCP_BYE" "bye_src_ids p \<noteq> Some []"
    using assms(1) by (simp_all add: bye_ok_def bye_srcs_ok_def)
  have b: "bye_bytes p = rtcp_header_bytes (bye_header p) @ src_bytes (bye_srcs p)"
    using assms(2) by (simp add: bye_bytes_def message_bytes_def)
  have "rtcp_header_parse h0 (bye_bytes p) = Some (uint RTCP_BYE, bye_header p)" for h0
    using rtcp_header_parse_bytes [OF ok(1)] by (simp add: b ok(2))
  moreover have "read_src_ids (bye_bytes p) 4 (length (bye_srcs p)) = Some (bye_srcs p)"
    using read_src_ids_bytes [of 4 "rtcp_header_bytes (bye_header p)" "bye_srcs p" "[]"] by (simp add: b)
  moreover have "length (bye_bytes p) = 4 + 4 * length (bye_srcs p)"
    by (simp add: b)
  ultimately show ?thesis
    using bye_count [OF assms(1)] ok(3) assms(2)
    by (cases p; cases "bye_src_ids p")
      (auto simp: rtcp_bye_parse_def Let_def rtcp_bye_create_def bye_srcs_def)
qed

lemma bye_parse_message:
  assumes "bye_ok p" "bye_message p = Some m"
  shows "rtcp_bye_parse rtcp_bye_create (bye_bytes p) = None"
proof -
  let ?d = "bye_bytes p" and ?n = "length (bye_srcs p)"
  have "rtcp_header_ok (bye_header p)" "th_pt (bye_header p) = RTCP_BYE"
    using assms(1) by (simp_all add: bye_ok_def)
  then have "rtcp_header_parse h0 ?d = Some (uint RTCP_BYE, bye_header p)" for h0
    using rtcp_header_parse_bytes [of "bye_header p"] by (simp add: bye_bytes_def)
  moreover have l: "4 + 4 * ?n < length ?d"
    using assms(2) by (simp add: bye_bytes_def message_bytes_def)
  moreover have "\<exists>srcs. read_src_ids ?d 4 ?n = Some srcs" "\<exists>b. rd8 ?d (4 + 4 * ?n) = Some b"
    using l read_src_ids_defined [of 4 ?n ?d] by (auto simp: rd8_def)
  ultimately show ?thesis
    using bye_count [OF assms(1)] by (auto simp: rtcp_bye_parse_def rd_range_def wr_range_def Let_def)
qed

lemma bye_update_length_simps [simp]:
  "bye_ok (bye_update_length p) = bye_ok p" "bye_srcs_ok (bye_update_length p) = bye_srcs_ok p" "bye_srcs (bye_update_length p) = bye_srcs p"
  "bye_message (bye_update_length p) = bye_message p" "bye_src_ids (bye_update_length p) = bye_src_ids p"
  "th_count (bye_header (bye_update_length p)) = th_count (bye_header p)"
  by (simp_all add: bye_update_length_def bye_ok_def bye_srcs_ok_def rtcp_header_ok_def bye_srcs_def)

lemma bye_find_loop_None:
  "i + n = length srcs \<Longrightarrow> src \<notin> set srcs \<Longrightarrow> bye_find_loop (Some srcs) src i n = Some (-1)"
  by (induction n arbitrary: i) (auto simp: arr_get_def)

lemma bye_find_loop_last:
  "i + n = length srcs \<Longrightarrow> src \<notin> set srcs \<Longrightarrow> bye_find_loop (Some (srcs @ [src])) src i (Suc n) = Some (int (length srcs))"
proof (induction n arbitrary: i)
  case (Suc n)
  then have "srcs ! i \<noteq> src"
    using nth_mem [of i srcs] by auto
  then show ?case
    using Suc.IH [of "Suc i"] Suc.prems
    by (simp add: arr_get_def nth_append del: bye_find_loop.simps(2)) (simp add: arr_get_def nth_append)
qed (simp add: arr_get_def)

lemma bye_add_source_srcs:
  assumes "bye_srcs_ok p" "src \<notin> set (bye_srcs p)" "length (bye_srcs p) < 31"
  shows "\<exists>p'. rtcp_bye_add_source src p = Some (0, p') \<and> bye_srcs_ok p' \<and> bye_src_ids p' = Some (bye_srcs p @ [src]) \<and>
    bye_message p' = bye_message p \<and>
    bye_header p' = (bye_header p)\<lparr>th_count := word_of_nat (length (bye_srcs p) + 1),
      th_length := word_of_nat (rtcp_bye_size p' div 4 - 1)\<rparr>"
proof (cases "bye_src_ids p")
  case None
  then show ?thesis
    using assms(1) by (auto simp: rtcp_bye_add_source_def bye_srcs_ok_def bye_srcs_def bye_update_length_def rtcp_bye_size_def)
next
  case (Some srcs)
  then have srcs: "bye_srcs p = srcs" "srcs \<noteq> []" "length srcs < 31" and c: "th_count (bye_header p) = word_of_nat (length srcs)"
    using assms by (auto simp: bye_srcs_ok_def bye_srcs_def)
  have u: "unat (th_count (bye_header p)) = length srcs" "unat (th_count (bye_header p) + 1) = length srcs + 1"
    using srcs unat_of_nat_small [of "length srcs", where 'a = 8] unat_of_nat_small [of "length srcs + 1", where 'a = 8]
    by (simp_all add: c add.commute)
  then have n: "th_count (bye_header p) \<noteq> 0" "th_count (bye_header p) \<noteq> 0xff" "th_count (bye_header p) + 1 \<noteq> 0"
      "th_count (bye_header p) + 1 < 32"
    using srcs by (auto simp: word_less_nat_alt word_unat_eq_iff)
  define q where "q = p\<lparr>bye_src_ids := Some (srcs @ [src]),
    bye_header := (bye_header p)\<lparr>th_count := word_of_nat (length srcs + 1)\<rparr>\<rparr>"
  have cnt: "th_count (bye_header p) + 1 = word_of_nat (length srcs + 1)"
    using c by (simp add: add.commute)
  have "(th_count (bye_header p) + 1) AND 0x1f = th_count (bye_header p) + 1"
    using n by (intro byte_and_small)
  moreover have "rtcp_bye_find_source p src = Some (-1)"
    using assms(2) Some srcs(1) u bye_find_loop_None [of 0 "length srcs" srcs src] by (simp add: rtcp_bye_find_source_def)
  ultimately have "rtcp_bye_add_source src p = Some (0, bye_update_length q)"
    using n(1-3) Some u(1) unfolding q_def cnt [symmetric] by (simp add: rtcp_bye_add_source_def Let_def)
  moreover have "bye_srcs q = srcs @ [src]"
    by (simp add: bye_srcs_def q_def)
  then have "bye_srcs_ok q"
    using srcs(3) by (simp add: bye_srcs_ok_def) (simp add: q_def)
  moreover have "rtcp_bye_size (bye_update_length q) = rtcp_bye_size q"
    by (simp add: rtcp_bye_size_def bye_update_length_def)
  moreover have "bye_header (bye_update_length q) = (bye_header p)\<lparr>th_count := word_of_nat (length srcs + 1),
      th_length := word_of_nat (rtcp_bye_size q div 4 - 1)\<rparr>"
    unfolding bye_update_length_def by (simp add: q_def)
  moreover have "bye_src_ids q = Some (srcs @ [src])" "bye_message q = bye_message p"
    by (simp_all add: q_def)
  ultimately show ?thesis
    using srcs(1) by (intro exI [of _ "bye_update_length q"]) simp
qed

lemma bye_add_source_ok:
  assumes "bye_ok p" "src \<notin> set (bye_srcs p)" "length (bye_srcs p) < 31"
  shows "\<exists>p'. rtcp_bye_add_source src p = Some (0, p') \<and> bye_ok p' \<and> bye_src_ids p' = Some (bye_srcs p @ [src]) \<and>
    bye_message p' = bye_message p \<and> th_length (bye_header p') = word_of_nat (rtcp_bye_size p' div 4 - 1)"
proof -
  have "(word_of_nat (length (bye_srcs p) + 1) :: byte) < 32"
    using assms(3) by (simp add: word_less_nat_alt unat_of_nat_small [where 'a = 8] del: of_nat_add of_nat_Suc)
  then show ?thesis
    using bye_add_source_srcs [of p src] assms by (auto simp: bye_ok_def rtcp_header_ok_def)
qed

text \<open>
  A source added to a goodbye without a message reaches the other end; to remove it again is
  undefined, and so is the parsing of the packet once it has a message.
\<close>

text \<open>
  C33: a new source added to a well-formed goodbye of fewer than 31 sources without a message is
  appended, and the packet serializes with a matching length field and parses back from its
  bytes. Removing the source again is undefined (it moves a source from behind the array), and
  once a message of fewer than 256 characters is set, the serialization succeeds but parsing it
  is undefined (the terminator is written behind the allocation).
\<close>

theorem bye_source_delivered:
  assumes "bye_ok p" "bye_message p = None" "src \<notin> set (bye_srcs p)" "length (bye_srcs p) < 31" "length m < 256"
    and "0 \<notin> set m"
  shows "\<exists>p' buf buf'. rtcp_bye_add_source src p = Some (0, p') \<and> bye_srcs p' = bye_srcs p @ [src] \<and>
    rtcp_bye_serialize p' (replicate (rtcp_bye_size p') 0) = Some (int (length buf), buf) \<and>
    th_length (bye_header p') = word_of_nat (length buf div 4 - 1) \<and>
    rtcp_bye_parse rtcp_bye_create buf = Some (0, Some p') \<and>
    rtcp_bye_remove_source src p' = None \<and>
    (let p'' = snd (rtcp_bye_set_message m p')
     in rtcp_bye_serialize p'' (replicate (rtcp_bye_size p'') 0) = Some (int (length buf'), buf') \<and>
        rtcp_bye_parse rtcp_bye_create buf' = None)"
proof -
  obtain p' where p': "rtcp_bye_add_source src p = Some (0, p')" "bye_ok p'" "bye_src_ids p' = Some (bye_srcs p @ [src])"
      "bye_message p' = None" "th_length (bye_header p') = word_of_nat (rtcp_bye_size p' div 4 - 1)"
    using bye_add_source_ok [OF assms(1,3,4)] assms(2) by auto
  define p'' where "p'' = snd (rtcp_bye_set_message m p')"
  have srcs: "bye_srcs p' = bye_srcs p @ [src]"
    using p'(3) by (simp add: bye_srcs_def)
  have "rtcp_bye_find_source p' src = Some (int (length (bye_srcs p)))"
    using bye_count [OF p'(2)] srcs p'(3) bye_find_loop_last [of 0 "length (bye_srcs p)" "bye_srcs p" src] assms(3)
    by (simp add: rtcp_bye_find_source_def)
  then have rm: "rtcp_bye_remove_source src p' = None"
    using bye_count [OF p'(2)] srcs p'(3) by (simp add: rtcp_bye_remove_source_def Let_def)
  have "bye_ok (p'\<lparr>bye_message := Some m\<rparr>) = bye_ok p'"
    by (simp add: bye_ok_def bye_srcs_ok_def bye_srcs_def)
  then have ok: "bye_ok p''" and m: "bye_message p'' = Some m"
    using p'(2,4) by (simp_all add: p''_def rtcp_bye_set_message_def)
  then have s: "rtcp_bye_serialize p'' (replicate (rtcp_bye_size p'') 0) = Some (int (length (bye_bytes p'')), bye_bytes p'')"
    using assms(5) by (intro bye_serialize_bytes) auto
  have "rtcp_bye_parse rtcp_bye_create (bye_bytes p'') = None"
    using ok m by (rule bye_parse_message)
  with s p' srcs rm show ?thesis
    using bye_serialize_bytes [OF p'(2)] bye_parse_bytes [OF p'(2,4)] bye_size_ok [of p'] by (auto simp: Let_def p''_def bye_ok_def)
qed

section \<open>Application data\<close>

definition app_bytes :: "rtcp_app \<Rightarrow> bytes \<Rightarrow> bytes" where
  "app_bytes p data = rtcp_header_bytes (app_header p) @ b32 (app_ssrc p) @ b32 (app_name p) @ data"

lemma rtcp_app_parse_data:
  assumes "rtcp_header_parse (app_header rtcp_app_create) d = Some (uint RTCP_APP, h)" "rd32 d 4 = Some ssrc" "rd32 d 8 = Some name"
    "(unat (th_length h) + 1) * 4 = l" "12 < l" "rd_range d 12 l = Some x"
  shows "rtcp_app_parse rtcp_app_create d =
    Some (0, \<lparr>app_header = h, app_ssrc = ssrc, app_name = name, app_size = l - 12, app_data = Some x\<rparr>)"
  using assms by (simp add: rtcp_app_parse_def rtcp_app_create_def)

text \<open>
  Data set on a fresh packet reaches the other end with the zeros that pad it to whole words, which
  the receiver takes for data.
\<close>

lemma app_data_delivered:
  assumes "app_data p = None" "0 < length data" "length data \<le> 262128" "th_p (app_header p) < 2"
  shows "\<exists>p' buf q. rtcp_app_set_data data (rtcp_app_init subtype p) = (0, p') \<and>
    rtcp_app_serialize p' (replicate (rtcp_app_size p') 0) = Some (int (length buf), buf) \<and>
    rtcp_app_parse rtcp_app_create (buf @ rest) = Some (0, q) \<and>
    th_count (app_header q) = subtype AND 0x1f \<and> app_ssrc q = app_ssrc p \<and> app_name q = app_name p \<and>
    app_data q = Some (data @ replicate (pad4 (length data)) 0) \<and> app_size q = length data + pad4 (length data)"
proof -
  define p' where "p' = snd (rtcp_app_set_data data (rtcp_app_init subtype p))"
  let ?k = "length data + pad4 (length data)" and ?pd = "data @ replicate (pad4 (length data)) 0"
  let ?q = "\<lparr>app_header = app_header p', app_ssrc = app_ssrc p, app_name = app_name p, app_size = ?k, app_data = Some ?pd\<rparr>"
  have p': "rtcp_app_set_data data (rtcp_app_init subtype p) = (0, p')" "app_data p' = Some data" "app_size p' = length data"
      "app_ssrc p' = app_ssrc p" "app_name p' = app_name p" "th_pt (app_header p') = RTCP_APP"
      "th_count (app_header p') = subtype AND 0x1f" "th_p (app_header p') = th_p (app_header p)"
      "th_version (app_header p') = 2"
    using assms(1) by (simp_all add: p'_def rtcp_app_set_data_def rtcp_app_init_def app_update_length_def)
  have "pad4 (12 + length data) = pad4 (length data)"
    unfolding pad4_def Let_def by presburger
  then have sz: "rtcp_app_size p' = 12 + ?k"
    using p' assms(2) by (simp add: rtcp_app_size_def Let_def)
  have k: "?k div 4 * 4 = ?k"
    by (rule dvd_div_mult_self) (simp add: dvd_eq_mod_eq_0)
  have "th_length (app_header p') = word_of_nat (rtcp_app_size p' div 4 - 1)"
    using assms(1) by (simp add: p'_def rtcp_app_set_data_def rtcp_app_init_def app_update_length_def rtcp_app_size_def)
  moreover have "rtcp_app_size p' div 4 - 1 = ?k div 4 + 2"
    using sz by simp
  ultimately have "th_length (app_header p') = word_of_nat (?k div 4 + 2)"
    by (simp only:)
  moreover have "?k div 4 + 2 < 2 ^ LENGTH(16)"
    using assms(3) pad4_less [of "length data"] by simp
  ultimately have "unat (th_length (app_header p')) = ?k div 4 + 2"
    by (simp only: unat_of_nat_small)
  then have len: "(unat (th_length (app_header p')) + 1) * 4 = 12 + ?k"
    using k by auto
  have "rtcp_app_serialize p' (replicate (rtcp_app_size p') 0) = Some (int (length (app_bytes p' ?pd)), app_bytes p' ?pd) \<and>
      rtcp_app_parse rtcp_app_create (app_bytes p' ?pd @ rest) =
        Some (0, ?q)"
  proof -
    have "subtype AND 0x1f < 32"
      using word_and_le1 [of subtype "0x1f"] by (simp add: word_le_nat_alt word_less_nat_alt)
    then have ok: "rtcp_header_ok (app_header p')"
      using p' assms(4) by (simp add: rtcp_header_ok_def)
    have 1: "rtcp_header_serialize (app_header p') (replicate (12 + ?k) 0) = Some (4, rtcp_header_bytes (app_header p') @ replicate (8 + ?k) 0)"
      using rtcp_header_serialize_bytes [OF ok, of "replicate (12 + ?k) 0"] by simp
    have 2: "wr_range (rtcp_header_bytes (app_header p') @ replicate (8 + ?k) 0) 4 (b32 (app_ssrc p) @ b32 (app_name p)) =
        Some ((rtcp_header_bytes (app_header p') @ b32 (app_ssrc p) @ b32 (app_name p)) @ replicate ?k 0)"
      by (subst wr_range_at) simp_all
    have 3: "wr_range ((rtcp_header_bytes (app_header p') @ b32 (app_ssrc p) @ b32 (app_name p)) @ replicate ?k 0) 12 data =
        Some (app_bytes p' ?pd)"
      using p' by (subst wr_range_at) (simp_all add: app_bytes_def)
    have ser: "rtcp_app_serialize p' (replicate (rtcp_app_size p') 0) = Some (int (length (app_bytes p' ?pd)), app_bytes p' ?pd)"
      using p' sz 1 2 3 by (simp add: rtcp_app_serialize_def Let_def wr_range_0 rd_range_def) (simp add: app_bytes_def)
    have "rtcp_header_parse h0 (app_bytes p' ?pd @ rest) = Some (uint RTCP_APP, app_header p')" for h0
      using rtcp_header_parse_bytes [OF ok] p' by (simp add: app_bytes_def)
    moreover have "rd_range (app_bytes p' ?pd @ rest) 12 (12 + ?k) = Some ?pd"
      using rd_range_mid [of 12 "rtcp_header_bytes (app_header p') @ b32 (app_ssrc p') @ b32 (app_name p')" _ ?pd rest]
      by (simp add: app_bytes_def)
    moreover have "rd32 (app_bytes p' ?pd @ rest) 4 = Some (app_ssrc p)" "rd32 (app_bytes p' ?pd @ rest) 8 = Some (app_name p)"
      using p' by (simp_all add: app_bytes_def)
    moreover have "12 < 12 + ?k"
      using assms(2) by simp
    ultimately have "rtcp_app_parse rtcp_app_create (app_bytes p' ?pd @ rest) = Some (0, ?q)"
      using rtcp_app_parse_data len by fastforce
    with ser show ?thesis ..
  qed
  with p' show ?thesis
    by (intro exI [of _ p'] exI [of _ "app_bytes p' ?pd"] exI [of _ ?q]) simp
qed

section \<open>Witnesses\<close>

theorem bye_source_delivered_witness:
  "\<exists>p' buf. rtcp_bye_add_source 7 (rtcp_bye_init rtcp_bye_create) = Some (0, p') \<and>
    rtcp_bye_serialize p' (replicate (rtcp_bye_size p') 0) = Some (int (length buf), buf) \<and>
    rtcp_bye_parse rtcp_bye_create buf = Some (0, Some p') \<and> bye_srcs p' = [7] \<and>
    rtcp_bye_remove_source 7 p' = None"
proof -
  let ?p = "rtcp_bye_init rtcp_bye_create"
  have "bye_ok ?p" "bye_message ?p = None" "bye_srcs ?p = []"
    by (simp_all add: bye_ok_def bye_srcs_ok_def bye_srcs_def rtcp_bye_init_def rtcp_bye_create_def rtcp_header_ok_def
        rtcp_header_zero_def)
  then show ?thesis
    using bye_source_delivered [of ?p 7 "[110]"] by auto
qed

end
