(* ===== verification/Transport.thy ===== *)
theory Transport
  imports Stun_Message Rtp_Packet Rtcp_Fb Rtcp_Report Rtcp_Sdes Rtcp_Bye
begin

text \<open>
  The transport, \<open>rtpx/transports/transport.h\<close> and \<open>transport.cpp\<close>: telling RTP, RTCP, STUN and DTLS
  apart on one socket, the hand over of RTCP packets to the session, and the binding requests of ICE
  with their role conflict. The calls of the handlers, which the session binds all, and the virtual
  \<open>send\<close> are events in \<open>tp_events\<close>; a call into the DTLS object is an event too. The four functions
  of libsrtp are fields, each \<open>Some\<close> while there is no session. The events of received packets
  leave out the endpoint, which is that of the datagram. The time of the last message and the log
  are left out.
\<close>

unbundle bit_operations_syntax

datatype stun_ice_role = Stun_ice_controlling | Stun_ice_controlled

datatype proto_type = Proto_rtp | Proto_dtls | Proto_stun | Proto_unknown

datatype tp_event =
    Sent bytes sockaddr
  | Rtp_in rtp_packet
  | Rtcp_rr_in rtcp_rr
  | Rtcp_sr_in rtcp_sr
  | Rtcp_fb_in rtcp_fb
  | Rtcp_sdes_in rtcp_sdes_entry
  | Rtcp_bye_in u32 "bytes option"
  | Rtcp_app_in rtcp_app
  | Stun_completed sockaddr
  | Dtls_request sockaddr
  | Dtls_message bytes

record transport =
  tp_ice_ufrag_remote :: bytes
  tp_ice_pwd_remote :: bytes
  tp_ice_ufrag_local :: bytes
  tp_ice_pwd_local :: bytes
  tp_local_ice_network_id :: u16
  tp_local_ice_network_cost :: u16
  tp_dtls_client :: bool
  tp_ice_role :: stun_ice_role
  tp_tie_breaker :: u64
  tp_dtls :: bool
  tp_handshake :: bool
  tp_unprotect_rtcp :: "bytes \<Rightarrow> bytes option"
  tp_unprotect :: "bytes \<Rightarrow> bytes option"
  tp_protect_rtcp :: "bytes \<Rightarrow> bytes option"
  tp_protect :: "bytes \<Rightarrow> bytes option"
  tp_events :: "tp_event list"

text \<open>The tie breaker is random: the argument.\<close>

definition transport_new :: "u64 \<Rightarrow> transport" where
  "transport_new rnd = \<lparr>tp_ice_ufrag_remote = [], tp_ice_pwd_remote = [], tp_ice_ufrag_local = [], tp_ice_pwd_local = [],
     tp_local_ice_network_id = 1, tp_local_ice_network_cost = 10, tp_dtls_client = False,
     tp_ice_role = Stun_ice_controlling, tp_tie_breaker = rnd, tp_dtls = False, tp_handshake = False,
     tp_unprotect_rtcp = Some, tp_unprotect = Some, tp_protect_rtcp = Some, tp_protect = Some, tp_events = []\<rparr>"

definition tp_emit :: "tp_event list \<Rightarrow> transport \<Rightarrow> transport" where
  "tp_emit es this = this\<lparr>tp_events := tp_events this @ es\<rparr>"

section \<open>RTP and RTCP\<close>

definition tp_send_rtp_packet :: "rtp_packet \<Rightarrow> sockaddr \<Rightarrow> transport \<Rightarrow> (bool \<times> transport) cxx" where
  "tp_send_rtp_packet packet endpoint this =
     (if tp_dtls this \<and> \<not> tp_handshake this then Some (False, this)
      else do {
        (ok, buf) \<leftarrow> packet_serialize packet;
        if \<not> ok then Some (False, this)
        else case tp_protect this buf of
               None \<Rightarrow> Some (False, this)
             | Some buf \<Rightarrow> Some (True, tp_emit [Sent buf endpoint] this) })"

definition tp_send_rtcp_packet :: "bytes \<Rightarrow> sockaddr \<Rightarrow> transport \<Rightarrow> bool \<times> transport" where
  "tp_send_rtcp_packet rtcp_data endpoint this =
     (if tp_dtls this \<and> \<not> tp_handshake this then (False, this)
      else case tp_protect_rtcp this rtcp_data of
             None \<Rightarrow> (False, this)
           | Some buf \<Rightarrow> (True, tp_emit [Sent buf endpoint] this))"

definition detect_message :: "byte \<Rightarrow> proto_type" where
  "detect_message b =
     (if b > 127 \<and> b < 192 then Proto_rtp
      else if b \<ge> 20 \<and> b \<le> 64 then Proto_dtls
      else if b < 2 then Proto_stun
      else Proto_unknown)"

definition detect_rtcp_packet :: "bytes \<Rightarrow> (bool \<times> rtcp_header) cxx" where
  "detect_rtcp_packet buffer = do {
     (ptv, hdr) \<leftarrow> rtcp_header_parse rtcp_header_zero buffer;
     if ptv < 0 then Some (False, hdr)
     else Some (ptv = uint RTCP_APP \<or> ptv = uint RTCP_BYE \<or> ptv = uint RTCP_RR \<or> ptv = uint RTCP_SR \<or>
                ptv = uint RTCP_SDES \<or> ptv = uint RTCP_PSFB \<or> ptv = uint RTCP_RTPFB, hdr) }"

definition handle_rtcp_sdes :: "rtcp_sdes \<Rightarrow> transport \<Rightarrow> transport cxx" where
  "handle_rtcp_sdes sdes this =
     (let n = unat (th_count (sd_header sdes)) in
      if n = 0 then Some this
      else do {
        srcs \<leftarrow> sd_srcs sdes;
        if length srcs < n then None else Some (tp_emit (map Rtcp_sdes_in (take n srcs)) this) })"

definition handle_rtcp_bye :: "rtcp_bye \<Rightarrow> transport \<Rightarrow> transport cxx" where
  "handle_rtcp_bye bye this =
     (let n = unat (th_count (bye_header bye)) in
      if n = 0 then Some this
      else do {
        srcs \<leftarrow> bye_src_ids bye;
        if length srcs < n then None
        else Some (tp_emit (map (\<lambda>src. Rtcp_bye_in src (bye_message bye)) (take n srcs)) this) })"

text \<open>A goodbye that its parser has freed is freed once more, which is undefined.\<close>

definition handle_rtcp_message :: "bytes \<Rightarrow> rtcp_header \<Rightarrow> transport \<Rightarrow> transport cxx" where
  "handle_rtcp_message buffer hdr this =
     (if th_pt hdr = RTCP_RR then do {
        (r, rr) \<leftarrow> rtcp_rr_parse rtcp_rr_create buffer;
        Some (if r \<ge> 0 then tp_emit [Rtcp_rr_in rr] this else this) }
      else if th_pt hdr = RTCP_SR then do {
        (r, sr) \<leftarrow> rtcp_sr_parse rtcp_sr_create buffer;
        Some (if r \<ge> 0 then tp_emit [Rtcp_sr_in sr] this else this) }
      else if th_pt hdr = RTCP_RTPFB \<or> th_pt hdr = RTCP_PSFB then do {
        (r, fb) \<leftarrow> rtcp_fb_parse rtcp_fb_create buffer;
        Some (if r \<ge> 0 then tp_emit [Rtcp_fb_in fb] this else this) }
      else if th_pt hdr = RTCP_SDES then do {
        (r, sdes) \<leftarrow> rtcp_sdes_parse rtcp_sdes_create buffer;
        if r \<ge> 0 then handle_rtcp_sdes sdes this else Some this }
      else if th_pt hdr = RTCP_BYE then do {
        (r, bye) \<leftarrow> rtcp_bye_parse rtcp_bye_create buffer;
        bye \<leftarrow> bye;
        if r \<ge> 0 then handle_rtcp_bye bye this else Some this }
      else if th_pt hdr = RTCP_APP then do {
        (r, app) \<leftarrow> rtcp_app_parse rtcp_app_create buffer;
        Some (if r \<ge> 0 then tp_emit [Rtcp_app_in app] this else this) }
      else Some this)"

definition handle_rtp_message :: "bytes \<Rightarrow> transport \<Rightarrow> transport cxx" where
  "handle_rtp_message buffer this = do {
     (rtcp, hdr) \<leftarrow> detect_rtcp_packet buffer;
     if rtcp then
       case tp_unprotect_rtcp this buffer of
         None \<Rightarrow> Some this
       | Some buffer \<Rightarrow> handle_rtcp_message buffer hdr this
     else
       case tp_unprotect this buffer of
         None \<Rightarrow> Some this
       | Some buffer \<Rightarrow> do {
           (ok, pkt) \<leftarrow> packet_parse rtp_packet_create buffer;
           Some (if ok then tp_emit [Rtp_in pkt] this else this) } }"

section \<open>Binding requests\<close>

abbreviation (input) at_username :: stun_attribute_type where "at_username \<equiv> 0x0006"
abbreviation (input) at_xor_mapped_address :: stun_attribute_type where "at_xor_mapped_address \<equiv> 0x0020"
abbreviation (input) at_priority :: stun_attribute_type where "at_priority \<equiv> 0x0024"
abbreviation (input) at_use_candidate :: stun_attribute_type where "at_use_candidate \<equiv> 0x0025"
abbreviation (input) at_goog_network_info :: stun_attribute_type where "at_goog_network_info \<equiv> 0xc057"
abbreviation (input) at_ice_controlled :: stun_attribute_type where "at_ice_controlled \<equiv> 0x8029"
abbreviation (input) at_ice_controlling :: stun_attribute_type where "at_ice_controlling \<equiv> 0x802a"

abbreviation (input) binding_request :: u16 where "binding_request \<equiv> 0x0001"
abbreviation (input) binding_response :: u16 where "binding_response \<equiv> 0x0101"
abbreviation (input) binding_error_response :: u16 where "binding_error_response \<equiv> 0x0111"

definition stun_error_code_role_conflict :: u32 where "stun_error_code_role_conflict = 487"

definition b64 :: "u64 \<Rightarrow> bytes" where
  "b64 v = b32 (ucast (drop_bit 32 v)) @ b32 (ucast v)"

text \<open>\<open>ntoh64\<close> of a variable into which the first bytes of a string were copied.\<close>

definition be64_prefix :: "bytes \<Rightarrow> u64" where
  "be64_prefix s = fold (\<lambda>b v. push_bit 8 v OR ucast b) (take 8 (s @ replicate 8 0)) 0"

text \<open>
  The serialization of a message works on the password it is given, here a member of the transport,
  and leaves it prepared.
\<close>

definition tp_send_stun_request :: "u32 \<Rightarrow> bytes \<Rightarrow> sockaddr \<Rightarrow> transport \<Rightarrow> transport cxx" where
  "tp_send_stun_request local_priority rnd endpoint this = do {
     let req = make_transaction_id rnd (stun_message_new binding_request);
     let net = b16 (tp_local_ice_network_id this) @ b16 (tp_local_ice_network_cost this);
     let v = b64 (tp_tie_breaker this);
     let req = req\<lparr>sm_attributes :=
       [stun_attribute_new at_username (tp_ice_ufrag_remote this @ [0x3A] @ tp_ice_ufrag_local this),
        stun_attribute_new at_goog_network_info net,
        stun_attribute_new (if tp_ice_role this = Stun_ice_controlling then at_ice_controlling else at_ice_controlled) v,
        stun_attribute_new at_use_candidate [],
        stun_attribute_new at_priority (b32 local_priority)]\<rparr>;
     (sreq, pwd) \<leftarrow> stun_message_serialize (tp_ice_pwd_remote this) req;
     Some (tp_emit [Sent sreq endpoint] (this\<lparr>tp_ice_pwd_remote := pwd\<rparr>)) }"

definition tp_send_dtls_request :: "sockaddr \<Rightarrow> transport \<Rightarrow> transport" where
  "tp_send_dtls_request endpoint this = (if tp_dtls this then tp_emit [Dtls_request endpoint] this else this)"

definition handle_stun_completed :: "sockaddr \<Rightarrow> transport \<Rightarrow> transport" where
  "handle_stun_completed endpoint this =
     (let this = (if \<not> tp_handshake this \<and> tp_dtls_client this then tp_send_dtls_request endpoint this else this)
      in tp_emit [Stun_completed endpoint] this)"

definition role_conflict_response :: "bytes \<Rightarrow> stun_message" where
  "role_conflict_response tid =
     (let attr = \<lparr>ec_class = 4, ec_number = stun_error_code_role_conflict,
                  ec_reason = map (\<lambda>c. of_char c) ''Role Conflict''\<rparr>
      in (stun_message_new binding_error_response)\<lparr>sm_transaction_id := tid,
           sm_attributes := [stun_attribute_new at_error_code (stun_attribute_error_code_serialize attr)]\<rparr>)"

definition binding_success_response :: "sockaddr \<Rightarrow> bytes \<Rightarrow> stun_message" where
  "binding_success_response endpoint tid =
     (stun_message_new binding_response)\<lparr>sm_transaction_id := tid,
        sm_attributes := [stun_attribute_new at_xor_mapped_address
          (stun_attribute_mapped_address_serialize (stun_attribute_xor_mapped_address_create endpoint tid))]\<rparr>"

text \<open>
  The tie breaker of the peer: the attribute found is read as if it were an attribute in itself, with
  a type and a length. \<open>None\<close> inside stands for no conflict.
\<close>

definition conflicting_tie_breaker :: "stun_message \<Rightarrow> transport \<Rightarrow> u64 option cxx" where
  "conflicting_tie_breaker msg this =
     (if tp_ice_role this = Stun_ice_controlling then
        let val = get_attribute at_ice_controlling msg in
        if length val > 0 then do {
          (n, msg_attr) \<leftarrow> stun_attribute_deserialize stun_attribute_default val;
          Some (if n > 0 then Some (be64_prefix (at_value msg_attr)) else None) }
        else Some None
      else Some None)"

definition handle_stun_message :: "bytes \<Rightarrow> sockaddr \<Rightarrow> transport \<Rightarrow> transport cxx" where
  "handle_stun_message buffer endpoint this = do {
     (ok, msg, _) \<leftarrow> stun_message_deserialize (stun_message_new 0) buffer 0;
     if \<not> ok then Some this
     else if sm_type msg = binding_request then do {
       let this = tp_emit [Stun_completed endpoint] this;
       conflict \<leftarrow> conflicting_tie_breaker msg this;
       case conflict of
         Some v \<Rightarrow>
           if tp_tie_breaker this \<ge> v then do {
             (s, pwd) \<leftarrow> stun_message_serialize (tp_ice_pwd_local this) (role_conflict_response (sm_transaction_id msg));
             Some (tp_emit [Sent s endpoint] (this\<lparr>tp_ice_pwd_local := pwd\<rparr>)) }
           else Some (this\<lparr>tp_ice_role := Stun_ice_controlled\<rparr>)
       | None \<Rightarrow> do {
           (s, pwd) \<leftarrow> stun_message_serialize (tp_ice_pwd_local this) (binding_success_response endpoint (sm_transaction_id msg));
           Some (tp_emit [Sent s endpoint] (this\<lparr>tp_ice_pwd_local := pwd\<rparr>)) } }
     else if sm_type msg = binding_response then Some (handle_stun_completed endpoint this)
     else if sm_type msg = binding_error_response then do {
       let val = get_attribute at_error_code msg;
       if length val > 0 then do {
         (ok, err_attr) \<leftarrow> stun_attribute_error_code_deserialize stun_attribute_error_code_new val;
         Some (if ok \<and> ec_number err_attr = stun_error_code_role_conflict
               then this\<lparr>tp_ice_role := Stun_ice_controlled\<rparr> else this) }
       else Some this }
     else Some this }"

text \<open>\<open>buffer[0]\<close> of an empty message is undefined.\<close>

definition received_message :: "bytes \<Rightarrow> sockaddr \<Rightarrow> transport \<Rightarrow> transport cxx" where
  "received_message buffer endpoint this = do {
     b \<leftarrow> rd8 buffer 0;
     case detect_message b of
       Proto_rtp \<Rightarrow> handle_rtp_message buffer this
     | Proto_dtls \<Rightarrow> Some (if tp_dtls this then tp_emit [Dtls_message buffer] this else this)
     | Proto_stun \<Rightarrow> handle_stun_message buffer endpoint this
     | Proto_unknown \<Rightarrow> Some this }"

section \<open>Packets are told apart\<close>

lemma rtp_first_bytes:
  assumes "rtp_header_ok h"
  shows "rd8 (rtp_header_bytes h @ rest) 0 = Some (0x80 OR rh_cc h OR push_bit 4 (rh_x h))"
    "rd8 (rtp_header_bytes h @ rest) 1 = Some (push_bit 7 (rh_m h) OR rh_pt h)"
  by (simp_all add: rtp_header_bytes_def)

lemma first_byte_rtp:
  assumes "drop_bit 6 (b :: byte) AND 0x3 = 2"
  shows "detect_message b = Proto_rtp"
proof -
  have "drop_bit 6 b AND 0x3 = drop_bit 6 b"
    by (rule byte_eqI) (auto simp: bit_simps dest: bit_imp_le_length)
  then have "unat (drop_bit 6 b) = 2"
    using assms by simp
  then have "unat b div 64 = 2"
    using unat_drop_bit_eq [of 6 b] by (simp add: drop_bit_eq_div)
  then show ?thesis
    by (auto simp: detect_message_def word_less_nat_alt word_le_nat_alt)
qed

lemma uint_eq_uint: "uint a = uint b \<longleftrightarrow> a = b"
  by (simp add: word_uint_eq_iff)

lemma detect_rtcp_bytes:
  assumes "rtcp_header_ok h" "th_pt h \<in> {RTCP_APP, RTCP_BYE, RTCP_RR, RTCP_SR, RTCP_SDES, RTCP_PSFB, RTCP_RTPFB}"
  shows "detect_rtcp_packet (rtcp_header_bytes h @ rest) = Some (True, h)"
  using assms(2) by (auto simp: detect_rtcp_packet_def rtcp_header_parse_bytes [OF assms(1)] rtcp_types)

lemma received_rtcp:
  assumes "rtcp_header_ok h" "th_pt h \<in> {RTCP_APP, RTCP_BYE, RTCP_RR, RTCP_SR, RTCP_SDES, RTCP_PSFB, RTCP_RTPFB}"
    "tp_unprotect_rtcp this (rtcp_header_bytes h @ rest) = Some buf"
  shows "received_message (rtcp_header_bytes h @ rest) endpoint this = handle_rtcp_message buf h this"
proof -
  have "rd8 (rtcp_header_bytes h @ rest) 0 = Some (0x80 OR push_bit 5 (th_p h) OR th_count h)"
    by (simp add: rtcp_header_bytes_def)
  moreover have "detect_message (0x80 OR push_bit 5 (th_p h) OR th_count h) = Proto_rtp"
    using assms(1) by (intro first_byte_rtp rtcp_byte0) (simp_all add: rtcp_header_ok_def)
  ultimately show ?thesis
    by (simp add: received_message_def handle_rtp_message_def detect_rtcp_bytes [OF assms(1,2)] assms(3))
qed

lemma detect_rtp_bytes:
  assumes "rtp_header_ok h"
  shows "\<exists>hdr. detect_rtcp_packet (rtp_header_bytes h @ rest) = Some (False, hdr)"
    "detect_message (0x80 OR rh_cc h OR push_bit 4 (rh_x h)) = Proto_rtp"
proof -
  let ?d = "rtp_header_bytes h @ rest" and ?b = "push_bit 7 (rh_m h) OR rh_pt h"
  have fx: "rh_cc h < 8" "rh_x h < 2" "rh_m h < 2" "rh_pt h < 128" "\<not> (71 < rh_pt h \<and> rh_pt h < 96)"
    using assms by (auto simp: rtp_header_ok_def word_less_nat_alt unat_of_nat split: option.splits)
  have "?b AND 0x7f = rh_pt h"
    using fx by (intro rtp_byte1)
  then have "?b \<notin> {RTCP_APP, RTCP_BYE, RTCP_RR, RTCP_SR, RTCP_SDES, RTCP_PSFB, RTCP_RTPFB}"
    using fx(5) by (auto simp: rtcp_types)
  moreover have "4 \<le> length ?d"
    by (simp add: rtp_header_bytes_def)
  ultimately show "\<exists>hdr. detect_rtcp_packet ?d = Some (False, hdr)"
    using rtp_first_bytes [OF assms, of rest]
    by (auto simp: detect_rtcp_packet_def rtcp_header_parse_def Let_def rd16_in uint_eq_uint)
  show "detect_message (0x80 OR rh_cc h OR push_bit 4 (rh_x h)) = Proto_rtp"
    using fx by (intro first_byte_rtp rtp_byte0)
qed

lemma tp_emit_Nil [simp]: "tp_emit [] this = this"
  by (simp add: tp_emit_def)

lemma received_sdes:
  assumes "tp_unprotect_rtcp b = Some" "sdes_ok sdes"
  shows "received_message (sdes_bytes sdes @ rest) ep b = Some (tp_emit (map Rtcp_sdes_in (sdes_entries sdes)) b)"
proof -
  have ok: "rtcp_header_ok (sd_header sdes)" "th_pt (sd_header sdes) = RTCP_SDES" "sd_srcs sdes \<noteq> Some []"
    using assms(2) by (simp_all add: sdes_ok_def)
  have "rtcp_sdes_parse rtcp_sdes_create (sdes_bytes sdes @ rest) = Some (0, sdes)"
    using assms(2) by (rule sdes_parse_bytes) (simp add: rtcp_sdes_create_def)
  moreover have "handle_rtcp_sdes sdes b = Some (tp_emit (map Rtcp_sdes_in (sdes_entries sdes)) b)"
    using sdes_count [OF assms(2)] ok(3) by (cases "sd_srcs sdes") (auto simp: handle_rtcp_sdes_def sdes_entries_def)
  ultimately show ?thesis
    using ok received_rtcp [of "sd_header sdes" b "entries_bytes (sdes_entries sdes) @ rest"]
    by (simp add: assms(1) sdes_bytes_def handle_rtcp_message_def rtcp_types)
qed

lemma received_bye:
  assumes "tp_unprotect_rtcp b = Some" "bye_ok bye" "bye_message bye = None"
  shows "received_message (bye_bytes bye) ep b = Some (tp_emit (map (\<lambda>src. Rtcp_bye_in src None) (bye_srcs bye)) b)"
proof -
  have ok: "rtcp_header_ok (bye_header bye)" "th_pt (bye_header bye) = RTCP_BYE" "bye_src_ids bye \<noteq> Some []"
    using assms(2) by (simp_all add: bye_ok_def bye_srcs_ok_def)
  have "handle_rtcp_bye bye b = Some (tp_emit (map (\<lambda>src. Rtcp_bye_in src None) (bye_srcs bye)) b)"
    using bye_count [OF assms(2)] ok(3) assms(3) by (cases "bye_src_ids bye") (auto simp: handle_rtcp_bye_def bye_srcs_def)
  then show ?thesis
    using ok bye_parse_bytes [OF assms(2,3)] received_rtcp [of "bye_header bye" b "src_bytes (bye_srcs bye) @ message_bytes bye"]
    by (simp add: assms(1) bye_bytes_def handle_rtcp_message_def rtcp_types)
qed

lemma demux_wire:
  assumes "tp_unprotect b = Some" "tp_unprotect_rtcp b = Some"
    and "rtp_packet_ok p" "sr_ok sr" "rr_ok rr" "rtcp_fb_ok fb" "sdes_ok sdes" "bye_ok bye" "bye_message bye = None"
  shows "received_message (rtp_header_bytes (rk_header p) @ rk_payload_data p) ep b = Some (tp_emit [Rtp_in p] b) \<and>
    received_message (sr_bytes sr @ rest) ep b = Some (tp_emit [Rtcp_sr_in sr] b) \<and>
    received_message (rr_bytes rr @ rest) ep b = Some (tp_emit [Rtcp_rr_in rr] b) \<and>
    received_message (rtcp_fb_bytes fb) ep b = Some (tp_emit [Rtcp_fb_in fb] b) \<and>
    received_message (sdes_bytes sdes @ rest) ep b = Some (tp_emit (map Rtcp_sdes_in (sdes_entries sdes)) b) \<and>
    received_message (bye_bytes bye) ep b = Some (tp_emit (map (\<lambda>src. Rtcp_bye_in src None) (bye_srcs bye)) b)"
proof -
  have ph: "rtp_header_ok (rk_header p)"
    using assms(3) by (simp add: rtp_packet_ok_def)
  obtain hdr where "detect_rtcp_packet (rtp_header_bytes (rk_header p) @ rk_payload_data p) = Some (False, hdr)"
    using detect_rtp_bytes(1) [OF ph] by blast
  then have "received_message (rtp_header_bytes (rk_header p) @ rk_payload_data p) ep b = Some (tp_emit [Rtp_in p] b)"
    using detect_rtp_bytes(2) [OF ph] rtp_first_bytes(1) [OF ph] rtp_packet_wire [OF assms(3)] assms(1)
    by (auto simp: received_message_def handle_rtp_message_def)
  moreover have "received_message (sr_bytes sr @ rest) ep b = Some (tp_emit [Rtcp_sr_in sr] b)"
    using assms(4) sr_parse_bytes [OF assms(4), of rtcp_sr_create rest]
      received_rtcp [of "sr_header sr" b "sr_head sr @ reports_data (sr_reports sr) @ ext_data (sr_ext_data sr) @ rest"]
    by (simp add: sr_ok_def assms(2) sr_bytes_def rtcp_sr_create_def handle_rtcp_message_def rtcp_types)
  moreover have "received_message (rr_bytes rr @ rest) ep b = Some (tp_emit [Rtcp_rr_in rr] b)"
    using assms(5) rr_parse_bytes [OF assms(5), of rtcp_rr_create rest]
      received_rtcp [of "rr_header rr" b "b32 (rr_ssrc rr) @ reports_data (rr_reports rr) @ ext_data (rr_ext_data rr) @ rest"]
    by (simp add: rr_ok_def assms(2) rr_bytes_def rtcp_rr_create_def handle_rtcp_message_def rtcp_types)
  moreover have "received_message (rtcp_fb_bytes fb) ep b = Some (tp_emit [Rtcp_fb_in fb] b)"
    using assms(6) rtcp_fb_wire [OF assms(6)]
      received_rtcp [of "fb_header fb" b "b32 (fb_ssrc_sender fb) @ b32 (fb_ssrc_media fb) @ fb_fci_data fb"]
    by (auto simp: rtcp_fb_ok_def assms(2) rtcp_fb_bytes_def handle_rtcp_message_def rtcp_types)
  moreover have "received_message (sdes_bytes sdes @ rest) ep b = Some (tp_emit (map Rtcp_sdes_in (sdes_entries sdes)) b)"
    using received_sdes [OF assms(2,7)] .
  moreover have "received_message (bye_bytes bye) ep b = Some (tp_emit (map (\<lambda>src. Rtcp_bye_in src None) (bye_srcs bye)) b)"
    using received_bye [OF assms(2,8,9)] .
  ultimately show ?thesis
    by blast
qed

text \<open>
  Without SRTP, what one side sends is handed to the session of the other as what it is: an RTP packet,
  a sender or receiver report, a feedback packet, a description, a goodbye without a message.
\<close>

text \<open>
  C6: without DTLS and SRTP, what one transport sends is handed to the session of the other as
  what it is, every field intact: an RTP packet sent by send_rtp_packet, and the serializations
  of a sender report, a receiver report, a feedback packet, a source description (one event per
  source) and a goodbye without a message (one event per source). What follows the first packet
  of a compound datagram (behind a report or a description) is ignored. Assumed are well-formed
  packets: version 2, counts and length fields that agree with the contents; for RTP also no
  padding flag, a payload type outside 72 to 95, a payload, at most 7 sources and 255 words of
  extension, a list only where it is non-empty; for reports fewer than 32 blocks and a whole-
  word extension below 260000 bytes; for feedback a whole-word payload below 65524 bytes,
  present though it may be empty; for descriptions fewer than 32 sources with distinct non-zero
  item types, fewer than 256 items each and items below 256 bytes; for goodbyes fewer than 32
  sources.
\<close>

theorem transport_demux:
  assumes a: "\<not> tp_dtls a" "tp_protect a = Some" "tp_protect_rtcp a = Some"
    and b: "tp_unprotect b = Some" "tp_unprotect_rtcp b = Some"
    and ok: "rtp_packet_ok p" "sr_ok sr" "rr_ok rr" "rtcp_fb_ok fb" "sdes_ok sdes" "bye_ok bye" "bye_message bye = None"
  shows "\<exists>d1 d2 d3 d4 d5 d6.
    tp_send_rtp_packet p epb a = Some (True, tp_emit [Sent d1 epb] a) \<and>
    received_message d1 epa b = Some (tp_emit [Rtp_in p] b) \<and>
    rtcp_sr_serialize sr (replicate (rtcp_sr_size sr) 0) = Some (int (rtcp_sr_size sr), d2) \<and>
    received_message (d2 @ rest) epa b = Some (tp_emit [Rtcp_sr_in sr] b) \<and>
    rtcp_rr_serialize rr (replicate (rtcp_rr_size rr) 0) = Some (int (rtcp_rr_size rr), d3) \<and>
    received_message (d3 @ rest) epa b = Some (tp_emit [Rtcp_rr_in rr] b) \<and>
    rtcp_fb_serialize fb (replicate (rtcp_fb_size fb) 0) = Some (int (rtcp_fb_size fb), d4) \<and>
    received_message d4 epa b = Some (tp_emit [Rtcp_fb_in fb] b) \<and>
    sdes_serialize sdes = Some (True, d5) \<and>
    received_message (d5 @ rest) epa b = Some (tp_emit (map Rtcp_sdes_in (sdes_entries sdes)) b) \<and>
    rtcp_bye_serialize bye (replicate (rtcp_bye_size bye) 0) = Some (int (rtcp_bye_size bye), d6) \<and>
    received_message d6 epa b = Some (tp_emit (map (\<lambda>src. Rtcp_bye_in src None) (bye_srcs bye)) b) \<and>
    (\<forall>d. tp_send_rtcp_packet d epb a = (True, tp_emit [Sent d epb] a))"
proof -
  have "tp_send_rtp_packet p epb a =
      Some (True, tp_emit [Sent (rtp_header_bytes (rk_header p) @ rk_payload_data p) epb] a)"
    using rtp_packet_wire [OF ok(1)] a by (simp add: tp_send_rtp_packet_def)
  moreover have "\<forall>d. tp_send_rtcp_packet d epb a = (True, tp_emit [Sent d epb] a)"
    using a by (simp add: tp_send_rtcp_packet_def)
  moreover have "rtcp_bye_serialize bye (replicate (rtcp_bye_size bye) 0) = Some (int (rtcp_bye_size bye), bye_bytes bye)"
    using bye_serialize_bytes [OF ok(6)] ok(6,7) bye_size_ok [of bye] by (simp add: bye_ok_def)
  ultimately show ?thesis
    using demux_wire [OF b ok, of epa rest] sr_serialize_bytes [OF ok(2)] rr_serialize_bytes [OF ok(3)]
      rtcp_fb_wire [OF ok(4)] sdes_serialize_bytes [OF ok(5)] by blast
qed

theorem transport_demux_witness:
  "\<exists>d1 d2. tp_send_rtp_packet ((packet_new 100 7 8 9)\<lparr>rk_payload := Some [1, 2]\<rparr>) (AF_INET 5 [1, 2, 3, 4]) (transport_new 1) =
      Some (True, tp_emit [Sent d1 (AF_INET 5 [1, 2, 3, 4])] (transport_new 1)) \<and>
    received_message d1 (AF_INET 6 [1, 2, 3, 4]) (transport_new 2) =
      Some (tp_emit [Rtp_in ((packet_new 100 7 8 9)\<lparr>rk_payload := Some [1, 2]\<rparr>)] (transport_new 2)) \<and>
    sdes_serialize sdes_new = Some (True, d2) \<and>
    received_message (d2 @ [0]) (AF_INET 6 [1, 2, 3, 4]) (transport_new 2) = Some (transport_new 2)"
proof -
  let ?p = "(packet_new 100 7 8 9)\<lparr>rk_payload := Some [1, 2]\<rparr>"
  let ?sr = "rtcp_sr_init rtcp_sr_create" and ?rr = "rtcp_rr_init rtcp_rr_create" and ?bye = "rtcp_bye_init rtcp_bye_create"
  let ?fb = "(rtcp_fb_init RTCP_RTPFB 1)\<lparr>fb_fci := Some []\<rparr>"
  have t: "\<not> tp_dtls (transport_new n)" "tp_protect (transport_new n) = Some" "tp_protect_rtcp (transport_new n) = Some"
     "tp_unprotect (transport_new n) = Some" "tp_unprotect_rtcp (transport_new n) = Some" for n
    by (simp_all add: transport_new_def)
  have "rtp_packet_ok ?p"
    by (simp add: rtp_packet_ok_def rtp_header_ok_def packet_new_def rtp_packet_init_def rtp_packet_create_def
        rtp_header_init_def rtp_header_create_def)
  moreover have "rr_ok ?rr"
    by (simp add: rr_ok_def rtcp_rr_init_def rtcp_rr_create_def rtcp_header_ok_def rtcp_header_zero_def reports_ok_def
        ext_ok_def ext_len_def rtcp_rr_size_def rtcp_ext_size_def)
  moreover have "rtcp_fb_ok ?fb"
    by (simp add: rtcp_fb_ok_def rtcp_fb_init_def rtcp_fb_create_def rtcp_header_ok_def)
  moreover have "sdes_ok sdes_new" "sdes_entries sdes_new = []" "bye_ok ?bye" "bye_message ?bye = None"
    by (simp_all add: sdes_ok_def sdes_new_def rtcp_sdes_init_def rtcp_sdes_create_def sdes_entries_def rtcp_header_ok_def
        rtcp_header_zero_def bye_ok_def bye_srcs_ok_def bye_srcs_def rtcp_bye_init_def rtcp_bye_create_def)
  ultimately have "rtp_packet_ok ?p" "sr_ok ?sr" "rr_ok ?rr" "rtcp_fb_ok ?fb" "sdes_ok sdes_new" "bye_ok ?bye" "bye_message ?bye = None"
    "sdes_entries sdes_new = []"
    using sr_init_ok by blast+
  from transport_demux [OF t(1-5) this(1-7), of "AF_INET 5 [1, 2, 3, 4]" 1 "AF_INET 6 [1, 2, 3, 4]" 2 "[0]"] this(8)
  show ?thesis
    by auto
qed

section \<open>Binding requests are answered\<close>

lemma received_stun:
  assumes "rd8 s 0 = Some b" "b < 2"
  shows "received_message s ep this = handle_stun_message s ep this"
proof -
  have "detect_message b = Proto_stun"
    using assms(2) by (auto simp: detect_message_def word_less_nat_alt word_le_nat_alt)
  then show ?thesis
    by (simp add: received_message_def assms(1))
qed

definition request_attributes :: "u32 \<Rightarrow> transport \<Rightarrow> stun_attribute list" where
  "request_attributes local_priority a =
     [stun_attribute_new at_username (tp_ice_ufrag_remote a @ [0x3A] @ tp_ice_ufrag_local a),
      stun_attribute_new at_goog_network_info (b16 (tp_local_ice_network_id a) @ b16 (tp_local_ice_network_cost a)),
      stun_attribute_new (if tp_ice_role a = Stun_ice_controlling then at_ice_controlling else at_ice_controlled)
        (b64 (tp_tie_breaker a)),
      stun_attribute_new at_use_candidate [], stun_attribute_new at_priority (b32 local_priority)]"

definition request :: "u32 \<Rightarrow> bytes \<Rightarrow> transport \<Rightarrow> stun_message" where
  "request local_priority rnd a =
     (stun_message_new binding_request)\<lparr>sm_transaction_id := take 12 rnd, sm_attributes := request_attributes local_priority a\<rparr>"

lemma length_b64 [simp]: "length (b64 v) = 8"
  by (simp add: b64_def)

lemma request_ok:
  assumes "12 \<le> length rnd" "length (tp_ice_ufrag_remote a) + length (tp_ice_ufrag_local a) \<le> 3000"
  shows "stun_message_ok (request prio rnd a)"
  using assms pad4_less [of "Suc (length (tp_ice_ufrag_remote a) + length (tp_ice_ufrag_local a))"]
  by (auto simp: stun_message_ok_def request_def stun_message_new_def request_attributes_def stun_attribute_new_def pad4_def)

lemma send_stun_request_eq:
  "tp_send_stun_request prio rnd ep a = do {
     (sreq, pwd) \<leftarrow> stun_message_serialize (tp_ice_pwd_remote a) (request prio rnd a);
     Some (tp_emit [Sent sreq ep] (a\<lparr>tp_ice_pwd_remote := pwd\<rparr>)) }"
  by (simp add: tp_send_stun_request_def request_def request_attributes_def make_transaction_id_def Let_def)

lemma response_ok:
  "length tid = 12 \<Longrightarrow> stun_message_ok (binding_success_response ep tid)"
  "length tid = 12 \<Longrightarrow> stun_message_ok (role_conflict_response tid)"
proof -
  have *: "length (stun_attribute_mapped_address_serialize x) \<le> 20" for x
    by (auto simp: stun_attribute_mapped_address_serialize_def)
  show "length tid = 12 \<Longrightarrow> stun_message_ok (binding_success_response ep tid)"
    using * [of "stun_attribute_xor_mapped_address_create ep tid"]
      pad4_less [of "length (stun_attribute_mapped_address_serialize (stun_attribute_xor_mapped_address_create ep tid))"]
    by (simp add: stun_message_ok_def binding_success_response_def stun_message_new_def stun_attribute_new_def)
  show "length tid = 12 \<Longrightarrow> stun_message_ok (role_conflict_response tid)"
    by (simp add: stun_message_ok_def role_conflict_response_def stun_message_new_def stun_attribute_new_def
        stun_attribute_error_code_serialize_def Let_def pad4_def)
qed

lemma request_tie_breaker:
  "get_attribute at_ice_controlling ((request prio rnd a)\<lparr>sm_attributes := sm_attributes (request prio rnd a) @
      [stun_attribute_new at_message_integrity mi, stun_attribute_new at_fingerprint fp]\<rparr>) =
   (if tp_ice_role a = Stun_ice_controlling then b64 (tp_tie_breaker a) else [])"
  by (simp add: get_attribute_def request_def request_attributes_def stun_attribute_new_def)

text \<open>The length a tie breaker has when it is read as an attribute: its third and fourth byte.\<close>

definition tie_length :: "u64 \<Rightarrow> u16" where
  "tie_length v = ucast (drop_bit 32 v)"

lemma rd16_b64: "rd16 (b64 v) 2 = Some (tie_length v)"
proof -
  have "rd16 (b64 v) 2 = Some (be16 (ucast (drop_bit 8 (ucast (drop_bit 32 v) :: u32))) (ucast (ucast (drop_bit 32 v) :: u32)))"
    by (simp add: b64_def b32_def rd16_def)
  moreover have "be16 (ucast (drop_bit 8 (ucast (drop_bit 32 v) :: u32))) (ucast (ucast (drop_bit 32 v) :: u32)) = tie_length v"
    by (rule bit_word_eqI) (auto simp: be16_def tie_length_def bit_simps)
  ultimately show ?thesis by simp
qed


lemma read_tie_breaker:
  "stun_attribute_deserialize stun_attribute_default (b64 v) =
   (if tie_length v \<le> 4
    then Some (4 + int (unat (tie_length v)) + int (pad4 (unat (tie_length v))),
               \<lparr>at_type = ucast (drop_bit 48 v), at_value = take (unat (tie_length v)) (drop 4 (b64 v))\<rparr>)
    else Some (-1, stun_attribute_default\<lparr>at_type := ucast (drop_bit 48 v)\<rparr>))"
proof -
  have ty: "rd16 (b64 v) 0 = Some (ucast (drop_bit 48 v))"
  proof -
    have "rd16 (b64 v) 0 = Some (be16 (ucast (drop_bit 24 (ucast (drop_bit 32 v) :: u32))) (ucast (drop_bit 16 (ucast (drop_bit 32 v) :: u32))))"
      by (simp add: b64_def b32_def rd16_def)
    moreover have "be16 (ucast (drop_bit 24 (ucast (drop_bit 32 v) :: u32))) (ucast (drop_bit 16 (ucast (drop_bit 32 v) :: u32))) =
        ucast (drop_bit 48 v)"
      by (rule bit_word_eqI) (auto simp: be16_def bit_simps)
    ultimately show ?thesis by simp
  qed
  define n where "n = unat (tie_length v)"
  have n: "tie_length v \<le> 4 \<longleftrightarrow> n \<le> 4"
    by (simp add: n_def word_le_nat_alt)
  have "n \<le> 4 \<Longrightarrow> n + 4 + pad4 n \<le> 8"
    unfolding pad4_def Let_def by presburger
  moreover have "8 < n + 4 + pad4 n" if "\<not> n \<le> 4"
    using that by simp
  ultimately have sz: "8 < n + 4 + pad4 n \<longleftrightarrow> \<not> n \<le> 4"
    by fastforce
  show ?thesis
    using sz by (simp add: stun_attribute_deserialize_def ty rd16_b64 Let_def n_def [symmetric] n rd_range_def
        stun_attribute_default_def)
qed

lemma conflict_of_request:
  fixes mi fp
  defines "msg \<equiv> \<lambda>prio rnd a. (request prio rnd a)\<lparr>sm_attributes := sm_attributes (request prio rnd a) @
      [stun_attribute_new at_message_integrity mi, stun_attribute_new at_fingerprint fp]\<rparr>"
  shows "conflicting_tie_breaker (msg prio rnd a) b = Some
    (if tp_ice_role b = Stun_ice_controlling \<and> tp_ice_role a = Stun_ice_controlling \<and> tie_length (tp_tie_breaker a) \<le> 4
     then Some (be64_prefix (take (unat (tie_length (tp_tie_breaker a))) (drop 4 (b64 (tp_tie_breaker a)))))
     else None)"
proof -
  have "b64 (tp_tie_breaker a) \<noteq> []"
    by (simp add: b64_def b32_def)
  moreover have "0 < 4 + uint (tie_length v) + int n" for v n
    using uint_ge_0 [of "tie_length v"] by linarith
  ultimately show ?thesis
    unfolding msg_def conflicting_tie_breaker_def request_tie_breaker
    by (auto simp: read_tie_breaker Let_def)
qed



text \<open>What the transport \<open>b\<close> does with a request of \<open>a\<close>, by the conflict it sees.\<close>

definition seen_tie_breaker :: "transport \<Rightarrow> transport \<Rightarrow> u64 option" where
  "seen_tie_breaker a b =
     (if tp_ice_role b = Stun_ice_controlling \<and> tp_ice_role a = Stun_ice_controlling \<and> tie_length (tp_tie_breaker a) \<le> 4
      then Some (be64_prefix (take (unat (tie_length (tp_tie_breaker a))) (drop 4 (b64 (tp_tie_breaker a)))))
      else None)"

definition answer :: "sockaddr \<Rightarrow> bytes \<Rightarrow> u64 option \<Rightarrow> transport \<Rightarrow> transport cxx" where
  "answer epa tid conflict b =
     (case conflict of
        Some v \<Rightarrow>
          if tp_tie_breaker b \<ge> v then do {
            (s, pwd) \<leftarrow> stun_message_serialize (tp_ice_pwd_local b) (role_conflict_response tid);
            Some (tp_emit [Stun_completed epa, Sent s epa] (b\<lparr>tp_ice_pwd_local := pwd\<rparr>)) }
          else Some ((tp_emit [Stun_completed epa] b)\<lparr>tp_ice_role := Stun_ice_controlled\<rparr>)
      | None \<Rightarrow> do {
          (s, pwd) \<leftarrow> stun_message_serialize (tp_ice_pwd_local b) (binding_success_response epa tid);
          Some (tp_emit [Stun_completed epa, Sent s epa] (b\<lparr>tp_ice_pwd_local := pwd\<rparr>)) })"

lemma tp_emit_simps [simp]:
  "tp_ice_role (tp_emit es t) = tp_ice_role t" "tp_tie_breaker (tp_emit es t) = tp_tie_breaker t"
  "tp_ice_pwd_local (tp_emit es t) = tp_ice_pwd_local t"
  by (simp_all add: tp_emit_def)

lemma tp_emit_twice: "tp_emit fs ((tp_emit es t)\<lparr>tp_ice_pwd_local := p\<rparr>) = tp_emit (es @ fs) (t\<lparr>tp_ice_pwd_local := p\<rparr>)"
  by (simp add: tp_emit_def)

lemma received_request:
  assumes "12 \<le> length rnd" "length (tp_ice_ufrag_remote a) + length (tp_ice_ufrag_local a) \<le> 3000"
    "length (tp_ice_pwd_remote a) < 2 ^ 28"
  obtains req pa where "tp_send_stun_request prio rnd epb a = Some (tp_emit [Sent req epb] (a\<lparr>tp_ice_pwd_remote := pa\<rparr>))"
    "\<forall>epa b. received_message req epa b = answer epa (take 12 rnd) (seen_tie_breaker a b) b"
proof -
  let ?m = "request prio rnd a"
  obtain s mi fp pa where s: "stun_message_serialize (tp_ice_pwd_remote a) ?m = Some (s, pa)"
      "rd8 s 0 = Some (ucast (drop_bit 8 (sm_type ?m)))"
      "stun_message_deserialize (stun_message_new 0) s 0 = Some (True, ?m\<lparr>sm_attributes := sm_attributes ?m @
         [stun_attribute_new at_message_integrity mi, stun_attribute_new at_fingerprint (b32 fp)]\<rparr>, fp)"
    using stun_signed_wire [OF request_ok [OF assms(1,2)] assms(3), of prio "stun_message_new 0" 0] by blast
  have t: "sm_type ?m = binding_request" "sm_transaction_id ?m = take 12 rnd"
    by (simp_all add: request_def stun_message_new_def)
  show thesis
  proof (rule that)
    show "tp_send_stun_request prio rnd epb a = Some (tp_emit [Sent s epb] (a\<lparr>tp_ice_pwd_remote := pa\<rparr>))"
      by (simp add: send_stun_request_eq s(1))
    have "received_message s epa b = handle_stun_message s epa b" for epa b
      using s(2) t by (intro received_stun) auto
    then show "\<forall>epa b. received_message s epa b = answer epa (take 12 rnd) (seen_tie_breaker a b) b"
      using s(3) t by (simp add: handle_stun_message_def Let_def conflict_of_request answer_def seen_tie_breaker_def tp_emit_twice)
  qed
qed

lemma received_response:
  assumes "length tid = 12" "length password < 2 ^ 28"
  shows "\<exists>s pw' msg fp. stun_message_serialize password (binding_success_response ep tid) = Some (s, pw') \<and>
    stun_message_deserialize (stun_message_new 0) s 0 = Some (True, msg, fp) \<and> sm_transaction_id msg = tid \<and>
    get_attribute at_xor_mapped_address msg =
      stun_attribute_mapped_address_serialize (stun_attribute_xor_mapped_address_create ep tid) \<and>
    (\<forall>ep' a. received_message s ep' a = Some (handle_stun_completed ep' a))"
proof -
  let ?m = "binding_success_response ep tid"
  obtain s mi fp pw' where s: "stun_message_serialize password ?m = Some (s, pw')" "rd8 s 0 = Some (ucast (drop_bit 8 (sm_type ?m)))"
      "stun_message_deserialize (stun_message_new 0) s 0 = Some (True, ?m\<lparr>sm_attributes := sm_attributes ?m @
         [stun_attribute_new at_message_integrity mi, stun_attribute_new at_fingerprint (b32 fp)]\<rparr>, fp)"
    using stun_signed_wire [OF response_ok(1) [OF assms(1)] assms(2), of ep "stun_message_new 0" 0] by blast
  have t: "sm_type ?m = binding_response" "sm_transaction_id ?m = tid"
    by (simp_all add: binding_success_response_def stun_message_new_def)
  have "received_message s ep a = handle_stun_message s ep a" for ep a
    using s(2) t by (intro received_stun) auto
  moreover have "handle_stun_message s ep a = Some (handle_stun_completed ep a)" for ep a
    using s(3) t by (simp add: handle_stun_message_def)
  ultimately show ?thesis
    using s t by (auto simp: get_attribute_def binding_success_response_def stun_attribute_new_def)
qed

text \<open>
  A binding request without a role conflict is answered with the address it came from, under its own
  transaction id, and both sides report the candidate pair as completed.
\<close>

text \<open>
  C13: a binding request between ends of which at least one is not controlling is answered with
  a success response that parses, carries the request's transaction id and the address the
  request came from, its port and its bytes combined by exclusive or with the magic cookie
  0x2112A442 (and the transaction id for IPv6); the receiver of the request reports the pair as
  completed, and the requester handles the response as a completed check. Assumed: user names of
  at most 3000 bytes together, passwords shorter than 2^28 bytes, at least 12 random bytes for
  the transaction id; the address form is stated for addresses of 4 and 16 bytes.
\<close>

theorem stun_request_answered:
  assumes "12 \<le> length rnd" "length (tp_ice_ufrag_remote a) + length (tp_ice_ufrag_local a) \<le> 3000"
    and "length (tp_ice_pwd_remote a) < 2 ^ 28" "length (tp_ice_pwd_local b) < 2 ^ 28"
    and "tp_ice_role a = Stun_ice_controlled \<or> tp_ice_role b = Stun_ice_controlled"
  shows "\<exists>req pa rsp pb msg fp.
    tp_send_stun_request prio rnd epb a = Some (tp_emit [Sent req epb] (a\<lparr>tp_ice_pwd_remote := pa\<rparr>)) \<and>
    received_message req epa b = Some (tp_emit [Stun_completed epa, Sent rsp epa] (b\<lparr>tp_ice_pwd_local := pb\<rparr>)) \<and>
    stun_message_deserialize (stun_message_new 0) rsp 0 = Some (True, msg, fp) \<and>
    sm_transaction_id msg = take 12 rnd \<and>
    (case epa of
       AF_INET port ip \<Rightarrow> length ip = 4 \<longrightarrow> get_attribute at_xor_mapped_address msg =
         [0, 1] @ b16 (port XOR 0x2112) @ map2 (XOR) ip [0x21, 0x12, 0xA4, 0x42]
     | AF_INET6 port ip \<Rightarrow> length ip = 16 \<longrightarrow> get_attribute at_xor_mapped_address msg =
         [0, 2] @ b16 (port XOR 0x2112) @ map2 (XOR) ip ([0x21, 0x12, 0xA4, 0x42] @ take 12 rnd)
     | AF_OTHER \<Rightarrow> True) \<and>
    (\<forall>a'. received_message rsp epb a' = Some (handle_stun_completed epb a'))"
proof -
  have "length (take 12 rnd) = 12"
    using assms(1) by simp
  then obtain rsp pb msg fp where r: "stun_message_serialize (tp_ice_pwd_local b) (binding_success_response epa (take 12 rnd)) = Some (rsp, pb)"
    "stun_message_deserialize (stun_message_new 0) rsp 0 = Some (True, msg, fp)" "sm_transaction_id msg = take 12 rnd"
    "get_attribute at_xor_mapped_address msg =
      stun_attribute_mapped_address_serialize (stun_attribute_xor_mapped_address_create epa (take 12 rnd))"
    "\<forall>a'. received_message rsp epb a' = Some (handle_stun_completed epb a')"
    using received_response [OF _ assms(4), of "take 12 rnd" epa] by blast
  obtain req pa where q: "tp_send_stun_request prio rnd epb a = Some (tp_emit [Sent req epb] (a\<lparr>tp_ice_pwd_remote := pa\<rparr>))"
      "\<forall>epa b. received_message req epa b = answer epa (take 12 rnd) (seen_tie_breaker a b) b"
    by (rule received_request [OF assms(1-3), of prio epb])
  have "seen_tie_breaker a b = None"
    using assms(5) by (auto simp: seen_tie_breaker_def)
  then have "received_message req epa b = Some (tp_emit [Stun_completed epa, Sent rsp epa] (b\<lparr>tp_ice_pwd_local := pb\<rparr>))"
    using r(1) by (simp add: q(2) answer_def)
  moreover have "case epa of
       AF_INET port ip \<Rightarrow> length ip = 4 \<longrightarrow> get_attribute at_xor_mapped_address msg =
         [0, 1] @ b16 (port XOR 0x2112) @ map2 (XOR) ip [0x21, 0x12, 0xA4, 0x42]
     | AF_INET6 port ip \<Rightarrow> length ip = 16 \<longrightarrow> get_attribute at_xor_mapped_address msg =
         [0, 2] @ b16 (port XOR 0x2112) @ map2 (XOR) ip ([0x21, 0x12, 0xA4, 0x42] @ take 12 rnd)
     | AF_OTHER \<Rightarrow> True"
    using assms(1) by (auto simp: r(4) xor_mapped_address_bytes split: sockaddr.split)
  ultimately show ?thesis
    using q(1) r(2,3,5) by blast
qed

theorem stun_request_answered_witness:
  "let a = (transport_new 7)\<lparr>tp_ice_role := Stun_ice_controlled, tp_ice_ufrag_remote := [98], tp_ice_ufrag_local := [97],
       tp_ice_pwd_remote := [1, 2]\<rparr>; b = (transport_new 8)\<lparr>tp_ice_pwd_local := [1, 2]\<rparr>; epa = AF_INET 5 [1, 2, 3, 4]
   in \<exists>req pa rsp pb. tp_send_stun_request 1 (replicate 12 0) (AF_INET 6 [1, 2, 3, 5]) a =
        Some (tp_emit [Sent req (AF_INET 6 [1, 2, 3, 5])] (a\<lparr>tp_ice_pwd_remote := pa\<rparr>)) \<and>
      received_message req epa b = Some (tp_emit [Stun_completed epa, Sent rsp epa] (b\<lparr>tp_ice_pwd_local := pb\<rparr>))"
proof -
  let ?a = "(transport_new 7)\<lparr>tp_ice_role := Stun_ice_controlled, tp_ice_ufrag_remote := [98], tp_ice_ufrag_local := [97],
       tp_ice_pwd_remote := [1, 2]\<rparr>"
  let ?b = "(transport_new 8)\<lparr>tp_ice_pwd_local := [1, 2]\<rparr>"
  show ?thesis
    using stun_request_answered [of "replicate 12 0" ?a ?b 1 "AF_INET 6 [1, 2, 3, 5]" "AF_INET 5 [1, 2, 3, 4]"]
    unfolding Let_def by (auto simp: transport_new_def)
qed

text \<open>
  When both sides think they are controlling, the conflict is seen only for a tie breaker whose third and
  fourth byte give a length of at most 4, and the error response that should make the requester
  change its role is ignored.
\<close>



end
