(* ===== verification/Media_Stream.thy ===== *)
theory Media_Stream
  imports Transport Rtp_Receiver Rtp_Sender
begin

text \<open>
  The feedback between the two ends of a media stream: the parts of \<open>rtpx/media_stream.cpp\<close> that build
  loss reports, requests for a key frame and goodbyes, answer those that arrive and keep the
  remote endpoints, and the lookup of streams of \<open>rtpx/rtp_session.cpp\<close>. What a stream hands to its
  transports and to the application is appended to \<open>ms_out\<close>. A sender or receiver is stored with the
  format it was made for. The initial sequence number a new sender draws is an argument.
\<close>

unbundle bit_operations_syntax

section \<open>State\<close>

datatype codec_type =
    Codec_unknown | Codec_pcma | Codec_pcmu | Codec_g722 | Codec_opus | Codec_mpeg4_generic | Codec_mp4a_latm
  | Codec_telephone_event | Codec_cn | Codec_mp2p | Codec_mp2s | Codec_h264 | Codec_h265 | Codec_vp8 | Codec_vp9
  | Codec_av1 | Codec_ps | Codec_rtx | Codec_red | Codec_ulpfec

text \<open>Of a format the payload type, the codec, the parameter \<open>apt\<close> and the set of feedback names are used.\<close>

record sdp_format =
  fm_pt :: byte
  fm_codec :: codec_type
  fm_apt :: byte
  fm_rtcp_fb :: "string list"

datatype ms_event =
    Rtcp_out bytes sockaddr
  | Rtp_out rtp_packet sockaddr
  | Send_require_keyframe
  | Receive_require_keyframe

record media_stream =
  ms_local_rtp_ssrc :: u32
  ms_local_rtx_ssrc :: u32
  ms_remote_rtp_ssrc :: u32
  ms_remote_rtx_ssrc :: u32
  ms_local_formats :: "(byte, sdp_format) std_map"
  ms_remote_formats :: "(byte, sdp_format) std_map"
  ms_senders :: "(byte, sdp_format \<times> sender) std_map"
  ms_receivers :: "(byte, sdp_format \<times> receiver) std_map"
  ms_rtp_endpoint_priority :: int
  ms_rtp_endpoint :: sockaddr
  ms_rtcp_endpoint_priority :: int
  ms_rtcp_endpoint :: sockaddr
  ms_use_rtp_endpoint :: bool
  ms_use_rtcp_endpoint :: bool
  ms_is_rtcp_mux :: bool
  ms_send_keyframe_handler :: bool
  ms_receive_keyframe_handler :: bool
  ms_out :: "ms_event list"

definition ms_emit :: "ms_event \<Rightarrow> media_stream \<Rightarrow> media_stream" where
  "ms_emit e this = this\<lparr>ms_out := ms_out this @ [e]\<rparr>"

section \<open>Endpoints\<close>

definition CANDIDATE_TYPE_HOST :: u32 where "CANDIDATE_TYPE_HOST = 126"

definition make_priority :: "u32 \<Rightarrow> u32 \<Rightarrow> u32 \<Rightarrow> u32" where
  "make_priority type local component = push_bit 24 1 * type + push_bit 8 1 * local + (256 - component)"

definition set_remote_rtp_endpoint :: "sockaddr \<Rightarrow> int \<Rightarrow> media_stream \<Rightarrow> media_stream" where
  "set_remote_rtp_endpoint endpoint priority this =
     (if priority \<le> ms_rtp_endpoint_priority this then this
      else this\<lparr>ms_rtp_endpoint_priority := priority, ms_rtp_endpoint := endpoint\<rparr>)"

definition set_remote_rtcp_endpoint :: "sockaddr \<Rightarrow> int \<Rightarrow> media_stream \<Rightarrow> media_stream" where
  "set_remote_rtcp_endpoint endpoint priority this =
     (if priority \<le> ms_rtcp_endpoint_priority this then this
      else this\<lparr>ms_rtcp_endpoint_priority := priority, ms_rtcp_endpoint := endpoint\<rparr>)"

definition remote_rtp_endpoint :: "media_stream \<Rightarrow> sockaddr option" where
  "remote_rtp_endpoint this = (if ms_rtp_endpoint_priority this < 0 then None else Some (ms_rtp_endpoint this))"

definition remote_rtcp_endpoint :: "media_stream \<Rightarrow> sockaddr option" where
  "remote_rtcp_endpoint this = (if ms_rtcp_endpoint_priority this < 0 then None else Some (ms_rtcp_endpoint this))"

definition ms_send_rtp_packet :: "rtp_packet \<Rightarrow> media_stream \<Rightarrow> media_stream" where
  "ms_send_rtp_packet packet this =
     (case remote_rtp_endpoint this of None \<Rightarrow> this | Some ep \<Rightarrow> ms_emit (Rtp_out packet ep) this)"

definition ms_send_rtcp_packet :: "bytes \<Rightarrow> media_stream \<Rightarrow> media_stream" where
  "ms_send_rtcp_packet rtcp_data this =
     (case remote_rtcp_endpoint this of None \<Rightarrow> this | Some ep \<Rightarrow> ms_emit (Rtcp_out rtcp_data ep) this)"

definition receive_stun_completed :: "sockaddr \<Rightarrow> media_stream \<Rightarrow> media_stream" where
  "receive_stun_completed endpoint this =
     (let this = set_remote_rtp_endpoint endpoint (uint (make_priority CANDIDATE_TYPE_HOST 0xFFFF 1)) this
      in if ms_is_rtcp_mux this
         then set_remote_rtcp_endpoint endpoint (uint (make_priority CANDIDATE_TYPE_HOST 0xFFFF 2)) this
         else this)"

definition take_rtcp_endpoint :: "sockaddr \<Rightarrow> media_stream \<Rightarrow> media_stream" where
  "take_rtcp_endpoint endpoint this =
     (if ms_use_rtcp_endpoint this
      then (set_remote_rtcp_endpoint endpoint (uint (make_priority CANDIDATE_TYPE_HOST 0xFFFF 2)) this)
             \<lparr>ms_use_rtcp_endpoint := False\<rparr>
      else this)"

section \<open>Senders and receivers\<close>

definition has_sender :: "codec_type \<Rightarrow> bool" where
  "has_sender codec \<longleftrightarrow> codec \<in> {Codec_h264, Codec_h265, Codec_vp8, Codec_ps, Codec_mpeg4_generic, Codec_mp4a_latm,
     Codec_opus, Codec_pcma, Codec_pcmu, Codec_g722, Codec_rtx}"

text \<open>The result is the key of the sender in the map, \<open>None\<close> for a null pointer.\<close>

definition create_sender :: "sdp_format \<Rightarrow> u16 \<Rightarrow> media_stream \<Rightarrow> byte option \<times> media_stream" where
  "create_sender fmt rnd this =
     (let ssrc = (if fm_codec fmt = Codec_rtx then ms_local_rtx_ssrc this else ms_local_rtp_ssrc this) in
      if has_sender (fm_codec fmt) then
        let sender = sender_new (fm_pt fmt) ssrc (fm_pt fmt) rnd in
        if map_find (ms_senders this) (sd_pt sender) \<noteq> None then (None, this)
        else (Some (sd_pt sender), this\<lparr>ms_senders := map_insert (sd_pt sender) (fmt, sender) (ms_senders this)\<rparr>)
      else (None, this))"

definition get_default_sender :: "u16 \<Rightarrow> media_stream \<Rightarrow> byte option \<times> media_stream" where
  "get_default_sender rnd this =
     (case List.find (\<lambda>(_, fmt, _). fm_codec fmt \<noteq> Codec_rtx) (ms_senders this) of
        Some (pt, _) \<Rightarrow> (Some pt, this)
      | None \<Rightarrow>
          (case List.find (\<lambda>(_, fmt). fm_codec fmt \<noteq> Codec_rtx) (ms_local_formats this) of
             Some (_, fmt) \<Rightarrow> create_sender fmt rnd this
           | None \<Rightarrow> (None, this)))"

definition get_sender :: "byte \<Rightarrow> u16 \<Rightarrow> media_stream \<Rightarrow> byte option \<times> media_stream" where
  "get_sender pt rnd this =
     (if map_find (ms_senders this) pt \<noteq> None then (Some pt, this)
      else case map_find (ms_local_formats this) pt of
             None \<Rightarrow> (None, this)
           | Some fmt \<Rightarrow> create_sender fmt rnd this)"

definition local_rtx_format :: "byte \<Rightarrow> media_stream \<Rightarrow> (byte \<times> u32) option" where
  "local_rtx_format pt this =
     (case List.find (\<lambda>(_, fmt). fm_codec fmt = Codec_rtx \<and> fm_apt fmt = pt) (ms_local_formats this) of
        None \<Rightarrow> None
      | Some (rtx_pt, _) \<Rightarrow>
          Some (rtx_pt, if ms_local_rtx_ssrc this > 0 then ms_local_rtx_ssrc this else ms_local_rtp_ssrc this))"

definition update_sender :: "byte \<Rightarrow> (sender \<Rightarrow> sender) \<Rightarrow> media_stream \<Rightarrow> media_stream" where
  "update_sender pt f this = this\<lparr>ms_senders := map (\<lambda>(k, fmt, s). (k, fmt, if k = pt then f s else s)) (ms_senders this)\<rparr>"

definition the_sender :: "byte \<Rightarrow> media_stream \<Rightarrow> sender" where
  "the_sender pt this = snd (the (map_find (ms_senders this) pt))"

text \<open>The receiver of a source is the first in the order of the map.\<close>

definition get_receiver_by_ssrc :: "u32 \<Rightarrow> media_stream \<Rightarrow> receiver option" where
  "get_receiver_by_ssrc ssrc this =
     map_option (snd \<circ> snd) (List.find (\<lambda>(_, _, r). rc_ssrc r = ssrc) (ms_receivers this))"

fun update_first :: "u32 \<Rightarrow> (receiver \<Rightarrow> receiver) \<Rightarrow> (byte, sdp_format \<times> receiver) std_map \<Rightarrow>
  (byte, sdp_format \<times> receiver) std_map" where
  "update_first ssrc f [] = []"
| "update_first ssrc f ((k, fmt, r) # rs) =
     (if rc_ssrc r = ssrc then (k, fmt, f r) # rs else (k, fmt, r) # update_first ssrc f rs)"

definition update_receiver :: "u32 \<Rightarrow> (receiver \<Rightarrow> receiver) \<Rightarrow> media_stream \<Rightarrow> media_stream" where
  "update_receiver ssrc f this = this\<lparr>ms_receivers := update_first ssrc f (ms_receivers this)\<rparr>"

section \<open>Sending feedback\<close>

definition send_fb :: "rtcp_fb \<Rightarrow> media_stream \<Rightarrow> media_stream cxx" where
  "send_fb fb this = do {
     (size, buffer) \<leftarrow> rtcp_fb_serialize fb (replicate 2048 0);
     Some (if size > 0 then ms_send_rtcp_packet (take (nat size) buffer) this else this) }"

definition send_rtcp_nack :: "u32 \<Rightarrow> u32 \<Rightarrow> u16 \<Rightarrow> u16 \<Rightarrow> media_stream \<Rightarrow> media_stream cxx" where
  "send_rtcp_nack ssrc_sender ssrc_media pid blp this = do {
     let fb = (rtcp_fb_init RTCP_RTPFB RTCP_RTPFB_FMT_NACK)\<lparr>fb_ssrc_sender := ssrc_sender, fb_ssrc_media := ssrc_media\<rparr>;
     (_, fb) \<leftarrow> rtcp_rtpfb_nack_set pid blp fb;
     this \<leftarrow> send_fb fb this;
     Some (update_receiver ssrc_media receiver_increase_nack this) }"

definition send_rtcp_keyframe_pli :: "u32 \<Rightarrow> u32 \<Rightarrow> media_stream \<Rightarrow> media_stream cxx" where
  "send_rtcp_keyframe_pli ssrc_sender ssrc_media this =
     (if ms_send_keyframe_handler this then Some (ms_emit Send_require_keyframe this)
      else
        let this = update_receiver ssrc_media receiver_increase_pli this;
            fb = (rtcp_fb_init RTCP_PSFB RTCP_PSFB_FMT_PLI)\<lparr>fb_ssrc_sender := ssrc_sender, fb_ssrc_media := ssrc_media\<rparr>
        in send_fb fb this)"

text \<open>The number of the request is that of the requests before, cut to a byte.\<close>

definition send_rtcp_keyframe_fir :: "u32 \<Rightarrow> u32 \<Rightarrow> media_stream \<Rightarrow> media_stream cxx" where
  "send_rtcp_keyframe_fir ssrc_sender ssrc_media this =
     (if ms_send_keyframe_handler this then Some (ms_emit Send_require_keyframe this)
      else do {
        let fb = (rtcp_fb_init RTCP_PSFB RTCP_PSFB_FMT_FIR)\<lparr>fb_ssrc_sender := ssrc_sender, fb_ssrc_media := ssrc_media\<rparr>;
        let nr = (case get_receiver_by_ssrc ssrc_media this of None \<Rightarrow> 0 | Some r \<Rightarrow> ucast (rc_fir_count r));
        let this = update_receiver ssrc_media receiver_increase_fir this;
        (_, fb) \<leftarrow> rtcp_fb_set_fci (b32 ssrc_media @ [nr, 0, 0, 0]) 8 fb;
        send_fb fb this })"

fun keyframe_loop :: "(byte, sdp_format) std_map \<Rightarrow> u32 \<Rightarrow> u32 \<Rightarrow> media_stream \<Rightarrow> media_stream cxx" where
  "keyframe_loop [] ssrc ssrc_media this = Some this"
| "keyframe_loop ((_, fmt) # fmts) ssrc ssrc_media this =
     (if fm_codec fmt = Codec_rtx then keyframe_loop fmts ssrc ssrc_media this
      else do {
        this \<leftarrow> (if ''nack pli'' \<in> set (fm_rtcp_fb fmt) then send_rtcp_keyframe_pli ssrc ssrc_media this
                 else if ''ccm fir'' \<in> set (fm_rtcp_fb fmt) then send_rtcp_keyframe_fir ssrc ssrc_media this
                 else send_rtcp_keyframe_pli ssrc ssrc_media this);
        keyframe_loop fmts ssrc ssrc_media this })"

definition send_rtcp_keyframe :: "u32 \<Rightarrow> media_stream \<Rightarrow> media_stream cxx" where
  "send_rtcp_keyframe ssrc_media this =
     keyframe_loop (ms_remote_formats this) (ms_local_rtp_ssrc this) ssrc_media this"

text \<open>Here the tests are the other way round: the names must be missing.\<close>

definition send_rtcp_keyframe_pt :: "u32 \<Rightarrow> byte \<Rightarrow> media_stream \<Rightarrow> media_stream cxx" where
  "send_rtcp_keyframe_pt ssrc_media pt this =
     (let ssrc = ms_local_rtp_ssrc this in
      case map_find (ms_remote_formats this) pt of
        None \<Rightarrow> Some this
      | Some fmt \<Rightarrow>
          if ''nack pli'' \<notin> set (fm_rtcp_fb fmt) then send_rtcp_keyframe_pli ssrc ssrc_media this
          else if ''ccm fir'' \<notin> set (fm_rtcp_fb fmt) then send_rtcp_keyframe_fir ssrc ssrc_media this
          else send_rtcp_keyframe_pli ssrc ssrc_media this)"

fun bye_add_sources :: "u32 list \<Rightarrow> rtcp_bye \<Rightarrow> rtcp_bye cxx" where
  "bye_add_sources [] pkt = Some pkt"
| "bye_add_sources (ssrc # ssrcs) pkt = do { (_, pkt) \<leftarrow> rtcp_bye_add_source ssrc pkt; bye_add_sources ssrcs pkt }"

text \<open>The packet is created and not initialised.\<close>

definition send_rtcp_bye :: "bytes \<Rightarrow> media_stream \<Rightarrow> media_stream cxx" where
  "send_rtcp_bye reason this = do {
     let pkt = rtcp_bye_create\<lparr>bye_message := Some reason\<rparr>;
     pkt \<leftarrow> bye_add_sources (map (\<lambda>(_, _, s). sd_ssrc s) (ms_senders this)) pkt;
     (size, buffer) \<leftarrow> rtcp_bye_serialize pkt (replicate 2048 0);
     Some (if size > 0 then ms_send_rtcp_packet (take (nat size) buffer) this else this) }"

text \<open>The handlers a stream binds to the events of a receiver it has created for the payload type \<open>pt\<close>.\<close>

definition receiver_event :: "byte \<Rightarrow> rc_event \<Rightarrow> media_stream \<Rightarrow> media_stream cxx" where
  "receiver_event pt e this =
     (case e of
        On_nack ssrc pid bld \<Rightarrow> send_rtcp_nack (ms_local_rtp_ssrc this) ssrc pid bld this
      | On_keyframe ssrc \<Rightarrow> send_rtcp_keyframe_pt ssrc pt this
      | _ \<Rightarrow> Some this)"

section \<open>Answering feedback\<close>

text \<open>
  \<open>rnd\<close> and \<open>rnd'\<close> are the sequence numbers senders created on the way start with. What the
  retransmission sender hands to its handler goes to \<open>send_rtp_packet\<close>, to which \<open>create_sender\<close> binds it.
\<close>

definition ms_on_rtcp_fb_nack :: "u16 \<Rightarrow> u16 \<Rightarrow> u16 \<Rightarrow> u16 \<Rightarrow> media_stream \<Rightarrow> media_stream" where
  "ms_on_rtcp_fb_nack rnd rnd' pid bld this =
     (case get_default_sender rnd this of
        (None, this) \<Rightarrow> this
      | (Some pt, this) \<Rightarrow>
          let (rtx, this) = (case local_rtx_format pt this of
                               None \<Rightarrow> (None, this)
                             | Some (rtx_pt, _) \<Rightarrow> get_sender rtx_pt rnd' this)
          in case on_rtcp_fb_nack pid bld (the_sender pt this) (map_option (\<lambda>k. the_sender k this) rtx) of
               (s, rtx_sender, pkts) \<Rightarrow>
                 let (this, pkts) = (case rtx of
                       None \<Rightarrow> (update_sender pt (\<lambda>_. s) this, pkts)
                     | Some k \<Rightarrow>
                         (update_sender k (\<lambda>_. the rtx_sender) (update_sender pt (\<lambda>_. s) this),
                          drop (length (sd_out (the_sender k this))) (sd_out (the rtx_sender))))
                 in fold ms_send_rtp_packet pkts this)"

definition on_rtcp_fb_pli :: "u16 \<Rightarrow> media_stream \<Rightarrow> media_stream" where
  "on_rtcp_fb_pli rnd this =
     (let this = (case get_default_sender rnd this of
                    (None, this) \<Rightarrow> this
                  | (Some pt, this) \<Rightarrow> update_sender pt sender_increase_pli this)
      in if ms_receive_keyframe_handler this then ms_emit Receive_require_keyframe this else this)"

definition on_rtcp_fb_fir :: "u16 \<Rightarrow> media_stream \<Rightarrow> media_stream" where
  "on_rtcp_fb_fir rnd this =
     (let this = (case get_default_sender rnd this of
                    (None, this) \<Rightarrow> this
                  | (Some pt, this) \<Rightarrow> update_sender pt sender_increase_fir this)
      in if ms_receive_keyframe_handler this then ms_emit Receive_require_keyframe this else this)"

fun fir_loop :: "u16 \<Rightarrow> rtcp_fb \<Rightarrow> nat \<Rightarrow> nat \<Rightarrow> media_stream \<Rightarrow> media_stream cxx" where
  "fir_loop rnd fb i 0 this = Some this"
| "fir_loop rnd fb i (Suc n) this = do {
     _ \<leftarrow> rtcp_psfb_fir_get_item fb (int i);
     fir_loop rnd fb (i + 1) n (on_rtcp_fb_fir rnd this) }"

definition receive_rtcp_feedback :: "u16 \<Rightarrow> u16 \<Rightarrow> rtcp_fb \<Rightarrow> media_stream \<Rightarrow> media_stream cxx" where
  "receive_rtcp_feedback rnd rnd' fb this =
     (let pt = th_pt (fb_header fb); subtype = th_count (fb_header fb) in
      if pt = RTCP_RTPFB then
        if subtype = RTCP_RTPFB_FMT_NACK then do {
          got \<leftarrow> rtcp_rtpfb_nack_get fb;
          let (pid, bld) = (case got of None \<Rightarrow> (0, 0) | Some p \<Rightarrow> p);
          Some (ms_on_rtcp_fb_nack rnd rnd' pid bld this) }
        else Some this
      else if pt = RTCP_PSFB then
        if subtype = RTCP_PSFB_FMT_PLI then Some (on_rtcp_fb_pli rnd this)
        else if subtype = RTCP_PSFB_FMT_FIR then
          fir_loop rnd fb 0 (nat (rtcp_psfb_fir_item_count fb)) this
        else Some this
      else Some this)"

definition receive_rtcp_rr :: "rtcp_report \<Rightarrow> sockaddr \<Rightarrow> media_stream \<Rightarrow> media_stream" where
  "receive_rtcp_rr report endpoint this =
     (let this = take_rtcp_endpoint endpoint this
      in this\<lparr>ms_senders := map (\<lambda>(k, fmt, s). (k, fmt, if fm_codec fmt = Codec_rtx then s
                else update_remote_report (word_of_int (rp_lost report)) (rp_fraction report) s)) (ms_senders this)\<rparr>)"

section \<open>The session\<close>

fun update_stream :: "(media_stream \<Rightarrow> bool) \<Rightarrow> (media_stream \<Rightarrow> media_stream cxx) \<Rightarrow> media_stream list \<Rightarrow> media_stream list cxx" where
  "update_stream P f [] = Some []"
| "update_stream P f (m # ms) =
     (if P m then do { m \<leftarrow> f m; Some (m # ms) } else do { ms \<leftarrow> update_stream P f ms; Some (m # ms) })"

definition has_local_ssrc :: "u32 \<Rightarrow> media_stream \<Rightarrow> bool" where
  "has_local_ssrc ssrc m \<longleftrightarrow> ms_local_rtp_ssrc m = ssrc \<or> ms_local_rtx_ssrc m = ssrc"

definition handle_rtcp_fb :: "u16 \<Rightarrow> u16 \<Rightarrow> rtcp_fb \<Rightarrow> media_stream list \<Rightarrow> media_stream list cxx" where
  "handle_rtcp_fb rnd rnd' fb = update_stream (has_local_ssrc (fb_ssrc_media fb)) (receive_rtcp_feedback rnd rnd' fb)"

fun handle_rtcp_rr_loop :: "rtcp_report list \<Rightarrow> sockaddr \<Rightarrow> media_stream list \<Rightarrow> media_stream list cxx" where
  "handle_rtcp_rr_loop [] endpoint ms = Some ms"
| "handle_rtcp_rr_loop (report # reports) endpoint ms = do {
     ms \<leftarrow> update_stream (has_local_ssrc (rp_ssrc report)) (\<lambda>m. Some (receive_rtcp_rr report endpoint m)) ms;
     handle_rtcp_rr_loop reports endpoint ms }"

definition handle_rtcp_rr :: "rtcp_rr \<Rightarrow> sockaddr \<Rightarrow> media_stream list \<Rightarrow> media_stream list cxx" where
  "handle_rtcp_rr rr endpoint ms =
     (let n = unat (th_count (rr_header rr)) in
      if n = 0 then Some ms
      else do {
        reports \<leftarrow> rr_reports rr;
        if length reports < n then None else handle_rtcp_rr_loop (take n reports) endpoint ms })"

definition require_keyframe_stream :: "media_stream \<Rightarrow> media_stream cxx" where
  "require_keyframe_stream m = send_rtcp_keyframe (ms_remote_rtp_ssrc m) m"

section \<open>Feedback on the wire\<close>

lemma remote_rtcp_endpoint_simps [simp]:
  "remote_rtcp_endpoint (update_receiver m f this) = remote_rtcp_endpoint this"
  "remote_rtcp_endpoint (ms_emit e this) = remote_rtcp_endpoint this"
  by (simp_all add: remote_rtcp_endpoint_def update_receiver_def ms_emit_def)

text \<open>The packet a peer reads: an absent payload arrives as an empty one.\<close>

definition seen_fb :: "rtcp_fb \<Rightarrow> rtcp_fb" where
  "seen_fb fb = fb\<lparr>fb_fci := Some (fb_fci_data fb)\<rparr>"

lemma seen_fb_bytes: "rtcp_fb_bytes (seen_fb fb) = rtcp_fb_bytes fb"
  by (simp add: seen_fb_def rtcp_fb_bytes_def fb_fci_data_def)

lemma send_fb_wire:
  assumes "rtcp_fb_ok (seen_fb fb)" "length (fb_fci_data fb) \<le> 2036" "remote_rtcp_endpoint this = Some ep"
  shows "send_fb fb this = Some (ms_emit (Rtcp_out (rtcp_fb_bytes fb) ep) this)"
proof -
  have h: "rtcp_header_ok (fb_header fb)" "fb_fci_size fb = word_of_nat (length (fb_fci_data fb))"
    using assms(1) by (simp_all add: rtcp_fb_ok_def seen_fb_def)
  then have n: "unat (fb_fci_size fb) = length (fb_fci_data fb)"
    using assms(2) by (simp add: unat_of_nat_small)
  then have "rtcp_fb_size fb = length (rtcp_fb_bytes fb)" "rtcp_fb_size fb \<le> 2048" "0 < length (rtcp_fb_bytes fb)"
    using assms(2) by (simp_all add: rtcp_fb_size_def rtcp_fb_bytes_def rtcp_header_bytes_def)
  then show ?thesis
    using rtcp_fb_serialize_bytes [OF h(1) n, of "replicate 2048 0"] assms(3)
    by (auto simp: send_fb_def ms_send_rtcp_packet_def)
qed

lemma received_fb:
  assumes "tp_unprotect_rtcp t = Some" "rtcp_fb_ok (seen_fb fb)"
  shows "received_message (rtcp_fb_bytes fb) ep t = Some (tp_emit [Rtcp_fb_in (seen_fb fb)] t)"
  using rtcp_fb_wire [OF assms(2)] assms received_rtcp [of "fb_header fb" t "b32 (fb_ssrc_sender fb) @ b32 (fb_ssrc_media fb) @ fb_fci_data fb"]
  by (auto simp: rtcp_fb_ok_def rtcp_fb_bytes_def handle_rtcp_message_def rtcp_types seen_fb_def fb_fci_data_def)

definition nack_fb :: "u32 \<Rightarrow> u32 \<Rightarrow> u16 \<Rightarrow> u16 \<Rightarrow> rtcp_fb" where
  "nack_fb ssrc_sender ssrc_media pid blp =
     \<lparr>fb_header = \<lparr>th_version = 2, th_p = 0, th_count = 1, th_pt = RTCP_RTPFB, th_length = 3\<rparr>,
      fb_ssrc_sender = ssrc_sender, fb_ssrc_media = ssrc_media, fb_fci = Some (b16 pid @ b16 blp), fb_fci_size = 4\<rparr>"

definition pli_fb :: "u32 \<Rightarrow> u32 \<Rightarrow> rtcp_fb" where
  "pli_fb ssrc_sender ssrc_media =
     \<lparr>fb_header = \<lparr>th_version = 2, th_p = 0, th_count = 1, th_pt = RTCP_PSFB, th_length = 2\<rparr>,
      fb_ssrc_sender = ssrc_sender, fb_ssrc_media = ssrc_media, fb_fci = None, fb_fci_size = 0\<rparr>"

definition fir_fb :: "u32 \<Rightarrow> u32 \<Rightarrow> byte \<Rightarrow> rtcp_fb" where
  "fir_fb ssrc_sender ssrc_media nr =
     \<lparr>fb_header = \<lparr>th_version = 2, th_p = 0, th_count = 4, th_pt = RTCP_PSFB, th_length = 4\<rparr>,
      fb_ssrc_sender = ssrc_sender, fb_ssrc_media = ssrc_media, fb_fci = Some (b32 ssrc_media @ [nr, 0, 0, 0]), fb_fci_size = 8\<rparr>"

lemmas fb_defs = nack_fb_def pli_fb_def fir_fb_def

lemma fb_ok:
  "rtcp_fb_ok (seen_fb (nack_fb s m pid blp))" "rtcp_fb_ok (seen_fb (pli_fb s m))" "rtcp_fb_ok (seen_fb (fir_fb s m nr))"
  by (simp_all add: fb_defs rtcp_fb_ok_def seen_fb_def fb_fci_data_def rtcp_header_ok_def)

lemma fb_data:
  "length (fb_fci_data (nack_fb s m pid blp)) = 4" "length (fb_fci_data (pli_fb s m)) = 0"
  "length (fb_fci_data (fir_fb s m nr)) = 8"
  by (simp_all add: fb_defs fb_fci_data_def)

lemma send_rtcp_nack_eq:
  assumes "remote_rtcp_endpoint this = Some ep"
  shows "send_rtcp_nack s m pid blp this =
    Some (update_receiver m receiver_increase_nack (ms_emit (Rtcp_out (rtcp_fb_bytes (nack_fb s m pid blp)) ep) this))"
proof -
  have "rtcp_rtpfb_nack_set pid blp ((rtcp_fb_init RTCP_RTPFB RTCP_RTPFB_FMT_NACK)\<lparr>fb_ssrc_sender := s, fb_ssrc_media := m\<rparr>) =
      Some (0, nack_fb s m pid blp)"
    by (simp add: rtcp_rtpfb_nack_set_def rtcp_fb_set_fci_def rtcp_fb_init_def rtcp_fb_create_def rtcp_fb_size_def
        rd_range_def RTCP_RTPFB_FMT_NACK_def nack_fb_def)
  then show ?thesis
    using send_fb_wire [OF fb_ok(1) _ assms, of s m pid blp] by (simp add: send_rtcp_nack_def fb_data)
qed

lemma send_rtcp_keyframe_pli_eq:
  assumes "remote_rtcp_endpoint this = Some ep" "\<not> ms_send_keyframe_handler this"
  shows "send_rtcp_keyframe_pli s m this =
    Some (ms_emit (Rtcp_out (rtcp_fb_bytes (pli_fb s m)) ep) (update_receiver m receiver_increase_pli this))"
proof -
  have "(rtcp_fb_init RTCP_PSFB RTCP_PSFB_FMT_PLI)\<lparr>fb_ssrc_sender := s, fb_ssrc_media := m\<rparr> = pli_fb s m"
    by (simp add: rtcp_fb_init_def rtcp_fb_create_def RTCP_PSFB_FMT_PLI_def pli_fb_def)
  then show ?thesis
    using send_fb_wire [OF fb_ok(2), of s m] assms by (simp add: send_rtcp_keyframe_pli_def fb_data)
qed

lemma send_rtcp_keyframe_fir_eq:
  assumes "remote_rtcp_endpoint this = Some ep" "\<not> ms_send_keyframe_handler this"
  shows "send_rtcp_keyframe_fir s m this =
    (let nr = (case get_receiver_by_ssrc m this of None \<Rightarrow> 0 | Some r \<Rightarrow> ucast (rc_fir_count r))
     in Some (ms_emit (Rtcp_out (rtcp_fb_bytes (fir_fb s m nr)) ep) (update_receiver m receiver_increase_fir this)))"
proof -
  have "rtcp_fb_set_fci (b32 m @ [nr, 0, 0, 0]) 8
      ((rtcp_fb_init RTCP_PSFB RTCP_PSFB_FMT_FIR)\<lparr>fb_ssrc_sender := s, fb_ssrc_media := m\<rparr>) = Some (0, fir_fb s m nr)" for nr
    by (simp add: rtcp_fb_set_fci_def rtcp_fb_init_def rtcp_fb_create_def rtcp_fb_size_def
        rd_range_def RTCP_PSFB_FMT_FIR_def fir_fb_def)
  then show ?thesis
    using send_fb_wire [OF fb_ok(3), of s m] assms by (simp add: send_rtcp_keyframe_fir_def fb_data)
qed

end
