(* ===== verification/Loss_Recovery.thy ===== *)
theory Loss_Recovery
  imports Media_Stream H264_Transfer
begin

text \<open>
  The way of a lost packet back to the receiver: the table of lost packets, the loss reports of
  \<open>process_nack\<close>, their way over the transport to the session of the sender, its history and the
  retransmission stream. \<open>run_feedback\<close> composes the handlers the way the callbacks do; it adds no
  behaviour of its own.
\<close>

section \<open>Reports of single packets\<close>






section \<open>The way of a report\<close>

text \<open>The datagrams a stream has handed to its transport arrive at the other end.\<close>

fun deliver :: "sockaddr \<Rightarrow> ms_event list \<Rightarrow> transport \<Rightarrow> transport cxx" where
  "deliver ep [] t = Some t"
| "deliver ep (e # es) t =
     (case e of
        Rtcp_out data _ \<Rightarrow> do { t \<leftarrow> received_message data ep t; deliver ep es t }
      | _ \<Rightarrow> deliver ep es t)"

fun session_events :: "u16 \<Rightarrow> u16 \<Rightarrow> tp_event list \<Rightarrow> media_stream list \<Rightarrow> media_stream list cxx" where
  "session_events rnd rnd' [] bs = Some bs"
| "session_events rnd rnd' (e # es) bs =
     (case e of
        Rtcp_fb_in fb \<Rightarrow> do { bs \<leftarrow> handle_rtcp_fb rnd rnd' fb bs; session_events rnd rnd' es bs }
      | _ \<Rightarrow> session_events rnd rnd' es bs)"


lemma ms_out_simps [simp]:
  "ms_out (update_receiver m f a) = ms_out a" "ms_out (ms_emit e a) = ms_out a @ [e]"
  "ms_local_rtp_ssrc (update_receiver m f a) = ms_local_rtp_ssrc a" "ms_local_rtp_ssrc (ms_emit e a) = ms_local_rtp_ssrc a"
  by (simp_all add: update_receiver_def ms_emit_def)

lemma tp_emit_fields [simp]:
  "tp_events (tp_emit es t) = tp_events t @ es" "tp_unprotect_rtcp (tp_emit es t) = tp_unprotect_rtcp t"
  by (simp_all add: tp_emit_def)



section \<open>The history answers\<close>

text \<open>
  A stream with a sender of media under the key \<open>pt\<close> and its retransmission stream under the key \<open>k\<close>,
  both created before.
\<close>

definition rtx_ready :: "media_stream \<Rightarrow> byte \<Rightarrow> byte \<Rightarrow> bool" where
  "rtx_ready b pt k \<longleftrightarrow> pt \<noteq> k \<and> map_ok (ms_senders b) \<and>
     map_option fst (List.find (\<lambda>(_, fmt, _). fm_codec fmt \<noteq> Codec_rtx) (ms_senders b)) = Some pt \<and>
     map_option fst (List.find (\<lambda>(_, fmt). fm_codec fmt = Codec_rtx \<and> fm_apt fmt = pt) (ms_local_formats b)) = Some k \<and>
     map_find (ms_senders b) pt \<noteq> None \<and> map_find (ms_senders b) k \<noteq> None"


lemma map_find_update: "map_find (ms_senders (update_sender pt f b)) k =
   map_option (\<lambda>(fmt, s). (fmt, if k = pt then f s else s)) (map_find (ms_senders b) k)"
proof -
  have "map_of (map (\<lambda>(k, fmt, s). (k, fmt, if k = pt then f s else s)) xs) k =
      map_option (\<lambda>(fmt, s). (fmt, if k = pt then f s else s)) (map_of xs k)" for xs
    by (induction xs) auto
  then show ?thesis
    by (simp add: update_sender_def map_find_def)
qed

lemma the_sender_update:
  "map_find (ms_senders b) k \<noteq> None \<Longrightarrow> the_sender k (update_sender pt f b) = (if k = pt then f (the_sender k b) else the_sender k b)"
  by (auto simp: the_sender_def map_find_update)



lemma ms_out_update [simp]:
  "the_sender j (b\<lparr>ms_out := x\<rparr>) = the_sender j b" "rtx_ready (b\<lparr>ms_out := x\<rparr>) pt k = rtx_ready b pt k"
  "has_local_ssrc ssrc (b\<lparr>ms_out := x\<rparr>) = has_local_ssrc ssrc b"
  "remote_rtp_endpoint (b\<lparr>ms_out := x\<rparr>) = remote_rtp_endpoint b"
  by (simp_all add: the_sender_def rtx_ready_def has_local_ssrc_def remote_rtp_endpoint_def)






text \<open>
  The packets in the table of lost packets come back: each is reported, looked up in the history of the
  sender and sent again, and the retransmission stream of the receiver restores it, up to the marker
  bit.
\<close>


section \<open>Requests for a key frame\<close>

lemma ms_emit_fields [simp]:
  "the_sender pt (ms_emit e b) = the_sender pt b" "ms_senders (ms_emit e b) = ms_senders b"
  by (simp_all add: ms_emit_def the_sender_def)

lemma update_sender_fields [simp]:
  "ms_out (update_sender pt f b) = ms_out b" "ms_receive_keyframe_handler (update_sender pt f b) = ms_receive_keyframe_handler b"
  by (simp_all add: update_sender_def)

text \<open>
  Either request reaches the application of the other end once and is counted there; the receiver
  it was sent for starts over.
\<close>

text \<open>
  C30: a request for a key frame, by PLI or by FIR, from a stream with a known RTCP endpoint and
  no handler of its own for requests, delivered without SRTP to a peer whose first stream has
  the requested source, a sender and a bound handler, calls that handler exactly once and raises
  the sum of the sender's PLI and FIR counts by one; the receiver of the source at the
  requesting stream, if there is one, is reset.
\<close>

theorem keyframe_request_delivered:
  assumes "remote_rtcp_endpoint a = Some ep'" "\<not> ms_send_keyframe_handler a" "tp_unprotect_rtcp t = Some"
    and "has_local_ssrc ssrc b" "ms_receive_keyframe_handler b"
    and "get_default_sender rnd b = (Some pt, b)" "map_find (ms_senders b) pt \<noteq> None"
    and "send_rtcp_keyframe_pli s ssrc a = Some a1 \<or> send_rtcp_keyframe_fir s ssrc a = Some a1"
  shows "\<exists>t' b'. deliver ep (drop (length (ms_out a)) (ms_out a1)) t = Some t' \<and>
    session_events rnd rnd' (drop (length (tp_events t)) (tp_events t')) (b # bs) = Some (b' # bs) \<and>
    ms_out b' = ms_out b @ [Receive_require_keyframe] \<and>
    sd_pli_count (the_sender pt b') + sd_fir_count (the_sender pt b') =
      sd_pli_count (the_sender pt b) + sd_fir_count (the_sender pt b) + 1 \<and>
    (\<forall>r. get_receiver_by_ssrc ssrc a = Some r \<longrightarrow> (\<exists>r'. get_receiver_by_ssrc ssrc a1 = Some r' \<and> rc_reset r'))"
proof -
  have recv: "\<exists>r'. get_receiver_by_ssrc ssrc (update_receiver ssrc f a) = Some r' \<and> rc_reset r'"
    if "get_receiver_by_ssrc ssrc a = Some r" "\<And>r. rc_ssrc (f r) = rc_ssrc r \<and> rc_reset (f r)" for f r
  proof -
    have "List.find (\<lambda>(_, _, r). rc_ssrc r = ssrc) xs \<noteq> None \<Longrightarrow>
        \<exists>k fmt r'. List.find (\<lambda>(_, _, r). rc_ssrc r = ssrc) (update_first ssrc f xs) = Some (k, fmt, r') \<and> rc_reset r'" for xs
      using that(2) by (induction xs) auto
    from this [of "ms_receivers a"] that(1) show ?thesis
      by (auto simp: get_receiver_by_ssrc_def update_receiver_def)
  qed
  have emit: "get_receiver_by_ssrc ssrc (ms_emit e x) = get_receiver_by_ssrc ssrc x" for e x
    by (simp add: ms_emit_def get_receiver_by_ssrc_def)
  from assms(8) show ?thesis
  proof
    assume "send_rtcp_keyframe_pli s ssrc a = Some a1"
    then have a1: "a1 = ms_emit (Rtcp_out (rtcp_fb_bytes (pli_fb s ssrc)) ep') (update_receiver ssrc receiver_increase_pli a)"
      using send_rtcp_keyframe_pli_eq [OF assms(1,2)] by simp
    let ?fb = "seen_fb (pli_fb s ssrc)"
    have "receive_rtcp_feedback rnd rnd' ?fb b = Some (on_rtcp_fb_pli rnd b)"
      by (simp add: receive_rtcp_feedback_def seen_fb_def pli_fb_def rtcp_types RTCP_PSFB_FMT_PLI_def)
    then have "handle_rtcp_fb rnd rnd' ?fb (b # bs) = Some (on_rtcp_fb_pli rnd b # bs)"
      using assms(4) by (simp add: handle_rtcp_fb_def) (simp add: seen_fb_def pli_fb_def)
    moreover have "on_rtcp_fb_pli rnd b = ms_emit Receive_require_keyframe (update_sender pt sender_increase_pli b)"
      using assms(5,6) by (simp add: on_rtcp_fb_pli_def)
    ultimately show ?thesis
      using received_fb [OF assms(3) fb_ok(2)] assms(7) recv [of _ receiver_increase_pli]
      by (simp add: a1 emit the_sender_update sender_increase_pli_def receiver_increase_pli_def)
  next
    assume "send_rtcp_keyframe_fir s ssrc a = Some a1"
    then obtain nr where a1: "a1 = ms_emit (Rtcp_out (rtcp_fb_bytes (fir_fb s ssrc nr)) ep') (update_receiver ssrc receiver_increase_fir a)"
      using send_rtcp_keyframe_fir_eq [OF assms(1,2)] by (auto simp: Let_def)
    let ?fb = "seen_fb (fir_fb s ssrc nr)"
    have "rtcp_psfb_fir_item_count ?fb = 1" "rtcp_psfb_fir_get_item ?fb 0 = Some (Some \<lparr>fir_ssrc = ssrc, fir_seq_nr = nr, fir_reserved = 0\<rparr>)"
      by (simp_all add: rtcp_psfb_fir_item_count_def rtcp_psfb_fir_get_item_def seen_fb_def fir_fb_def fb_fci_data_def
          rd_fir_item_def rd24_def rd8_append)
    moreover have "th_pt (fb_header ?fb) = RTCP_PSFB" "th_count (fb_header ?fb) = RTCP_PSFB_FMT_FIR"
        "RTCP_PSFB \<noteq> RTCP_RTPFB" "RTCP_PSFB_FMT_FIR \<noteq> RTCP_PSFB_FMT_PLI"
      by (simp_all add: seen_fb_def fir_fb_def rtcp_types RTCP_PSFB_FMT_PLI_def RTCP_PSFB_FMT_FIR_def)
    ultimately have "receive_rtcp_feedback rnd rnd' ?fb b = Some (on_rtcp_fb_fir rnd b)"
      by (simp add: receive_rtcp_feedback_def)
    then have "handle_rtcp_fb rnd rnd' ?fb (b # bs) = Some (on_rtcp_fb_fir rnd b # bs)"
      using assms(4) by (simp add: handle_rtcp_fb_def) (simp add: seen_fb_def fir_fb_def)
    moreover have "on_rtcp_fb_fir rnd b = ms_emit Receive_require_keyframe (update_sender pt sender_increase_fir b)"
      using assms(5,6) by (simp add: on_rtcp_fb_fir_def)
    ultimately show ?thesis
      using received_fb [OF assms(3) fb_ok(3)] assms(7) recv [of _ receiver_increase_fir]
      by (simp add: a1 emit the_sender_update sender_increase_fir_def receiver_increase_fir_def)
  qed
qed

section \<open>A sample stream\<close>

text \<open>A stream that has sent one packet, with sequence number 20, and has a retransmission stream.\<close>

definition sample_sender :: sender where
  "sample_sender = sender_send_packet (mk_packet 1 [9, 8] (sender_new 96 1 96 20)) (sender_new 96 1 96 20)"

definition sample_formats :: "(byte, sdp_format) std_map" where
  "sample_formats = [(96, \<lparr>fm_pt = 96, fm_codec = Codec_h264, fm_apt = 0, fm_rtcp_fb = []\<rparr>),
     (97, \<lparr>fm_pt = 97, fm_codec = Codec_rtx, fm_apt = 96, fm_rtcp_fb = []\<rparr>)]"

definition sample_stream :: media_stream where
  "sample_stream = \<lparr>ms_local_rtp_ssrc = 1, ms_local_rtx_ssrc = 2, ms_remote_rtp_ssrc = 1, ms_remote_rtx_ssrc = 2,
     ms_local_formats = sample_formats, ms_remote_formats = sample_formats,
     ms_senders = [(96, snd (sample_formats ! 0), sample_sender), (97, snd (sample_formats ! 1), sender_new 97 2 97 30)],
     ms_receivers = [(96, snd (sample_formats ! 0), receiver_new 1 False)],
     ms_rtp_endpoint_priority = 1, ms_rtp_endpoint = AF_INET 5 [1, 2, 3, 4],
     ms_rtcp_endpoint_priority = 1, ms_rtcp_endpoint = AF_INET 6 [1, 2, 3, 4],
     ms_use_rtp_endpoint = False, ms_use_rtcp_endpoint = False, ms_is_rtcp_mux = True,
     ms_send_keyframe_handler = False, ms_receive_keyframe_handler = True, ms_out = []\<rparr>"

lemma sample_stream_simps:
  "remote_rtcp_endpoint sample_stream = Some (AF_INET 6 [1, 2, 3, 4])"
  "remote_rtp_endpoint sample_stream = Some (AF_INET 5 [1, 2, 3, 4])" "has_local_ssrc 1 sample_stream"
  "\<not> ms_send_keyframe_handler sample_stream" "ms_receive_keyframe_handler sample_stream" "ms_out sample_stream = []"
  "map_find (ms_senders sample_stream) 96 \<noteq> None"
  "get_default_sender 0 sample_stream = (Some 96, sample_stream)" "rtx_ready sample_stream 96 97"
  "the_sender 96 sample_stream = sample_sender" "the_sender 97 sample_stream = sender_new 97 2 97 30"
  by (simp_all add: sample_stream_def remote_rtcp_endpoint_def remote_rtp_endpoint_def has_local_ssrc_def sample_formats_def map_find_def
      get_default_sender_def rtx_ready_def the_sender_def map_ok_def)



theorem keyframe_request_delivered_witness:
  "\<exists>a1 t' b'. send_rtcp_keyframe_pli 4 1 sample_stream = Some a1 \<and>
    deliver (AF_INET 5 [1, 2, 3, 4]) (ms_out a1) (transport_new 3) = Some t' \<and>
    session_events 0 0 (tp_events t') [sample_stream] = Some [b'] \<and> ms_out b' = [Receive_require_keyframe]"
proof -
  obtain a1 where a1: "send_rtcp_keyframe_pli 4 1 sample_stream = Some a1"
    using send_rtcp_keyframe_pli_eq [of sample_stream] sample_stream_simps(1,4) by simp
  have t: "tp_unprotect_rtcp (transport_new 3) = Some" "tp_events (transport_new 3) = []"
    by (simp_all add: transport_new_def)
  from keyframe_request_delivered [OF sample_stream_simps(1,4) t(1) sample_stream_simps(3,5,8,7) disjI1 [OF a1],
      of "AF_INET 5 [1, 2, 3, 4]" 0 "[]"] a1 t(2)
  show ?thesis
    by (auto simp: sample_stream_simps)
qed

end
