(* ===== verification/Bfcp.thy ===== *)
theory Bfcp
  imports Prelude
begin

text \<open>
  Floor control messages: \<open>rtpx/bfcp/bfcp_attribute.h\<close>, \<open>bfcp_attribute.cpp\<close>, \<open>bfcp_packet.h\<close>,
  \<open>bfcp_packet.cpp\<close>. An attribute has a type of seven bits, the flag \<open>m\<close> and its contents; a packet
  is a header of 12 or 16 bytes and a sequence of attributes. The bit fields are bytes here; the
  enumerations are their numeric values.
\<close>

unbundle bit_operations_syntax

section \<open>Attributes\<close>

record bfcp_attribute =
  ba_type :: byte
  ba_m :: byte
  ba_contents :: bytes

definition bfcp_attribute_new :: bfcp_attribute where
  "bfcp_attribute_new = \<lparr>ba_type = 0, ba_m = 0, ba_contents = []\<rparr>"

definition bfcp_attribute_deserialize :: "bfcp_attribute \<Rightarrow> bytes \<Rightarrow> (int \<times> bfcp_attribute) cxx" where
  "bfcp_attribute_deserialize this data =
     (let len = length data in
      if len \<le> 2 then Some (0, this)
      else do {
        b \<leftarrow> rd8 data 0;
        let this = this\<lparr>ba_type := drop_bit 1 (b AND 0xEF), ba_m := b AND 0x01\<rparr>;
        clen \<leftarrow> rd8 data 1;
        if unat clen > len then Some (0, this)
        else if unat clen < 2 then Some (-1, this)
        else do {
          c \<leftarrow> rd_range data 2 (2 + (unat clen - 2));
          Some (int (2 + (unat clen - 2)), this\<lparr>ba_contents := c\<rparr>) } })"

definition bfcp_attribute_serialize :: "bfcp_attribute \<Rightarrow> bytes" where
  "bfcp_attribute_serialize this =
     (let b = push_bit 1 (ba_type this) OR ba_m this;
          len = word_of_nat (length (ba_contents this)) + 2 :: byte
      in [b, len] @ ba_contents this)"

definition bfcp_attribute_set_ushort :: "u16 \<Rightarrow> bfcp_attribute \<Rightarrow> bfcp_attribute" where
  "bfcp_attribute_set_ushort v this = this\<lparr>ba_contents := ba_contents this @ b16 v\<rparr>"

text \<open>\<open>contents.copy(&v, 2)\<close> copies at most the bytes there are over \<open>v = 0\<close>.\<close>

definition bfcp_attribute_get_ushort :: "bfcp_attribute \<Rightarrow> u16" where
  "bfcp_attribute_get_ushort this =
     (case ba_contents this of [] \<Rightarrow> 0 | [a] \<Rightarrow> be16 a 0 | a # b # _ \<Rightarrow> be16 a b)"

definition bfcp_attribute_set_string :: "bytes \<Rightarrow> bfcp_attribute \<Rightarrow> bfcp_attribute" where
  "bfcp_attribute_set_string v this = this\<lparr>ba_contents := v\<rparr>"

definition bfcp_attribute_get_string :: "bfcp_attribute \<Rightarrow> bytes" where
  "bfcp_attribute_get_string this = ba_contents this"

definition bfcp_attribute_set_attribute :: "bfcp_attribute \<Rightarrow> bfcp_attribute \<Rightarrow> bfcp_attribute" where
  "bfcp_attribute_set_attribute attr this = this\<lparr>ba_contents := bfcp_attribute_serialize attr\<rparr>"

definition bfcp_attribute_get_attribute ::
  "bfcp_attribute \<Rightarrow> bfcp_attribute \<Rightarrow> (bool \<times> bfcp_attribute) cxx" where
  "bfcp_attribute_get_attribute attr this =
     do { (r, attr) \<leftarrow> bfcp_attribute_deserialize attr (ba_contents this); Some (r > 0, attr) }"

section \<open>Packets\<close>

record bfcp_packet =
  bp_ver :: byte
  bp_r :: byte
  bp_f :: byte
  bp_res :: byte
  bp_primitive :: byte
  bp_conference_id :: u32
  bp_transaction_id :: u16
  bp_user_id :: u16
  bp_fragment_offset :: u16
  bp_fragment_length :: u16
  bp_attributes :: "bfcp_attribute list"

definition bfcp_packet_new :: bfcp_packet where
  "bfcp_packet_new = \<lparr>bp_ver = 1, bp_r = 0, bp_f = 0, bp_res = 0, bp_primitive = 0,
     bp_conference_id = 0, bp_transaction_id = 0, bp_user_id = 0, bp_fragment_offset = 0,
     bp_fragment_length = 0, bp_attributes = []\<rparr>"

text \<open>
  The attribute loop ends at the first attribute with \<open>attrlen <= 0\<close>; its verdict is not used.
\<close>

definition bfcp_read_attribute :: "bytes \<Rightarrow> (nat \<times> bfcp_attribute) cxx" where
  "bfcp_read_attribute buf =
     do { (attrlen, attr) \<leftarrow> bfcp_attribute_deserialize bfcp_attribute_new buf; Some (nat attrlen, attr) }"

definition bfcp_packet_deserialize :: "bfcp_packet \<Rightarrow> bytes \<Rightarrow> (bool \<times> bfcp_packet) cxx" where
  "bfcp_packet_deserialize this data =
     (let this = this\<lparr>bp_attributes := []\<rparr>; size = length data in
      if size < 12 then Some (False, this)
      else do {
        b \<leftarrow> rd8 data 0;
        let this = this\<lparr>bp_ver := drop_bit 5 (b AND 0xE0), bp_r := drop_bit 4 (b AND 0x10),
                        bp_f := drop_bit 3 (b AND 0x8), bp_res := b AND 0x7\<rparr>;
        primitive \<leftarrow> rd8 data 1;
        payload_len \<leftarrow> rd16 data 2;
        conference_id \<leftarrow> rd32 data 4;
        transaction_id \<leftarrow> rd16 data 8;
        user_id \<leftarrow> rd16 data 10;
        let this = this\<lparr>bp_primitive := primitive, bp_conference_id := conference_id,
                        bp_transaction_id := transaction_id, bp_user_id := user_id\<rparr>;
        if bp_f this \<noteq> 0 \<and> size < 16 then Some (False, this)
        else do {
          (pos, this) \<leftarrow>
            (if bp_f this \<noteq> 0 then do {
               fragment_offset \<leftarrow> rd16 data 12;
               fragment_length \<leftarrow> rd16 data 14;
               Some (16, this\<lparr>bp_fragment_offset := fragment_offset, bp_fragment_length := fragment_length\<rparr>) }
             else Some (12, this));
          if pos + unat payload_len > size then Some (False, this)
          else do {
            (_, attrs) \<leftarrow> parse_loop bfcp_read_attribute (drop pos data) [];
            Some (True, this\<lparr>bp_attributes := attrs\<rparr>) } } })"

definition bfcp_packet_serialize :: "bfcp_packet \<Rightarrow> bytes" where
  "bfcp_packet_serialize this =
     (let payload = concat (map bfcp_attribute_serialize (bp_attributes this));
          b = push_bit 5 (bp_ver this) OR push_bit 4 (bp_r this) OR push_bit 3 (bp_f this) OR bp_res this
      in [b, bp_primitive this] @ b16 (word_of_nat (length payload)) @ b32 (bp_conference_id this) @
         b16 (bp_transaction_id this) @ b16 (bp_user_id this) @
         (if bp_f this \<noteq> 0 then b16 (bp_fragment_offset this) @ b16 (bp_fragment_length this) else []) @
         payload)"

section \<open>Round trips\<close>

text \<open>
  The parser masks the first byte of an attribute with \<open>0xEF\<close> and not \<open>0xFE\<close>, which loses bit 3 of
  the type: this is what the other end reads.
\<close>

definition bfcp_attribute_view :: "bfcp_attribute \<Rightarrow> bfcp_attribute" where
  "bfcp_attribute_view a = a\<lparr>ba_type := ba_type a AND 0x77\<rparr>"

definition bfcp_attribute_ok :: "bfcp_attribute \<Rightarrow> bool" where
  "bfcp_attribute_ok a \<longleftrightarrow> ba_type a < 128 \<and> ba_m a < 2 \<and> ba_contents a \<noteq> [] \<and>
     length (ba_contents a) \<le> 253"

lemma attribute_byte:
  assumes "t < (128 :: byte)" and "m < 2"
  shows "drop_bit 1 ((push_bit 1 t OR m) AND 0xEF) = t AND 0x77" and "(push_bit 1 t OR m) AND 0x01 = m"
proof -
  have *: "take_bit 7 t = t" "take_bit 1 m = m"
    using assms by (simp_all only: byte_take_bit)
  have "drop_bit 1 ((push_bit 1 (take_bit 7 t) OR take_bit 1 m) AND 0xEF) = take_bit 7 t AND 0x77"
    by (rule byte_eqI) (simp_all add: bit_simps byte_double numeral_2_eq_2)
  then show "drop_bit 1 ((push_bit 1 t OR m) AND 0xEF) = t AND 0x77" by (simp only: *)
  have "(push_bit 1 (take_bit 7 t) OR take_bit 1 m) AND 0x01 = take_bit 1 m"
    by (rule byte_eqI) (simp_all add: bit_simps byte_double numeral_2_eq_2)
  then show "(push_bit 1 t OR m) AND 0x01 = m" by (simp only: *)
qed

lemma header_byte:
  assumes "v < (8 :: byte)" "r < 2" "f < 2" "s < 8"
  defines "b \<equiv> push_bit 5 v OR push_bit 4 r OR push_bit 3 f OR s"
  shows "drop_bit 5 (b AND 0xE0) = v" "drop_bit 4 (b AND 0x10) = r" "drop_bit 3 (b AND 0x8) = f"
    "b AND 0x7 = s"
proof -
  have *: "take_bit 3 v = v" "take_bit 1 r = r" "take_bit 1 f = f" "take_bit 3 s = s"
    using assms by (simp_all only: byte_take_bit)
  let ?b = "push_bit 5 (take_bit 3 v) OR push_bit 4 (take_bit 1 r) OR push_bit 3 (take_bit 1 f) OR take_bit 3 s"
  have "drop_bit 5 (?b AND 0xE0) = take_bit 3 v" "drop_bit 4 (?b AND 0x10) = take_bit 1 r"
    "drop_bit 3 (?b AND 0x8) = take_bit 1 f" "?b AND 0x7 = take_bit 3 s"
    by (rule byte_eqI; simp add: bit_simps)+
  then show "drop_bit 5 (b AND 0xE0) = v" "drop_bit 4 (b AND 0x10) = r" "drop_bit 3 (b AND 0x8) = f"
    "b AND 0x7 = s"
    unfolding b_def by (simp_all only: *)
qed

lemma bfcp_attribute_roundtrip:
  assumes "bfcp_attribute_ok a"
  shows "bfcp_attribute_deserialize this (bfcp_attribute_serialize a @ rest) =
     Some (int (length (bfcp_attribute_serialize a)), bfcp_attribute_view a)"
proof -
  let ?n = "length (ba_contents a)"
  have u: "unat (word_of_nat ?n + 2 :: byte) = ?n + 2"
    using assms unat_of_nat_small [of "?n + 2", where 'a = 8]
    by (simp add: bfcp_attribute_ok_def add.commute)
  have s: "bfcp_attribute_serialize a @ rest =
      [push_bit 1 (ba_type a) OR ba_m a, word_of_nat ?n + 2] @ ba_contents a @ rest"
    by (simp add: bfcp_attribute_serialize_def Let_def)
  have "rd_range (bfcp_attribute_serialize a @ rest) 2 (2 + ?n) = Some (ba_contents a)"
    unfolding s by (rule rd_range_mid) simp_all
  moreover have "length (bfcp_attribute_serialize a) = ?n + 2" "?n \<noteq> 0"
    using assms by (simp_all add: bfcp_attribute_serialize_def Let_def bfcp_attribute_ok_def)
  ultimately show ?thesis
    using u s attribute_byte [of "ba_type a" "ba_m a"] assms
    by (simp add: bfcp_attribute_deserialize_def bfcp_attribute_view_def Let_def bfcp_attribute_ok_def)
qed

interpretation bfcp_attrs: framed_codec bfcp_attribute_serialize bfcp_read_attribute
  bfcp_attribute_view bfcp_attribute_ok "2 ^ 31 - 1"
proof
  show "bfcp_read_attribute (bfcp_attribute_serialize a @ rest) =
      Some (length (bfcp_attribute_serialize a), bfcp_attribute_view a)" if "bfcp_attribute_ok a" for a rest
    using bfcp_attribute_roundtrip [OF that] by (simp add: bfcp_read_attribute_def)
  show "bfcp_attribute_serialize a \<noteq> []" for a
    by (simp add: bfcp_attribute_serialize_def Let_def)
qed

definition bfcp_packet_ok :: "bfcp_packet \<Rightarrow> bool" where
  "bfcp_packet_ok p \<longleftrightarrow> bp_ver p < 8 \<and> bp_r p < 2 \<and> bp_f p < 2 \<and> bp_res p < 8 \<and>
     list_all bfcp_attribute_ok (bp_attributes p) \<and>
     length (concat (map bfcp_attribute_serialize (bp_attributes p))) < 65536"

text \<open>
  C40: a BFCP packet is read back from its serialization, with bit 3 of every attribute type
  lost to the mask 0xEF of the parser, and with fragment offset and length 0 when the F flag is
  0. Assumed: the header fields fit their bits (version and reserved 3, R and F 1), every
  attribute has a type below 128, an M of at most 1 and 1 to 253 bytes of contents, and the
  serialized attributes take fewer than 65536 bytes.
\<close>

theorem bfcp_packet_roundtrip:
  assumes "bfcp_packet_ok p"
  shows "bfcp_packet_deserialize bfcp_packet_new (bfcp_packet_serialize p) =
     Some (True, (if bp_f p = 0 then p\<lparr>bp_fragment_offset := 0, bp_fragment_length := 0\<rparr> else p)
       \<lparr>bp_attributes := map bfcp_attribute_view (bp_attributes p)\<rparr>)"
proof -
  let ?A = "concat (map bfcp_attribute_serialize (bp_attributes p))"
  have ok: "list_all bfcp_attribute_ok (bp_attributes p)" "length ?A < 65536"
    using assms by (simp_all add: bfcp_packet_ok_def)
  define b where "b = push_bit 5 (bp_ver p) OR push_bit 4 (bp_r p) OR push_bit 3 (bp_f p) OR bp_res p"
  have h: "drop_bit 5 (b AND 0xE0) = bp_ver p" "drop_bit 4 (b AND 0x10) = bp_r p"
      "drop_bit 3 (b AND 0x8) = bp_f p" "b AND 0x7 = bp_res p"
    using assms header_byte [of "bp_ver p" "bp_r p" "bp_f p" "bp_res p"]
    unfolding b_def bfcp_packet_ok_def by blast+
  have s: "bfcp_packet_serialize p =
      [b, bp_primitive p] @ b16 (word_of_nat (length ?A)) @ b32 (bp_conference_id p) @
         b16 (bp_transaction_id p) @ b16 (bp_user_id p) @
         (if bp_f p \<noteq> 0 then b16 (bp_fragment_offset p) @ b16 (bp_fragment_length p) else []) @ ?A"
    by (simp add: bfcp_packet_serialize_def Let_def b_def)
  have l: "unat (word_of_nat (length ?A) :: u16) = length ?A"
    using ok(2) by (simp add: unat_of_nat_small)
  have "parse_loop bfcp_read_attribute ?A [] = Some (True, map bfcp_attribute_view (bp_attributes p))"
    using bfcp_attrs.parse_loop_concat [OF ok(1), of "[]"] ok(2) by simp
  then show ?thesis
    using l h [simplified] unfolding s bfcp_packet_deserialize_def Let_def bfcp_packet_new_def
    by (cases p) simp
qed

theorem bfcp_packet_roundtrip_witness:
  "let p = bfcp_packet_new\<lparr>bp_primitive := 1, bp_attributes := [\<lparr>ba_type = 8, ba_m = 1, ba_contents = [104]\<rparr>]\<rparr>
   in bfcp_packet_deserialize bfcp_packet_new (bfcp_packet_serialize p) =
      Some (True, bfcp_packet_new\<lparr>bp_primitive := 1, bp_attributes := [\<lparr>ba_type = 0, ba_m = 1, ba_contents = [104]\<rparr>]\<rparr>)"
  unfolding Let_def
  by (subst bfcp_packet_roundtrip)
    (simp_all add: bfcp_packet_ok_def bfcp_packet_new_def bfcp_attribute_ok_def bfcp_attribute_view_def
      bfcp_attribute_serialize_def Let_def)

text \<open>A value stored by \<open>set_ushort\<close> in an empty attribute is what \<open>get_ushort\<close> returns.\<close>

lemma bfcp_ushort_roundtrip:
  "ba_contents a = [] \<Longrightarrow> bfcp_attribute_get_ushort (bfcp_attribute_set_ushort v a) = v"
  by (simp add: bfcp_attribute_get_ushort_def bfcp_attribute_set_ushort_def b16_def)

lemma bfcp_nested_roundtrip:
  "bfcp_attribute_ok a \<Longrightarrow>
   bfcp_attribute_get_attribute b (bfcp_attribute_set_attribute a c) = Some (True, bfcp_attribute_view a)"
  using bfcp_attribute_roundtrip [of a b "[]"]
  by (simp add: bfcp_attribute_get_attribute_def bfcp_attribute_set_attribute_def
      bfcp_attribute_serialize_def Let_def)

end
