(* ===== verification/Spec2Isabelle.thy ===== *)
theory Spec2Isabelle
  imports Sctp_Delivery Stun_Message H264_Transfer Loss_Recovery Bfcp
begin

text \<open>
  \<^bold>\<open>A verification of the data channel, connectivity and media core of rtpx\<close>

  The repository is a collection of C++ libraries for real-time media. Its core is \<open>rtpx\<close>, a
  WebRTC stack: STUN for connectivity checks, SCTP over DTLS for data channels, RTP and RTCP for
  media. \<open>sys2\<close> holds the utilities it rests on. This development models, operation by
  operation, the SCTP implementation (\<open>src/rtpx/sctp\<close>), the STUN implementation
  (\<open>src/rtpx/stun\<close>), the checksums and digests both use (\<open>src/sys2/security\<close>), the RTP packets and
  the way of an H.264 video from sender to receiver (\<open>src/rtpx/rtp\<close>, \<open>senders\<close>, \<open>receivers\<close>, \<open>h264\<close>,
  \<open>util\<close>), the RTCP packets (\<open>src/rtpx/rtp\<close>, \<open>src/rtpx/rtcp\<close>), the transport that tells the protocols
  on one socket apart (\<open>src/rtpx/transports\<close>), the feedback path of a media stream
  (\<open>media_stream.cpp\<close>, \<open>rtp_session.cpp\<close>), and floor control packets (\<open>src/rtpx/bfcp\<close>).

  \<^bold>\<open>How the parts interact.\<close> An application calls an \<open>sctp\<close> object to open, connect, create a
  stream, send a message and close; the transport calls \<open>conn_input\<close> with each datagram; two
  timers repeat INITs, heartbeats, retransmissions and SACKs. The association parses a datagram
  with \<open>sctp_packet\<close> (header, checksum, chunks), dispatches on the chunk type, and hands DATA
  chunks to the \<open>sctp_stream\<close> of their stream identifier, which reassembles them into
  \<open>sctp_message\<close> values; what it sends goes the other way, through \<open>send_data\<close>, which packs one
  chunk into a packet, signs it with CRC32c and calls the send handler. A STUN message is
  serialized with two more attributes, an HMAC-SHA1 over the message and a CRC32 fingerprint; the
  receiver parses the attributes and recomputes both.

  A video sender is given access units as Annex B byte streams. It splits them into NAL units, packs
  small ones into one packet and large ones into fragments, marks the last packet and keeps every
  packet in a ring of 512. The receiver stores packets in a ring of the same size, takes out the
  packets up to a marker, rebuilds the NAL units and hands them to its frame handler; gaps in the
  sequence numbers go to a table of lost packets, which a timer reports to the sender, and the sender
  sends the packets it still has again, where negotiated over a retransmission stream of its own.

  Everything a media stream sends goes through its transport, which also receives: a datagram is
  taken for RTCP, RTP, STUN or DTLS by its first bytes. RTP and RTCP packets are parsed and handed to
  the session, which finds the stream by the \<open>ssrc\<close> in them; a loss report or a request for a key
  frame reaches the sender of that stream, a goodbye removes the remote endpoint. A STUN request is
  answered by the transport itself with the address it came from, which is how ICE learns that a
  path works.

  \<^bold>\<open>Conventions.\<close> A C++ class is a record with one field per data member and one definition per
  member function, which takes the object (\<open>this\<close> or \<open>s\<close>) and returns it updated. Fixed-width
  integers are words. \<open>'a cxx\<close> is the option type: \<open>None\<close> stands for undefined behaviour (a read
  outside a buffer, an invalid iterator), never for an error the code reports; those are the
  boolean results of the code. \<open>std::map\<close> and \<open>std::set\<close> are key-ordered association lists.
  Callbacks are events appended to a trace; a timer is a field that holds the delay of the pending
  wait, and its handler starts by clearing it, since the wait has expired; the clock is a stream of readings, and random numbers
  are arguments. An operation of a receiver that reads the clock takes the reading, in nanoseconds, as
  the argument \<open>now\<close>. Floating point (the jitter estimate, wall clock time stamps) is left out.
  Mutexes are left out: an operation is one step, and handlers do not re-enter the
  object that calls them.

  \<^bold>\<open>Theories.\<close>

  \<^item> \<open>Prelude\<close>: bounded reads, big-endian integers and their round trips, the decode loop and the
    locale \<open>framed_codec\<close> (an element codec whose decoder consumes exactly one encoding), with
    the parse-back theorem of a sequence of elements. Interpreted for TLV parameters, chunks and
    STUN attributes.
  \<^item> \<open>Std_Map\<close>: the ordered maps, and the locale \<open>ordered_dict\<close> of the laws a client of
    \<open>std::map\<close> relies on, interpreted on them.
  \<^item> \<open>Sctp_Chunk\<close> (\<open>sctp_chunk.h\<close>, \<open>sctp_chunk.cpp\<close>) and \<open>Sctp_Packet\<close> (\<open>sctp_header\<close>,
    \<open>sctp_packet\<close>): the wire formats, their round trips, the inputs on which parsing is
    undefined, and the checksum.
  \<^item> \<open>Crc_Table\<close>, \<open>Crc32c\<close>, \<open>Crc32\<close> (\<open>crc32c.c\<close>, \<open>crc32.c\<close>): the locale \<open>crc_table\<close> relates a
    lookup table to a polynomial; interpreted for both tables, it gives the bitwise definition
    and the detection of single-byte changes; \<open>Crc32\<close> also shows that the register can be run
    backwards and steered.
  \<^item> \<open>Sctp_Stream\<close> (\<open>sctp_stream.h\<close>, \<open>sctp_stream.cpp\<close>): messages and streams;
    \<open>Stream_Transfer\<close>: fragmentation against reassembly, acknowledgement, retransmission, gap
    blocks.
  \<^item> \<open>Sctp_Assoc\<close> (\<open>sctp.h\<close>, \<open>sctp.cpp\<close>): the association with every handler and timer;
    \<open>Sctp_Invariant\<close>: its step relation and the invariant of the reachable states, that the handlers
    arm their timers again included;
    \<open>Sctp_Protocol\<close>: what a packet sent by one end does at the other, the handshake, corrupted
    packets; \<open>Sctp_Delivery\<close>: the way of a user message from one application to the other.
  \<^item> \<open>Sha1\<close>, \<open>Sha1_Spec\<close>, \<open>Md5\<close> (\<open>sha1.cpp\<close>, \<open>hmac_sha1.cpp\<close>, \<open>md5.c\<close>): the digests as coded,
    and their agreement with definitions written after FIPS 180-4, RFC 2104 and RFC 1321.
  \<^item> \<open>Stun_Message\<close> (\<open>stun_attribute\<close>, \<open>stun_message\<close>, \<open>security/util.cpp\<close>): attributes,
    messages, integrity and fingerprint.
  \<^item> \<open>Bfcp\<close> (\<open>bfcp_attribute\<close>, \<open>bfcp_packet\<close>): floor control packets, read back from their bytes.
  \<^item> \<open>Rtp_Util\<close> (\<open>sn.hpp\<close>, \<open>nack_pid_bid\<close>, \<open>port_range\<close>): serial numbers of 16 bits, the pid and bit
    mask of a loss report, the port allocator.
  \<^item> \<open>Rtp_Packet\<close> (\<open>rtp_header.c\<close>, \<open>rtp_packet.c\<close>, \<open>packet.cpp\<close>): the RTP codec, its round trip, and
    exactly which inputs make the parser read behind its buffer.
  \<^item> \<open>H264\<close> (\<open>h264.cpp\<close>) and \<open>H264_Stream\<close>: NAL headers, the search for NAL units in a byte stream and
    its agreement with the stream format, emulation prevention.
  \<^item> \<open>Rtp_Sender\<close> (\<open>sender.cpp\<close>, \<open>sender_video_h264.cpp\<close>, \<open>sender_rtx.cpp\<close>, the loss handler of
    \<open>media_stream.cpp\<close>) and \<open>Rtp_Receiver\<close> (\<open>receiver.cpp\<close>, \<open>rtp_source.c\<close>, \<open>receiver_rtx.cpp\<close>).
  \<^item> \<open>H264_Receiver\<close> (\<open>receiver_video_h264.cpp\<close>): the depacketizer.
  \<^item> \<open>Frame_Window\<close>: the locale \<open>frame_receiver\<close>, a receiver that takes complete frames out of the ring
    through an operation of its codec, with what happens to the window while the packets of a frame
    arrive in order; \<open>H264_Transfer\<close> interprets it on the H.264 receiver and follows an access unit
    from \<open>send_frame\<close> to the frame handler.
  \<^item> \<open>Rtcp_Header\<close> (\<open>rtcp_header.c\<close>, \<open>rtcp_util.c\<close>, \<open>util.c\<close>), \<open>Rtcp_Fb\<close> (\<open>rtcp_fb.c\<close>), \<open>Rtcp_Report\<close>
    (\<open>rtcp_report.c\<close>, \<open>rtcp_sr.c\<close>, \<open>rtcp_rr.c\<close>, \<open>report.cpp\<close>), \<open>Rtcp_Sdes\<close> (\<open>rtcp_sdes.c\<close>, \<open>sdes.cpp\<close>),
    \<open>Rtcp_Bye\<close> (\<open>rtcp_bye.c\<close>, \<open>rtcp_app.c\<close>): the RTCP packets, how they are built and what the
    receiver of their bytes finds in them.
  \<^item> \<open>Transport\<close> (\<open>transport.cpp\<close>): demultiplexing, dispatch of RTCP packets, binding requests and
    their answers, role conflicts. A packet of any of the modelled kinds, sent by one transport, is
    handed over by the other as what it was.
  \<^item> \<open>Media_Stream\<close> (\<open>media_stream.cpp\<close>, \<open>rtp_session.cpp\<close>, \<open>candidate.cpp\<close>): endpoints, senders and
    receivers of a stream, the feedback it sends and handles. \<open>Loss_Recovery\<close> composes these with the
    transport and the sender's history: from \<open>process_nack\<close> to the packets that are sent again and
    what the receiver unwraps. \<open>run_feedback\<close> only chains the handlers as the callbacks do. The
    reports of \<open>process_nack\<close> carry one packet each when the lost numbers are more than 15 apart
    (\<open>far_apart\<close>), where the misread bit masks do no harm.

  \<^bold>\<open>Bounds.\<close> All loops are total functions: the decode loops end because every element consumes
  bytes, the delivery loop because every round removes a message of the stream, the padding loop
  of SHA-1 because the byte count approaches 56 modulo 64. The scans of a message make at most
  \<open>MAX_CHUNKS_PER_MESSAGE\<close> = 256 rounds as in the code, and \<open>make_next_stream_id\<close> at most 0x7FFF.
  No fuel is used beyond these bounds of the code. Lengths are natural numbers; the digest
  theorems ask for inputs below $2^{28}$ bytes, where the bit counters do not wrap. The only partial
  function is the loop that writes the words of an RTP header, which the code does not end for an
  extension of more than 255 words. The transfer of an access unit asks for at most 257 packets, the
  bound at which the receiver's own overflow test cuts a frame off, and for packets within the time
  limit of one second the receiver sets.

  \<^bold>\<open>Not modelled.\<close> Sockets, TLS, threads and timers of the operating system; DTLS and SRTP, which
  enter the transport as fields holding functions; SDP; of the sessions and media streams everything
  but the feedback path; NTP time, the interval of RTCP packets and the filling of reports, which
  compute with floating point; the payloads of H.265, VP8, AAC and program streams; \<open>litertp\<close>, an
  earlier copy of the same stack; the signalling libraries; vendored code.
\<close>

end
